(* ===== verification/Prelude.thy ===== *)
theory Prelude
  imports Main "HOL-Library.Monad_Syntax"
begin

text \<open>
  Shared by every component of the development: byte strings and the operations of
  Rust's \<open>str\<close> the sources use on them, decimal and hexadecimal text, the sum type of fallible
  operations and the lemma collections the component proofs simplify with.

  A Rust \<open>String\<close> (always valid UTF-8) and a \<open>Vec<u8>\<close> are both an Isabelle \<open>string\<close>, one \<open>char\<close> (8 bits)
  per byte; an index or a length of the model is therefore a byte index, as in Rust.
\<close>

named_theorems str_simps \<open>equivalences for the string operations\<close>
named_theorems res_simps \<open>equivalences for sequencing of fallible operations\<close>

type_synonym bytes = string

section \<open>Fallible operations\<close>

text \<open>\<open>Inl\<close> is \<open>Err\<close>, \<open>Inr\<close> is \<open>Ok\<close>; \<open>res_bind\<close> is the operator \<open>?\<close>.\<close>

definition res_bind :: "'e + 'a \<Rightarrow> ('a \<Rightarrow> 'e + 'b) \<Rightarrow> 'e + 'b" where
  "res_bind r f = (case r of Inl e \<Rightarrow> Inl e | Inr a \<Rightarrow> f a)"

definition map_err :: "('e \<Rightarrow> 'd) \<Rightarrow> 'e + 'a \<Rightarrow> 'd + 'a" where
  "map_err h r = (case r of Inl e \<Rightarrow> Inl (h e) | Inr a \<Rightarrow> Inr a)"

definition ok_or :: "'e \<Rightarrow> 'a option \<Rightarrow> 'e + 'a" where
  "ok_or e x = (case x of None \<Rightarrow> Inl e | Some a \<Rightarrow> Inr a)"

definition is_ok :: "'e + 'a \<Rightarrow> bool" where
  "is_ok r = (case r of Inl _ \<Rightarrow> False | Inr _ \<Rightarrow> True)"

definition ok_opt :: "'e + 'a \<Rightarrow> 'a option" where
  "ok_opt r = (case r of Inl _ \<Rightarrow> None | Inr a \<Rightarrow> Some a)"

lemma res_bind_simps [simp]: "res_bind (Inl e) f = Inl e" "res_bind (Inr a) f = f a"
  by (simp_all add: res_bind_def)

lemma map_err_simps [simp]: "map_err h (Inl e) = Inl (h e)" "map_err h (Inr a) = Inr a"
  by (simp_all add: map_err_def)

lemma ok_or_simps [simp]: "ok_or e None = Inl e" "ok_or e (Some a) = Inr a"
  by (simp_all add: ok_or_def)

lemma is_ok_simps [simp]: "\<not> is_ok (Inl e)" "is_ok (Inr a)"
  by (simp_all add: is_ok_def)

lemma ok_opt_simps [simp]: "ok_opt (Inl e) = None" "ok_opt (Inr a) = Some a"
  by (simp_all add: ok_opt_def)

lemma is_ok_iff [res_simps]: "is_ok r \<longleftrightarrow> (\<exists>a. r = Inr a)"
  by (cases r) auto

lemma res_bind_Inr [res_simps]: "res_bind r f = Inr b \<longleftrightarrow> (\<exists>a. r = Inr a \<and> f a = Inr b)"
  by (cases r) auto

lemma map_err_Inr [res_simps]: "map_err h r = Inr b \<longleftrightarrow> r = Inr b"
  by (cases r) auto

lemma ok_or_Inr [res_simps]: "ok_or e x = Inr b \<longleftrightarrow> x = Some b"
  by (cases x) auto

section \<open>Prefixes, searching and splitting\<close>

definition starts_with :: "string \<Rightarrow> string \<Rightarrow> bool" where
  "starts_with p s = (take (length p) s = p)"

definition strip_prefix :: "string \<Rightarrow> string \<Rightarrow> string option" where
  "strip_prefix p s = (if starts_with p s then Some (drop (length p) s) else None)"

definition ends_with :: "string \<Rightarrow> string \<Rightarrow> bool" where
  "ends_with p s = starts_with (rev p) (rev s)"

lemma starts_with_iff [str_simps]: "starts_with p s \<longleftrightarrow> (\<exists>t. s = p @ t)"
  by (metis append_eq_conv_conj append_take_drop_id starts_with_def)

lemma starts_with_append [simp]: "starts_with p (p @ t)"
  by (simp add: starts_with_def)

lemma starts_with_Nil [simp]: "starts_with [] s"
  by (simp add: starts_with_def)

lemma starts_with_Cons [simp]: "starts_with (x # p) (y # s) \<longleftrightarrow> x = y \<and> starts_with p s"
  by (auto simp: starts_with_def)

lemma starts_with_Cons_Nil [simp]: "\<not> starts_with (x # p) []"
  by (simp add: starts_with_def)

lemma strip_prefix_Some [str_simps]: "strip_prefix p s = Some t \<longleftrightarrow> s = p @ t"
  by (auto simp: strip_prefix_def starts_with_iff)

lemma strip_prefix_append [simp]: "strip_prefix p (p @ t) = Some t"
  by (simp add: strip_prefix_Some)

text \<open>\<open>find(c)\<close> followed by the two slices around the index, and \<open>rfind(c)\<close> with its slices.\<close>

fun split_once :: "char \<Rightarrow> string \<Rightarrow> (string \<times> string) option" where
  "split_once c [] = None"
| "split_once c (x # xs) =
     (if x = c then Some ([], xs) else map_option (\<lambda>(a, b). (x # a, b)) (split_once c xs))"

definition rsplit_once :: "char \<Rightarrow> string \<Rightarrow> (string \<times> string) option" where
  "rsplit_once c s = map_option (\<lambda>(a, b). (rev b, rev a)) (split_once c (rev s))"

lemma split_once_Some [str_simps]:
  "split_once c s = Some (a, b) \<longleftrightarrow> s = a @ c # b \<and> c \<notin> set a"
proof (induction s arbitrary: a)
  case (Cons x s)
  then show ?case by (cases a) auto
qed simp

lemma split_once_None [str_simps]: "split_once c s = None \<longleftrightarrow> c \<notin> set s"
  by (induction s) auto

lemma split_once_append [simp]: "c \<notin> set a \<Longrightarrow> split_once c (a @ c # b) = Some (a, b)"
  by (simp add: split_once_Some)

lemma rsplit_once_Some [str_simps]:
  "rsplit_once c s = Some (a, b) \<longleftrightarrow> s = a @ c # b \<and> c \<notin> set b"
proof -
  have "rsplit_once c s = Some (a, b) \<longleftrightarrow> split_once c (rev s) = Some (rev b, rev a)"
    by (auto simp: rsplit_once_def)
  also have "\<dots> \<longleftrightarrow> rev s = rev (a @ c # b) \<and> c \<notin> set b"
    by (simp add: split_once_Some)
  also have "\<dots> \<longleftrightarrow> s = a @ c # b \<and> c \<notin> set b"
    by (metis rev_rev_ident)
  finally show ?thesis .
qed

lemma rsplit_once_None [str_simps]: "rsplit_once c s = None \<longleftrightarrow> c \<notin> set s"
  by (simp add: rsplit_once_def split_once_None)

lemma rsplit_once_append [simp]: "c \<notin> set b \<Longrightarrow> rsplit_once c (a @ c # b) = Some (a, b)"
  by (simp add: rsplit_once_Some)

text \<open>The same for a substring: \<open>find(p)\<close>, the text before it and the text after it.\<close>

fun split_str :: "string \<Rightarrow> string \<Rightarrow> (string \<times> string) option" where
  "split_str p [] = (if p = [] then Some ([], []) else None)"
| "split_str p (x # xs) =
     (if starts_with p (x # xs) then Some ([], drop (length p) (x # xs))
      else map_option (\<lambda>(a, b). (x # a, b)) (split_str p xs))"

definition contains_str :: "string \<Rightarrow> string \<Rightarrow> bool" where
  "contains_str p s = (split_str p s \<noteq> None)"

lemma split_str_Some: "split_str p s = Some (a, b) \<Longrightarrow> s = a @ p @ b"
proof (induction s arbitrary: a)
  case (Cons x s)
  show ?case
  proof (cases "starts_with p (x # s)")
    case True
    then show ?thesis using Cons.prems
      by (auto simp: starts_with_def) (metis append_take_drop_id)
  next
    case False
    then show ?thesis using Cons by auto
  qed
qed (auto split: if_splits)

lemma split_str_found: "split_str p (a @ p @ b) \<noteq> None"
proof (induction a)
  case Nil
  then show ?case
    by (cases "p @ b") (auto, metis starts_with_append)
qed auto

lemma contains_str_iff [str_simps]: "contains_str p s \<longleftrightarrow> (\<exists>a b. s = a @ p @ b)"
  unfolding contains_str_def using split_str_Some split_str_found by fastforce

lemma contains_str_char: "contains_str [c] s \<longleftrightarrow> c \<in> set s"
  by (auto simp: contains_str_iff in_set_conv_decomp)

text \<open>\<open>str::split(c)\<close> and \<open>join\<close>.\<close>

fun split_on :: "char \<Rightarrow> string \<Rightarrow> string list" where
  "split_on c [] = [] # []"
| "split_on c (x # xs) =
     (if x = c then [] # split_on c xs
      else case split_on c xs of [] \<Rightarrow> [x] # [] | p # ps \<Rightarrow> (x # p) # ps)"

fun join_str :: "string \<Rightarrow> string list \<Rightarrow> string" where
  "join_str sep [] = []"
| "join_str sep [p] = p"
| "join_str sep (p # q # ps) = p @ sep @ join_str sep (q # ps)"

lemma split_on_not_Nil [simp]: "split_on c s \<noteq> []"
  by (induction s) (auto split: list.splits)

lemma split_on_parts: "p \<in> set (split_on c s) \<Longrightarrow> c \<notin> set p"
proof (induction s arbitrary: p)
  case (Cons x s)
  then show ?case by (cases "split_on c s") (auto split: if_splits)
qed simp

lemma split_on_single [simp]: "c \<notin> set s \<Longrightarrow> split_on c s = [s]"
  by (induction s) auto

lemma split_on_append [simp]:
  "c \<notin> set a \<Longrightarrow> split_on c (a @ c # b) = a # split_on c b"
  by (induction a) (auto split: list.splits)

lemma join_split: "join_str [c] (split_on c s) = s"
proof (induction s)
  case (Cons x s)
  then show ?case by (cases "split_on c s") (cases "tl (split_on c s)"; auto)+
qed simp

lemma split_join:
  "ps \<noteq> [] \<Longrightarrow> (\<And>p. p \<in> set ps \<Longrightarrow> c \<notin> set p) \<Longrightarrow> split_on c (join_str [c] ps) = ps"
  by (induction "[c]" ps rule: join_str.induct) auto

lemma find_first:
  "find P xs = Some x \<longleftrightarrow> (\<exists>pre post. xs = pre @ x # post \<and> P x \<and> (\<forall>y \<in> set pre. \<not> P y))"
proof
  assume "find P xs = Some x"
  then obtain i where i: "i < length xs" "P (xs ! i)" "x = xs ! i" "\<forall>j < i. \<not> P (xs ! j)"
    by (auto simp: find_Some_iff)
  then have "xs = take i xs @ x # drop (Suc i) xs" by (simp add: id_take_nth_drop [symmetric])
  moreover have "\<forall>y \<in> set (take i xs). \<not> P y" using i(1,4) by (auto simp: in_set_conv_nth)
  ultimately show "\<exists>pre post. xs = pre @ x # post \<and> P x \<and> (\<forall>y \<in> set pre. \<not> P y)"
    using i(2,3) by blast
next
  assume "\<exists>pre post. xs = pre @ x # post \<and> P x \<and> (\<forall>y \<in> set pre. \<not> P y)"
  then obtain pre post where "xs = pre @ x # post" "P x" "\<forall>y \<in> set pre. \<not> P y" by blast
  then show "find P xs = Some x" by (induction pre arbitrary: xs) auto
qed

end
