(* ===== verification/TextOps.thy ===== *)
theory TextOps
  imports Prelude
begin

text \<open>
  The text functions of Rust's standard library the sources rely on: \<open>trim\<close> and \<open>lines\<close> on UTF-8
  bytes, ASCII case folding, decimal printing and the integer parser behind \<open>str::parse\<close>, and
  hexadecimal encoding (crate \<open>hex\<close>, \<open>encode\<close>), each with the facts the components need.
\<close>

section \<open>White space\<close>

text \<open>The UTF-8 encodings of the characters with the Unicode property White_Space.\<close>

definition byte_str :: "nat list \<Rightarrow> string" where
  "byte_str ns = map char_of ns"

definition ws_encodings :: "string list" where
  "ws_encodings = map (\<lambda>n. byte_str [n]) [9, 10, 11, 12, 13, 32] @
     [byte_str [0xC2, 0x85], byte_str [0xC2, 0xA0], byte_str [0xE1, 0x9A, 0x80]] @
     map (\<lambda>n. byte_str [0xE2, 0x80, n]) ([0x80 ..< 0x8B] @ [0xA8, 0xA9, 0xAF]) @
     [byte_str [0xE2, 0x81, 0x9F], byte_str [0xE3, 0x80, 0x80]]"

text \<open>Strips leading occurrences of the given non-empty words.\<close>

definition strip_one :: "string list \<Rightarrow> string \<Rightarrow> string option" where
  "strip_one ws s = (case find (\<lambda>w. w \<noteq> [] \<and> starts_with w s) ws of
     None \<Rightarrow> None | Some w \<Rightarrow> Some (drop (length w) s))"

lemma strip_one_Some:
  "strip_one ws s = Some t \<Longrightarrow> \<exists>w \<in> set ws. w \<noteq> [] \<and> s = w @ t"
  by (auto simp: strip_one_def starts_with_iff find_Some_iff split: option.splits)

lemma strip_one_shorter: "strip_one ws s = Some t \<Longrightarrow> length t < length s"
  by (auto dest!: strip_one_Some)

function strip_front :: "string list \<Rightarrow> string \<Rightarrow> string" where
  "strip_front ws s = (case strip_one ws s of None \<Rightarrow> s | Some t \<Rightarrow> strip_front ws t)"
  by auto
termination by (relation "measure (\<lambda>(ws, s). length s)") (auto dest: strip_one_shorter)

declare strip_front.simps [simp del]

definition trim_start :: "string \<Rightarrow> string" where
  "trim_start s = strip_front ws_encodings s"

definition trim_end :: "string \<Rightarrow> string" where
  "trim_end s = rev (strip_front (map rev ws_encodings) (rev s))"

definition trim :: "string \<Rightarrow> string" where
  "trim s = trim_end (trim_start s)"

lemma strip_one_suffix: "strip_one ws s = Some t \<Longrightarrow> \<exists>p. s = p @ t"
  by (auto dest!: strip_one_Some)

lemma strip_front_suffix: "\<exists>p. s = p @ strip_front ws s"
proof (induction ws s rule: strip_front.induct)
  case (1 ws s)
  show ?case
  proof (cases "strip_one ws s")
    case (Some t)
    then have "strip_front ws s = strip_front ws t"
      by (subst strip_front.simps) simp
    then show ?thesis
      using 1 [OF Some] strip_one_suffix [OF Some] by (metis append.assoc)
  qed (subst strip_front.simps, simp)
qed

lemma strip_front_fixed: "strip_one ws (strip_front ws s) = None"
proof (induction ws s rule: strip_front.induct)
  case (1 ws s)
  then show ?case
    by (subst strip_front.simps) (auto split: option.splits)
qed

lemma strip_front_id: "strip_one ws s = None \<Longrightarrow> strip_front ws s = s"
  by (subst strip_front.simps) simp

lemma trim_start_set: "set (trim_start s) \<subseteq> set s"
  unfolding trim_start_def using strip_front_suffix [of s ws_encodings]
  by (metis Un_upper2 set_append)

lemma trim_end_set: "set (trim_end s) \<subseteq> set s"
  unfolding trim_end_def using strip_front_suffix [of "rev s" "map rev ws_encodings"]
  by (metis Un_upper2 set_append set_rev)

lemma trim_set: "set (trim s) \<subseteq> set s"
  unfolding trim_def using trim_start_set trim_end_set by blast

lemma ws_encodings_not_Nil: "w \<in> set ws_encodings \<Longrightarrow> w \<noteq> []"
  by (auto simp: ws_encodings_def byte_str_def)

lemma strip_one_None: "strip_one ws s = None \<longleftrightarrow> (\<forall>w \<in> set ws. w \<noteq> [] \<longrightarrow> \<not> starts_with w s)"
proof -
  have "strip_one ws s = None \<longleftrightarrow> find (\<lambda>w. w \<noteq> [] \<and> starts_with w s) ws = None"
    by (simp add: strip_one_def split: option.splits)
  then show ?thesis by (simp add: find_None_iff) blast
qed

text \<open>\<open>str::lines\<close>: split at line feeds, drop one trailing carriage return of each line, and no
  empty line after a final line feed.\<close>

definition chomp_cr :: "string \<Rightarrow> string" where
  "chomp_cr l = (if l \<noteq> [] \<and> last l = CHR 0x0D then butlast l else l)"

definition str_lines :: "string \<Rightarrow> string list" where
  "str_lines s = (let ps = split_on CHR 0x0A s in
     map (\<lambda>l. chomp_cr l) (if last ps = [] then butlast ps else ps))"

section \<open>ASCII classes and case folding\<close>

definition byte_val :: "char \<Rightarrow> nat" where
  "byte_val c = of_char c"

definition is_digit :: "char \<Rightarrow> bool" where
  "is_digit c = (48 \<le> byte_val c \<and> byte_val c \<le> 57)"

definition is_upper :: "char \<Rightarrow> bool" where
  "is_upper c = (65 \<le> byte_val c \<and> byte_val c \<le> 90)"

definition is_lower :: "char \<Rightarrow> bool" where
  "is_lower c = (97 \<le> byte_val c \<and> byte_val c \<le> 122)"

definition is_alnum :: "char \<Rightarrow> bool" where
  "is_alnum c = (is_digit c \<or> is_upper c \<or> is_lower c)"

definition is_hex_digit :: "char \<Rightarrow> bool" where
  "is_hex_digit c = (is_digit c \<or> (65 \<le> byte_val c \<and> byte_val c \<le> 70) \<or> (97 \<le> byte_val c \<and> byte_val c \<le> 102))"

definition lower_char :: "char \<Rightarrow> char" where
  "lower_char c = (if is_upper c then char_of (byte_val c + 32) else c)"

definition ascii_lower :: "string \<Rightarrow> string" where
  "ascii_lower s = map lower_char s"

definition eq_ignore_case :: "string \<Rightarrow> string \<Rightarrow> bool" where
  "eq_ignore_case a b = (ascii_lower a = ascii_lower b)"

lemma code_less [simp]: "byte_val c < 256"
  using nat_of_char_less_256 [of c] by (simp add: byte_val_def)

lemma char_of_code [simp]: "char_of (byte_val c) = c"
  by (simp add: byte_val_def)

lemma code_char_of [simp]: "n < 256 \<Longrightarrow> byte_val (char_of n) = n"
  by (simp add: byte_val_def)

lemma code_inject [simp]: "byte_val c = byte_val d \<longleftrightarrow> c = d"
  by (metis char_of_code)

lemma lower_char_idem [simp]: "lower_char (lower_char c) = lower_char c"
proof (cases "is_upper c")
  case True
  then have "byte_val (char_of (byte_val c + 32)) = byte_val c + 32"
    by (intro code_char_of) (simp add: is_upper_def)
  then show ?thesis using True by (auto simp: lower_char_def is_upper_def)
qed (simp add: lower_char_def)

lemma ascii_lower_idem [simp]: "ascii_lower (ascii_lower s) = ascii_lower s"
  by (simp add: ascii_lower_def)

lemma ascii_lower_append [simp]: "ascii_lower (a @ b) = ascii_lower a @ ascii_lower b"
  by (simp add: ascii_lower_def)

lemma ascii_lower_Nil [simp]: "ascii_lower s = [] \<longleftrightarrow> s = []"
  by (simp add: ascii_lower_def)

lemma length_ascii_lower [simp]: "length (ascii_lower s) = length s"
  by (simp add: ascii_lower_def)

lemma lower_char_fixes: "\<not> is_upper d \<Longrightarrow> \<not> is_lower d \<Longrightarrow> lower_char c = d \<longleftrightarrow> c = d"
proof -
  assume d: "\<not> is_upper d" "\<not> is_lower d"
  have "is_upper c \<Longrightarrow> is_lower (char_of (byte_val c + 32))"
    by (subst is_lower_def, subst (1 2) code_char_of) (auto simp: is_upper_def)
  with d show ?thesis by (auto simp: lower_char_def)
qed

lemma ascii_lower_mem: "\<not> is_upper d \<Longrightarrow> \<not> is_lower d \<Longrightarrow> d \<in> set (ascii_lower s) \<longleftrightarrow> d \<in> set s"
  by (auto simp: ascii_lower_def image_iff lower_char_fixes eq_commute [of d])

section \<open>Decimal text\<close>

text \<open>\<open>to_string\<close> of an unsigned integer, and \<open>parse::<u_bits>()\<close>: one leading plus sign is accepted,
  an empty digit sequence, another character or an overflow is an error.\<close>

definition digit :: "nat \<Rightarrow> char" where
  "digit d = char_of (48 + d)"

fun dec :: "nat \<Rightarrow> string" where
  "dec n = (if n < 10 then [digit n] else dec (n div 10) @ [digit (n mod 10)])"

declare dec.simps [simp del]

fun parse_digits :: "nat \<Rightarrow> string \<Rightarrow> nat option" where
  "parse_digits acc [] = Some acc"
| "parse_digits acc (c # cs) =
     (if is_digit c then parse_digits (10 * acc + (byte_val c - 48)) cs else None)"

definition parse_uint :: "nat \<Rightarrow> string \<Rightarrow> nat option" where
  "parse_uint bits s =
     (let ds = (case s of [] \<Rightarrow> s | c # cs \<Rightarrow> if c = CHR ''+'' then cs else s) in
      if ds = [] then None else
      case parse_digits 0 ds of None \<Rightarrow> None | Some n \<Rightarrow> if n < 2 ^ bits then Some n else None)"

lemma code_digit [simp]: "d < 10 \<Longrightarrow> byte_val (digit d) = 48 + d"
  by (simp add: digit_def)

lemma is_digit_digit [simp]: "d < 10 \<Longrightarrow> is_digit (digit d)"
  by (simp add: is_digit_def)

lemma parse_digits_append:
  "parse_digits acc (xs @ ys) = Option.bind (parse_digits acc xs) (\<lambda>a. parse_digits a ys)"
  by (induction xs arbitrary: acc) auto

lemma parse_digits_dec: "parse_digits 0 (dec n) = Some n"
proof (induction n rule: dec.induct)
  case (1 n)
  show ?case
  proof (cases "n < 10")
    case True
    then show ?thesis by (subst dec.simps) simp
  next
    case False
    then show ?thesis using 1 by (subst dec.simps) (simp add: parse_digits_append)
  qed
qed

lemma dec_not_Nil [simp]: "dec n \<noteq> []"
  by (subst dec.simps) simp

lemma dec_digits: "c \<in> set (dec n) \<Longrightarrow> is_digit c"
proof (induction n rule: dec.induct)
  case (1 n)
  then show ?case by (subst (asm) (2) dec.simps) (auto split: if_splits)
qed

lemma parse_uint_digits:
  "s \<noteq> [] \<Longrightarrow> (\<And>c. c \<in> set s \<Longrightarrow> is_digit c) \<Longrightarrow>
   parse_uint bits s = (case parse_digits 0 s of None \<Rightarrow> None | Some n \<Rightarrow> if n < 2 ^ bits then Some n else None)"
proof -
  assume s: "s \<noteq> []" "\<And>c. c \<in> set s \<Longrightarrow> is_digit c"
  have "\<not> is_digit (CHR ''+'')" by (simp add: is_digit_def byte_val_def)
  with s have "(case s of [] \<Rightarrow> s | c # cs \<Rightarrow> if c = CHR ''+'' then cs else s) = s"
    by (cases s) auto
  then show ?thesis using s(1) by (simp add: parse_uint_def)
qed

theorem parse_uint_dec [simp]: "n < 2 ^ bits \<Longrightarrow> parse_uint bits (dec n) = Some n"
  by (simp add: parse_uint_digits dec_digits parse_digits_dec)

lemma parse_uint_bound: "parse_uint bits s = Some n \<Longrightarrow> n < 2 ^ bits"
  by (auto simp: parse_uint_def Let_def split: if_splits option.splits)

section \<open>Hexadecimal text\<close>

definition hex_nibble :: "nat \<Rightarrow> char" where
  "hex_nibble n = (if n < 10 then char_of (48 + n) else char_of (87 + n))"

definition hex_byte :: "char \<Rightarrow> string" where
  "hex_byte c = [hex_nibble (byte_val c div 16), hex_nibble (byte_val c mod 16)]"

definition hex_encode :: "string \<Rightarrow> string" where
  "hex_encode s = concat (map hex_byte s)"

definition hex_value :: "char \<Rightarrow> nat option" where
  "hex_value c = (if is_digit c then Some (byte_val c - 48)
     else if 97 \<le> byte_val c \<and> byte_val c \<le> 102 then Some (byte_val c - 87)
     else if 65 \<le> byte_val c \<and> byte_val c \<le> 70 then Some (byte_val c - 55) else None)"

fun hex_decode :: "string \<Rightarrow> string option" where
  "hex_decode [] = Some []"
| "hex_decode [c] = None"
| "hex_decode (a # b # s) =
     (case (hex_value a, hex_value b, hex_decode s) of
        (Some x, Some y, Some t) \<Rightarrow> Some (char_of (16 * x + y) # t) | _ \<Rightarrow> None)"

lemma hex_value_nibble [simp]: "n < 16 \<Longrightarrow> hex_value (hex_nibble n) = Some n"
  by (auto simp: hex_value_def hex_nibble_def is_digit_def)

lemma is_hex_digit_nibble [simp]: "n < 16 \<Longrightarrow> is_hex_digit (hex_nibble n)"
  by (auto simp: is_hex_digit_def hex_nibble_def is_digit_def)

lemma hex_nibble_inject [simp]: "m < 16 \<Longrightarrow> n < 16 \<Longrightarrow> hex_nibble m = hex_nibble n \<longleftrightarrow> m = n"
  by (metis hex_value_nibble option.inject)

lemma code_div_16 [simp]: "byte_val c div 16 < 16"
  using code_less [of c] by linarith

lemma hex_decode_encode [simp]: "hex_decode (hex_encode s) = Some s"
proof (induction s)
  case (Cons c s)
  have "16 * (byte_val c div 16) + byte_val c mod 16 = byte_val c" by simp
  then show ?case using Cons by (simp add: hex_encode_def hex_byte_def)
qed (simp add: hex_encode_def)

lemma length_hex_encode [simp]: "length (hex_encode s) = 2 * length s"
  by (induction s) (simp_all add: hex_encode_def hex_byte_def)

lemma hex_encode_digits: "c \<in> set (hex_encode s) \<Longrightarrow> is_hex_digit c"
  by (auto simp: hex_encode_def hex_byte_def)

lemma hex_encode_inject [simp]: "hex_encode s = hex_encode t \<longleftrightarrow> s = t"
  by (metis hex_decode_encode option.inject)

section \<open>UTF-8 validity and debug text\<close>

definition cont_byte :: "nat \<Rightarrow> bool" where
  "cont_byte b = (0x80 \<le> b \<and> b \<le> 0xBF)"

text \<open>The length of the well-formed UTF-8 sequence a string starts with, 0 when there is none.\<close>

definition utf8_len :: "string \<Rightarrow> nat" where
  "utf8_len s = (case map (\<lambda>c. byte_val c) (take 4 s) of
     [] \<Rightarrow> 0
   | b0 # r \<Rightarrow>
     if b0 < 0x80 then 1
     else (case r of [] \<Rightarrow> 0 | b1 # r1 \<Rightarrow>
       if 0xC2 \<le> b0 \<and> b0 \<le> 0xDF then (if cont_byte b1 then 2 else 0)
       else (case r1 of [] \<Rightarrow> 0 | b2 # r2 \<Rightarrow>
         if 0xE0 \<le> b0 \<and> b0 \<le> 0xEF then
           (if cont_byte b1 \<and> cont_byte b2 \<and> (b0 = 0xE0 \<longrightarrow> 0xA0 \<le> b1) \<and> (b0 = 0xED \<longrightarrow> b1 \<le> 0x9F)
            then 3 else 0)
         else (case r2 of [] \<Rightarrow> 0 | b3 # _ \<Rightarrow>
           if 0xF0 \<le> b0 \<and> b0 \<le> 0xF4 \<and> cont_byte b1 \<and> cont_byte b2 \<and> cont_byte b3 \<and>
              (b0 = 0xF0 \<longrightarrow> 0x90 \<le> b1) \<and> (b0 = 0xF4 \<longrightarrow> b1 \<le> 0x8F)
           then 4 else 0))))"

function utf8_valid :: "string \<Rightarrow> bool" where
  "utf8_valid s = (if s = [] then True else if utf8_len s = 0 then False
     else utf8_valid (drop (utf8_len s) s))"
  by auto
termination by (relation "measure length") (auto intro!: diff_less)

declare utf8_valid.simps [simp del]

lemma utf8_valid_ascii: "(\<And>c. c \<in> set s \<Longrightarrow> byte_val c < 0x80) \<Longrightarrow> utf8_valid s"
proof (induction s)
  case (Cons c s)
  then have "utf8_len (c # s) = 1" by (simp add: utf8_len_def take_Cons')
  then show ?case using Cons by (subst utf8_valid.simps) simp
qed (simp add: utf8_valid.simps)

text \<open>\<open>{:?}\<close> of a \<open>str\<close>: quotes, backslashes and the ASCII control characters are escaped; bytes of
  non-ASCII characters are copied (as Rust does for printable characters).\<close>

definition hex_short :: "nat \<Rightarrow> string" where
  "hex_short n = (if n < 16 then [hex_nibble n] else [hex_nibble (n div 16), hex_nibble (n mod 16)])"

definition debug_char :: "char \<Rightarrow> string" where
  "debug_char c =
     (let n = byte_val c in
      if n = 0 then [CHR 0x5C, CHR ''0'']
      else if n = 9 then [CHR 0x5C, CHR ''t'']
      else if n = 10 then [CHR 0x5C, CHR ''n'']
      else if n = 13 then [CHR 0x5C, CHR ''r'']
      else if n = 0x22 \<or> n = 0x5C then [CHR 0x5C, c]
      else if n < 32 \<or> n = 127 then CHR 0x5C # ''u{'' @ hex_short n @ ''}''
      else [c])"

definition debug_str :: "string \<Rightarrow> string" where
  "debug_str s = [CHR 0x22] @ concat (map debug_char s) @ [CHR 0x22]"

section \<open>Internet addresses\<close>

text \<open>\<open>parse::<IpAddr>()\<close>: four decimal octets without leading zeros, or eight groups of one to four
  hexadecimal digits with at most one \<open>::\<close> for one or more zero groups; the last two groups may be
  written as an IPv4 address, but not before the \<open>::\<close>.\<close>

definition ipv4_octet :: "string \<Rightarrow> nat option" where
  "ipv4_octet s =
     (if s = [] \<or> 3 < length s \<or> \<not> list_all is_digit s \<or> (1 < length s \<and> hd s = CHR ''0'') then None
      else case parse_digits 0 s of Some n \<Rightarrow> if n < 256 then Some n else None | None \<Rightarrow> None)"

definition parse_ipv4 :: "string \<Rightarrow> nat list option" where
  "parse_ipv4 s = (let os = map ipv4_octet (split_on CHR ''.'' s) in
     if length os = 4 \<and> list_all (\<lambda>x. x \<noteq> None) os then Some (map the os) else None)"

fun hex_number :: "nat \<Rightarrow> string \<Rightarrow> nat option" where
  "hex_number acc [] = Some acc"
| "hex_number acc (c # cs) =
     (case hex_value c of None \<Rightarrow> None | Some v \<Rightarrow> hex_number (16 * acc + v) cs)"

definition ipv6_group :: "string \<Rightarrow> nat option" where
  "ipv6_group s = (if s = [] \<or> 4 < length s then None else hex_number 0 s)"

text \<open>\<open>v4\<close>: whether the last element may be an IPv4 address.\<close>

fun ipv6_groups :: "bool \<Rightarrow> string list \<Rightarrow> nat list option" where
  "ipv6_groups v4 [] = Some []"
| "ipv6_groups v4 [s] =
     (case ipv6_group s of
        Some g \<Rightarrow> Some [g]
      | None \<Rightarrow> if v4 then (case parse_ipv4 s of
            Some [a, b, c, d] \<Rightarrow> Some [256 * a + b, 256 * c + d] | _ \<Rightarrow> None) else None)"
| "ipv6_groups v4 (s # t # ss) =
     (case (ipv6_group s, ipv6_groups v4 (t # ss)) of
        (Some g, Some gs) \<Rightarrow> Some (g # gs) | _ \<Rightarrow> None)"

definition ipv6_side :: "bool \<Rightarrow> string \<Rightarrow> nat list option" where
  "ipv6_side v4 s = (if s = [] then Some [] else ipv6_groups v4 (split_on CHR '':'' s))"

definition parse_ipv6 :: "string \<Rightarrow> nat list option" where
  "parse_ipv6 s =
     (case split_str ''::'' s of
        None \<Rightarrow> (case ipv6_side True s of
            Some gs \<Rightarrow> if length gs = 8 then Some gs else None | None \<Rightarrow> None)
      | Some (a, b) \<Rightarrow>
          (case (ipv6_side False a, ipv6_side True b) of
             (Some h, Some t) \<Rightarrow>
               if length h + length t \<le> 7 then Some (h @ replicate (8 - length h - length t) 0 @ t)
               else None
           | _ \<Rightarrow> None))"

definition ip_is_loopback :: "string \<Rightarrow> bool" where
  "ip_is_loopback s = (case parse_ipv4 s of
     Some (a # _) \<Rightarrow> a = 127
   | _ \<Rightarrow> parse_ipv6 s = Some [0, 0, 0, 0, 0, 0, 0, 1])"

lemma parse_ipv4_digits: "parse_ipv4 s \<noteq> None \<Longrightarrow> c \<in> set s \<Longrightarrow> is_digit c \<or> c = CHR ''.''"
proof -
  assume p: "parse_ipv4 s \<noteq> None" and c: "c \<in> set s"
  have parts: "list_all is_digit q" if "q \<in> set (split_on CHR ''.'' s)" for q
  proof -
    have "ipv4_octet q \<noteq> None"
      using p that by (auto simp: parse_ipv4_def Let_def list_all_iff split: if_splits)
    then show ?thesis by (auto simp: ipv4_octet_def split: if_splits)
  qed
  have "set s \<subseteq> insert CHR ''.'' (\<Union> (set ` set (split_on CHR ''.'' s)))"
  proof (induction s)
    case (Cons x s)
    then show ?case by (auto split: list.splits) blast
  qed simp
  then show ?thesis using c parts by (auto simp: list_all_iff)
qed

section \<open>Words, lossy decoding and white space removal\<close>

definition ws_here :: "string \<Rightarrow> bool" where
  "ws_here s = (strip_one ws_encodings s \<noteq> None)"

fun take_word :: "string \<Rightarrow> string \<times> string" where
  "take_word [] = ([], [])"
| "take_word (c # s) =
     (if ws_here (c # s) then ([], c # s) else (case take_word s of (w, r) \<Rightarrow> (c # w, r)))"

lemma take_word_app: "take_word s = (w, r) \<Longrightarrow> s = w @ r"
  by (induction s arbitrary: w r) (auto split: if_splits prod.splits)

lemma trim_start_head: "trim_start s = c # t \<Longrightarrow> \<not> ws_here (c # t)"
  using strip_front_fixed [of ws_encodings s] by (simp add: trim_start_def ws_here_def)

lemma trim_start_shorter: "length (trim_start s) \<le> length s"
  unfolding trim_start_def using strip_front_suffix [of s ws_encodings]
  by (metis le_add2 length_append)

lemma take_word_shorter:
  assumes "trim_start s = c # t"
  shows "length (snd (take_word (c # t))) < length s"
proof -
  obtain w r where w: "take_word (c # t) = (w, r)" by (cases "take_word (c # t)")
  with trim_start_head [OF assms] obtain v where "w = c # v"
    by (auto split: prod.splits)
  then show ?thesis using take_word_app [OF w] trim_start_shorter [of s] assms w by simp
qed

text \<open>\<open>split\_whitespace\<close>.\<close>

function split_ws :: "string \<Rightarrow> string list" where
  "split_ws s = (case trim_start s of [] \<Rightarrow> []
     | c # t \<Rightarrow> fst (take_word (c # t)) # split_ws (snd (take_word (c # t))))"
  by auto
termination by (relation "measure length") (auto dest: take_word_shorter)

declare split_ws.simps [simp del]

text \<open>\<open>chars().filter(|c| !c.is\_whitespace())\<close>.  An encoding of a white-space character starts with an
  ASCII or a leading byte, so it is recognised at every byte of a valid string.\<close>

function remove_ws :: "string \<Rightarrow> string" where
  "remove_ws s = (case s of [] \<Rightarrow> [] | c # t \<Rightarrow>
     (case strip_one ws_encodings s of Some r \<Rightarrow> remove_ws r | None \<Rightarrow> c # remove_ws t))"
  by auto
termination by (relation "measure length") (auto dest: strip_one_shorter)

declare remove_ws.simps [simp del]

text \<open>\<open>String::from\_utf8\_lossy\<close>: a valid sequence is kept, a maximal truncated one becomes one
  replacement character.\<close>

definition utf8_bad_len :: "string \<Rightarrow> nat" where
  "utf8_bad_len s = (case map (\<lambda>c. byte_val c) (take 3 s) of
     b0 # b1 # r \<Rightarrow>
       (let second = (if b0 = 0xE0 then 0xA0 \<le> b1 \<and> b1 \<le> 0xBF
            else if b0 = 0xED then 0x80 \<le> b1 \<and> b1 \<le> 0x9F
            else if b0 = 0xF0 then 0x90 \<le> b1 \<and> b1 \<le> 0xBF
            else if b0 = 0xF4 then 0x80 \<le> b1 \<and> b1 \<le> 0x8F
            else 0xE1 \<le> b0 \<and> b0 \<le> 0xF3 \<and> cont_byte b1) in
        if \<not> second then 1
        else if b0 < 0xF0 then 2
        else (case r of b2 # _ \<Rightarrow> if cont_byte b2 then 3 else 2 | [] \<Rightarrow> 2))
   | _ \<Rightarrow> 1)"

lemma utf8_bad_len_pos: "0 < utf8_bad_len s"
  by (auto simp: utf8_bad_len_def Let_def split: list.splits)

function utf8_lossy :: "string \<Rightarrow> string" where
  "utf8_lossy s = (if s = [] then []
     else if utf8_len s \<noteq> 0 then take (utf8_len s) s @ utf8_lossy (drop (utf8_len s) s)
     else byte_str [0xEF, 0xBF, 0xBD] @ utf8_lossy (drop (utf8_bad_len s) s))"
  by auto
termination by (relation "measure length") (auto intro!: diff_less simp: utf8_bad_len_pos)

declare utf8_lossy.simps [simp del]

lemma utf8_lossy_valid: "utf8_valid s \<Longrightarrow> utf8_lossy s = s"
proof (induction s rule: utf8_lossy.induct)
  case (1 s)
  show ?case
  proof (cases "s = []")
    case False
    then have v: "utf8_len s \<noteq> 0" "utf8_valid (drop (utf8_len s) s)"
      using 1(3) by (auto simp: utf8_valid.simps [of s] split: if_splits)
    show ?thesis using 1(1) [OF False v] False v(1) by (subst utf8_lossy.simps) simp
  qed (simp add: utf8_lossy.simps)
qed

end
