(* ===== verification/FileSys.thy ===== *)
theory FileSys
  imports TextOps
begin

text \<open>
  The file operations the carriers perform, over an explicit world: the visible files, which of them
  still have unsynced content, the faults the operating system will report, and the history of what
  another process could have observed after each primitive step.  A write is a truncating create
  followed by one step per byte, so the history holds every partial file a real write could show (and
  every real write, whatever its chunks, shows a subset of it).  Faults are a schedule consumed by the
  primitives: \<open>Some e\<close> makes the step fail with the text \<open>e\<close> and without an effect.

  The locale \<open>atomic_publish\<close> is the contract of every "write a temporary file, then rename it" routine
  of the sources; \<open>Deposits\<close> interprets it on each of them.
\<close>

section \<open>Paths\<close>

text \<open>\<open>Path::join\<close>: an absolute second operand replaces the first.\<close>

definition path_join :: "string \<Rightarrow> string \<Rightarrow> string" where
  "path_join base name =
     (if starts_with ''/'' name then name
      else if base = [] then name
      else if last base = CHR ''/'' then base @ name
      else base @ ''/'' @ name)"

text \<open>The names a path walks through, without empty and current-directory steps.\<close>

definition path_parts :: "string \<Rightarrow> string list" where
  "path_parts p = filter (\<lambda>c. c \<noteq> [] \<and> c \<noteq> ''.'') (split_on CHR ''/'' p)"

lemma path_join_relative:
  "CHR ''/'' \<notin> set name \<Longrightarrow> path_join base name = (if base = [] then name
     else if last base = CHR ''/'' then base @ name else base @ ''/'' @ name)"
  by (cases name) (auto simp: path_join_def)

lemma split_on_app_sep: "split_on c (a @ c # b) = split_on c a @ split_on c b"
  by (induction a) (auto split: list.splits)

lemma path_parts_join:
  assumes "CHR ''/'' \<notin> set name"
  shows "path_parts (path_join base name) =
    path_parts base @ (if name = [] \<or> name = ''.'' then [] else [name])"
proof -
  have app: "path_parts (b @ CHR ''/'' # name) =
      path_parts b @ (if name = [] \<or> name = ''.'' then [] else [name])" for b
    using assms by (simp add: path_parts_def split_on_app_sep)
  show ?thesis
  proof (cases "base = []")
    case True
    then show ?thesis using assms by (simp add: path_join_relative path_parts_def)
  next
    case False
    show ?thesis
    proof (cases "last base = CHR ''/''")
      case True
      then obtain b where b: "base = b @ [CHR ''/'']"
        using False by (metis append_butlast_last_id)
      then have "path_parts base = path_parts b"
        by (simp add: path_parts_def split_on_app_sep)
      then show ?thesis using app [of b] b assms by (simp add: path_join_relative)
    next
      case neq: False
      then show ?thesis using app [of base] False assms by (simp add: path_join_relative)
    qed
  qed
qed

lemma path_join_inject:
  assumes "CHR ''/'' \<notin> set a" "CHR ''/'' \<notin> set b"
  shows "path_join d a = path_join d b \<longleftrightarrow> a = b"
  using assms by (auto simp: path_join_relative)

text \<open>\<open>Path::parent\<close>: separators and current-directory steps at the end do not count.\<close>

fun norm_tail :: "string \<Rightarrow> string" where
  "norm_tail (c # d # r) =
     (if c = CHR ''.'' \<and> d = CHR ''/'' then norm_tail (d # r)
      else if c = CHR ''/'' then norm_tail (d # r) else c # d # r)"
| "norm_tail r = r"

definition path_parent :: "string \<Rightarrow> string option" where
  "path_parent p =
     (let q = rev (norm_tail (rev p)) in
      if q = [] \<or> q = ''/'' then None
      else case rsplit_once CHR ''/'' q of
          None \<Rightarrow> Some []
        | Some (a, _) \<Rightarrow> Some (if a = [] then ''/'' else rev (norm_tail (rev a))))"

section \<open>The world and its primitives\<close>

type_synonym snapshot = "(string \<Rightarrow> string option) \<times> (string \<Rightarrow> bool)"

record world =
  files :: "string \<Rightarrow> string option"
  unsynced :: "string \<Rightarrow> bool"
  faults :: "string option list"
  hist :: "snapshot list"

definition no_files :: world where
  "no_files = \<lparr>files = (\<lambda>_. None), unsynced = (\<lambda>_. False), faults = [], hist = []\<rparr>"

type_synonym 'a io = "world \<Rightarrow> (string + 'a) \<times> world"

definition snap :: "world \<Rightarrow> snapshot" where
  "snap w = (files w, unsynced w)"

definition observed :: "world \<Rightarrow> world" where
  "observed w = w\<lparr>hist := hist w @ [snap w]\<rparr>"

definition io_return :: "'a \<Rightarrow> 'a io" where
  "io_return a w = (Inr a, w)"

definition io_fail :: "string \<Rightarrow> 'a io" where
  "io_fail e w = (Inl e, w)"

definition io_bind :: "'a io \<Rightarrow> ('a \<Rightarrow> 'b io) \<Rightarrow> 'b io" where
  "io_bind m f w = (case m w of (Inl e, w') \<Rightarrow> (Inl e, w') | (Inr a, w') \<Rightarrow> f a w')"

text \<open>\<open>let _ = m\<close>: the result is dropped, the effect stays.\<close>

definition io_ignore :: "'a io \<Rightarrow> unit io" where
  "io_ignore m w = (Inr (), snd (m w))"

text \<open>\<open>match m { Err(e) => h, Ok(a) => f }\<close>.\<close>

definition io_match :: "'a io \<Rightarrow> (string \<Rightarrow> 'b io) \<Rightarrow> ('a \<Rightarrow> 'b io) \<Rightarrow> 'b io" where
  "io_match m h f w = (case m w of (Inl e, w') \<Rightarrow> h e w' | (Inr a, w') \<Rightarrow> f a w')"

definition prim :: "(world \<Rightarrow> string + world) \<Rightarrow> unit io" where
  "prim eff w =
     (let w0 = w\<lparr>faults := tl (faults w)\<rparr> in
      case (case faults w of [] \<Rightarrow> None | x # _ \<Rightarrow> x) of
        Some e \<Rightarrow> (Inl e, observed w0)
      | None \<Rightarrow> (case eff w0 of Inl e \<Rightarrow> (Inl e, observed w0) | Inr w1 \<Rightarrow> (Inr (), observed w1)))"

definition create_dir_all :: "string \<Rightarrow> unit io" where
  "create_dir_all p = prim Inr"

definition create_file :: "string \<Rightarrow> unit io" where
  "create_file p = prim (\<lambda>w. Inr (w\<lparr>files := (files w)(p \<mapsto> []), unsynced := (unsynced w)(p := True)\<rparr>))"

definition append_byte :: "string \<Rightarrow> char \<Rightarrow> unit io" where
  "append_byte p b = prim (\<lambda>w. case files w p of
      None \<Rightarrow> Inl ''ENOENT''
    | Some s \<Rightarrow> Inr (w\<lparr>files := (files w)(p \<mapsto> s @ [b]), unsynced := (unsynced w)(p := True)\<rparr>))"

definition sync_file :: "string \<Rightarrow> unit io" where
  "sync_file p = prim (\<lambda>w. Inr (w\<lparr>unsynced := (unsynced w)(p := False)\<rparr>))"

definition sync_dir :: "string \<Rightarrow> unit io" where
  "sync_dir p = prim Inr"

definition rename_file :: "string \<Rightarrow> string \<Rightarrow> unit io" where
  "rename_file p q = prim (\<lambda>w. case files w p of
      None \<Rightarrow> Inl ''ENOENT''
    | Some s \<Rightarrow> Inr (if p = q then w
        else w\<lparr>files := (files w)(p := None, q \<mapsto> s),
               unsynced := (unsynced w)(p := False, q := unsynced w p)\<rparr>))"

definition remove_file :: "string \<Rightarrow> unit io" where
  "remove_file p = prim (\<lambda>w. case files w p of
      None \<Rightarrow> Inl ''ENOENT''
    | Some s \<Rightarrow> Inr (w\<lparr>files := (files w)(p := None), unsynced := (unsynced w)(p := False)\<rparr>))"

fun write_all :: "string \<Rightarrow> bytes \<Rightarrow> unit io" where
  "write_all p [] = io_return ()"
| "write_all p (b # bs) = io_bind (append_byte p b) (\<lambda>_. write_all p bs)"

text \<open>\<open>fs::write\<close>.\<close>

definition fs_write :: "string \<Rightarrow> bytes \<Rightarrow> unit io" where
  "fs_write p bs = io_bind (create_file p) (\<lambda>_. write_all p bs)"

section \<open>What a run lets an observer see\<close>

text \<open>\<open>shows_only P w w'\<close>: the run from \<open>w\<close> to \<open>w'\<close> added only snapshots that satisfy \<open>P\<close>.\<close>

definition shows_only :: "(snapshot \<Rightarrow> bool) \<Rightarrow> world \<Rightarrow> world \<Rightarrow> bool" where
  "shows_only P w w' = (\<exists>hs. hist w' = hist w @ hs \<and> (\<forall>h \<in> set hs. P h))"

lemma shows_only_refl [simp]: "shows_only P w w"
  by (simp add: shows_only_def)

lemma shows_only_trans: "shows_only P u v \<Longrightarrow> shows_only P v w \<Longrightarrow> shows_only P u w"
  by (force simp: shows_only_def)

lemma shows_only_mono: "shows_only P u v \<Longrightarrow> (\<And>h. P h \<Longrightarrow> Q h) \<Longrightarrow> shows_only Q u v"
  by (force simp: shows_only_def)

lemma shows_only_mem:
  "shows_only P u v \<Longrightarrow> h \<in> set (hist v) \<Longrightarrow> h \<in> set (hist u) \<or> P h"
  by (force simp: shows_only_def)

text \<open>The hidden path \<open>t\<close> aside, the snapshot agrees with the world \<open>w\<close> about \<open>q\<close>.\<close>

definition same_but :: "string \<Rightarrow> world \<Rightarrow> snapshot \<Rightarrow> bool" where
  "same_but t w h = (\<forall>q. q \<noteq> t \<longrightarrow> fst h q = files w q \<and> snd h q = unsynced w q)"

definition agree_but :: "string \<Rightarrow> world \<Rightarrow> world \<Rightarrow> bool" where
  "agree_but t w w' = same_but t w (snap w')"

lemma agree_but_refl [simp]: "agree_but t w w"
  by (simp add: agree_but_def same_but_def snap_def)

lemma agree_but_trans: "agree_but t u v \<Longrightarrow> agree_but t v w \<Longrightarrow> agree_but t u w"
  by (simp add: agree_but_def same_but_def snap_def)

lemma same_but_agree: "agree_but t u v \<Longrightarrow> same_but t v h \<Longrightarrow> same_but t u h"
  by (simp add: agree_but_def same_but_def snap_def)

section \<open>Runs confined to a hidden path\<close>

definition confined :: "string \<Rightarrow> 'a io \<Rightarrow> bool" where
  "confined t m = (\<forall>w r w'. m w = (r, w') \<longrightarrow> agree_but t w w' \<and> shows_only (same_but t w) w w')"

lemma confinedD:
  "confined t m \<Longrightarrow> m w = (r, w') \<Longrightarrow> agree_but t w w' \<and> shows_only (same_but t w) w w'"
  by (auto simp: confined_def)

lemma shows_only_confined:
  "confined t f \<Longrightarrow> f v = (r, w) \<Longrightarrow> agree_but t u v \<Longrightarrow> shows_only (same_but t u) u v \<Longrightarrow>
   agree_but t u w \<and> shows_only (same_but t u) u w"
proof -
  assume f: "confined t f" "f v = (r, w)" and uv: "agree_but t u v" "shows_only (same_but t u) u v"
  from confinedD [OF f] have vw: "agree_but t v w" "shows_only (same_but t v) v w" by auto
  have "shows_only (same_but t u) v w"
    by (rule shows_only_mono [OF vw(2)]) (rule same_but_agree [OF uv(1)])
  then show ?thesis using agree_but_trans [OF uv(1) vw(1)] shows_only_trans [OF uv(2)] by blast
qed

lemma confined_return [intro]: "confined t (io_return a)"
  by (simp add: confined_def io_return_def)

lemma confined_fail [intro]: "confined t (io_fail e)"
  by (simp add: confined_def io_fail_def)

lemma confined_match [intro]:
  assumes "confined t m" "\<And>e. confined t (h e)" "\<And>a. confined t (f a)"
  shows "confined t (io_match m h f)"
  unfolding confined_def
proof (intro allI impI)
  fix w r w' assume run: "io_match m h f w = (r, w')"
  obtain r1 w1 where m: "m w = (r1, w1)" by (cases "m w")
  from confinedD [OF assms(1) m] have "agree_but t w w1" "shows_only (same_but t w) w w1" by auto
  note before = this
  show "agree_but t w w' \<and> shows_only (same_but t w) w w'"
  proof (cases r1)
    case (Inl e)
    then have "h e w1 = (r, w')" using run m by (simp add: io_match_def)
    then show ?thesis by (rule shows_only_confined [OF assms(2) _ before])
  next
    case (Inr a)
    then have "f a w1 = (r, w')" using run m by (simp add: io_match_def)
    then show ?thesis by (rule shows_only_confined [OF assms(3) _ before])
  qed
qed

lemma io_bind_match: "io_bind m f = io_match m io_fail f"
  by (rule ext) (simp add: io_bind_def io_match_def io_fail_def split: prod.splits sum.splits)

lemma io_ignore_match: "io_ignore m = io_match m (\<lambda>_. io_return ()) (\<lambda>_. io_return ())"
  by (rule ext) (simp add: io_ignore_def io_match_def io_return_def split: prod.splits sum.splits)

lemma confined_bind [intro]: "confined t m \<Longrightarrow> (\<And>a. confined t (f a)) \<Longrightarrow> confined t (io_bind m f)"
  by (auto simp: io_bind_match)

lemma confined_ignore [intro]: "confined t m \<Longrightarrow> confined t (io_ignore m)"
  by (auto simp: io_ignore_match)

lemma confined_prim:
  assumes "\<And>w w'. eff w = Inr w' \<Longrightarrow> hist w' = hist w \<and> agree_but t w w'"
  shows "confined t (prim eff)"
  unfolding confined_def
proof (intro allI impI)
  fix w r w' assume run: "prim eff w = (r, w')"
  let ?w0 = "w\<lparr>faults := tl (faults w)\<rparr>"
  have w0: "agree_but t w (observed ?w0)" "shows_only (same_but t w) w (observed ?w0)"
    by (simp_all add: observed_def agree_but_def same_but_def snap_def shows_only_def)
  have w1: "agree_but t w (observed v) \<and> shows_only (same_but t w) w (observed v)"
    if "eff ?w0 = Inr v" for v
    using assms [OF that]
    by (simp add: observed_def agree_but_def same_but_def snap_def shows_only_def)
  show "agree_but t w w' \<and> shows_only (same_but t w) w w'"
    using run w0 w1 by (auto simp: prim_def Let_def split: option.splits sum.splits)
qed

lemma confined_prims [intro]:
  "confined t (create_dir_all p)" "confined t (create_file t)" "confined t (append_byte t b)"
  "confined t (sync_file t)" "confined t (sync_dir p)" "confined t (remove_file t)"
  unfolding create_dir_all_def create_file_def append_byte_def sync_file_def sync_dir_def
    remove_file_def
  by (rule confined_prim, auto simp: agree_but_def same_but_def snap_def split: option.splits)+

lemma confined_write_all [intro]: "confined t (write_all t bs)"
  by (induction bs) (auto simp del: io_bind_def)

lemma confined_fs_write [intro]: "confined t (fs_write t bs)"
  by (auto simp: fs_write_def)

lemma io_bind_Inr:
  "io_bind m f w = (Inr b, w') \<longleftrightarrow> (\<exists>a w1. m w = (Inr a, w1) \<and> f a w1 = (Inr b, w'))"
  by (auto simp: io_bind_def split: prod.splits sum.splits)

lemma create_file_Inr: "create_file p w = (Inr (), w') \<Longrightarrow> files w' p = Some []"
  by (auto simp: create_file_def prim_def Let_def observed_def split: option.splits)

lemma append_byte_Inr:
  "append_byte p b w = (Inr (), w') \<Longrightarrow> files w p = Some s \<Longrightarrow> files w' p = Some (s @ [b])"
  by (auto simp: append_byte_def prim_def Let_def observed_def split: option.splits sum.splits)

lemma write_all_Inr:
  "write_all p bs w = (Inr (), w') \<Longrightarrow> files w p = Some s \<Longrightarrow> files w' p = Some (s @ bs)"
proof (induction bs arbitrary: w s)
  case Nil
  then show ?case by (simp add: io_return_def)
next
  case (Cons b bs)
  then obtain w1 where "append_byte p b w = (Inr (), w1)" "write_all p bs w1 = (Inr (), w')"
    by (auto simp: io_bind_Inr)
  then show ?case using Cons.IH Cons.prems(2) append_byte_Inr by fastforce
qed

lemma fs_write_Inr: "fs_write p bs w = (Inr (), w') \<Longrightarrow> files w' p = Some bs"
  using create_file_Inr write_all_Inr by (fastforce simp: fs_write_def io_bind_Inr)

lemma sync_file_Inr:
  "sync_file p w = (Inr (), w') \<Longrightarrow> files w' = files w \<and> \<not> unsynced w' p"
  by (auto simp: sync_file_def prim_def Let_def observed_def split: option.splits)

section \<open>The contract of a publishing routine\<close>

text \<open>\<open>complete d t q bs w h\<close>: the snapshot \<open>h\<close> shows exactly \<open>bs\<close> under the final name \<open>q\<close> and, the
  temporary name \<open>t\<close> aside, is otherwise the world \<open>w\<close>; when \<open>d\<close> is set the content is on disk.\<close>

definition complete :: "bool \<Rightarrow> string \<Rightarrow> string \<Rightarrow> bytes \<Rightarrow> world \<Rightarrow> snapshot \<Rightarrow> bool" where
  "complete d t q bs w h = (fst h q = Some bs \<and> (d \<longrightarrow> \<not> snd h q) \<and>
     (\<forall>p. p \<noteq> t \<longrightarrow> p \<noteq> q \<longrightarrow> fst h p = files w p \<and> snd h p = unsynced w p))"

definition publishes :: "bool \<Rightarrow> string \<Rightarrow> string \<Rightarrow> bytes \<Rightarrow> 'a io \<Rightarrow> bool" where
  "publishes d t q bs m = (\<forall>w r w'. m w = (r, w') \<longrightarrow>
     (let seen = (\<lambda>h. same_but t w h \<or> complete d t q bs w h) in
      shows_only seen w w' \<and> seen (snap w') \<and> (is_ok r \<longrightarrow> complete d t q bs w (snap w'))))"

lemma rename_file_cases:
  assumes "rename_file t q w = (r, w')" "t \<noteq> q"
  shows "(\<exists>e. r = Inl e \<and> agree_but t w w' \<and> shows_only (same_but t w) w w') \<or>
    (\<exists>s. r = Inr () \<and> files w t = Some s \<and> files w' q = Some s \<and> unsynced w' q = unsynced w t \<and>
       (\<forall>p. p \<noteq> t \<longrightarrow> p \<noteq> q \<longrightarrow> files w' p = files w p \<and> unsynced w' p = unsynced w p) \<and>
       shows_only (\<lambda>h. h = snap w') w w')"
  using assms
  by (auto simp: rename_file_def prim_def Let_def observed_def agree_but_def same_but_def snap_def
      shows_only_def split: option.splits sum.splits)

lemma complete_agree: "complete d t q bs u (snap v) \<Longrightarrow> t \<noteq> q \<Longrightarrow> same_but t v h \<Longrightarrow> complete d t q bs u h"
  by (simp add: complete_def same_but_def snap_def)

lemma publishes_rename:
  assumes pre: "confined t pre" "\<And>w w'. pre w = (Inr (), w') \<Longrightarrow> files w' t = Some bs \<and> (d \<longrightarrow> \<not> unsynced w' t)"
    and tq: "t \<noteq> q"
    and onerr: "\<And>e. confined t (on_err e :: 'a io)" "\<And>e w. \<not> is_ok (fst (on_err e w))"
    and post: "confined t post"
  shows "publishes d t q bs (io_bind pre (\<lambda>_. io_match (rename_file t q) on_err (\<lambda>_. post)))"
  unfolding publishes_def Let_def
proof (intro allI impI)
  fix w w' and r :: "string + 'a"
  let ?seen = "\<lambda>h. same_but t w h \<or> complete d t q bs w h"
  let ?goal = "shows_only ?seen w w' \<and> ?seen (snap w') \<and> (is_ok r \<longrightarrow> complete d t q bs w (snap w'))"
  assume run: "io_bind pre (\<lambda>_. io_match (rename_file t q) on_err (\<lambda>_. post)) w = (r, w')"
  obtain r1 w1 where m1: "pre w = (r1, w1)" by (cases "pre w")
  from confinedD [OF pre(1) m1] have a1: "agree_but t w w1" and s1: "shows_only ?seen w w1"
    by (auto elim: shows_only_mono)
  show ?goal
  proof (cases r1)
    case (Inl e)
    then show ?thesis using run m1 a1 s1 by (auto simp: io_bind_def agree_but_def)
  next
    case (Inr u)
    with m1 pre(2) have bs: "files w1 t = Some bs" "d \<longrightarrow> \<not> unsynced w1 t" by auto
    obtain r2 w2 where m2: "rename_file t q w1 = (r2, w2)" by (cases "rename_file t q w1")
    from rename_file_cases [OF m2 tq] show ?thesis
    proof (elim disjE exE conjE)
      fix e assume e: "r2 = Inl e" "agree_but t w1 w2" "shows_only (same_but t w1) w1 w2"
      then have tail: "on_err e w2 = (r, w')"
        using run m1 Inr m2 by (simp add: io_bind_def io_match_def)
      have "agree_but t w w2" "shows_only (same_but t w) w1 w2"
        using e(2,3) a1 same_but_agree [OF a1] by (auto intro: agree_but_trans shows_only_mono)
      moreover have "\<not> is_ok r" using onerr(2) [of e w2] tail by simp
      moreover from confinedD [OF onerr(1) tail] have "agree_but t w2 w'"
        "shows_only (same_but t w2) w2 w'" by auto
      ultimately have "agree_but t w w'" "shows_only (same_but t w) w1 w'" "\<not> is_ok r"
        using same_but_agree [of t w w2] agree_but_trans shows_only_trans
        by (blast intro: shows_only_mono)+
      then show ?thesis
        using s1 by (auto simp: agree_but_def intro: shows_only_trans elim: shows_only_mono)
    next
      fix s assume s: "r2 = Inr ()" "files w1 t = Some s" "files w2 q = Some s"
        "unsynced w2 q = unsynced w1 t" "shows_only (\<lambda>h. h = snap w2) w1 w2"
        "\<forall>p. p \<noteq> t \<longrightarrow> p \<noteq> q \<longrightarrow> files w2 p = files w1 p \<and> unsynced w2 p = unsynced w1 p"
      have c: "complete d t q bs w (snap w2)"
        using s bs a1 by (auto simp: complete_def snap_def agree_but_def same_but_def)
      have tail: "post w2 = (r, w')"
        using s(1) run m1 Inr m2 by (simp add: io_bind_def io_match_def)
      note p = confinedD [OF post tail]
      have "complete d t q bs w (snap w')"
        using p by (intro complete_agree [OF c tq]) (simp add: agree_but_def)
      moreover have "shows_only ?seen w1 w2"
        using s(5) c by (auto elim!: shows_only_mono)
      moreover have "shows_only ?seen w2 w'"
        using p complete_agree [OF c tq] by (auto elim!: shows_only_mono)
      ultimately show ?thesis using s1 by (blast intro: shows_only_trans)
    qed
  qed
qed

lemma io_bind_assoc: "io_bind (io_bind m f) g = io_bind m (\<lambda>a. io_bind (f a) g)"
  by (rule ext) (simp add: io_bind_def split: prod.splits sum.splits)

lemma publishes_plain:
  assumes "confined t pre" "\<And>w w'. pre w = (Inr (), w') \<Longrightarrow> files w' t = Some bs \<and> (d \<longrightarrow> \<not> unsynced w' t)"
    and "t \<noteq> q" and "confined t post"
  shows "publishes d t q bs (io_bind pre (\<lambda>_. io_bind (rename_file t q) (\<lambda>_. post)))"
  unfolding io_bind_match [of "rename_file t q"]
  apply (rule publishes_rename)
  subgoal by (rule assms(1))
  subgoal by (rule assms(2))
  subgoal by (rule assms(3))
  subgoal by (rule confined_fail)
  subgoal by (simp add: io_fail_def)
  subgoal by (rule assms(4))
  done

lemma publishes_before:
  assumes "confined t m" "\<And>a. publishes d t q bs (f a)" "t \<noteq> q"
  shows "publishes d t q bs (io_bind m f)"
  unfolding publishes_def Let_def
proof (intro allI impI)
  fix w r w'
  let ?seen = "\<lambda>w h. same_but t w h \<or> complete d t q bs w h"
  assume run: "io_bind m f w = (r, w')"
  obtain r1 w1 where m1: "m w = (r1, w1)" by (cases "m w")
  from confinedD [OF assms(1) m1] have a1: "agree_but t w w1" and s1: "shows_only (?seen w) w w1"
    by (auto elim: shows_only_mono)
  have comp: "complete d t q bs w1 h \<Longrightarrow> complete d t q bs w h" for h
    using a1 by (simp add: agree_but_def same_but_def complete_def snap_def)
  have seen: "?seen w1 h \<Longrightarrow> ?seen w h" for h
    using same_but_agree [OF a1] comp by blast
  show "shows_only (?seen w) w w' \<and> ?seen w (snap w') \<and> (is_ok r \<longrightarrow> complete d t q bs w (snap w'))"
  proof (cases r1)
    case (Inl e)
    then have "w' = w1" "\<not> is_ok r" using run m1 by (auto simp: io_bind_def)
    then show ?thesis using a1 s1 by (simp add: agree_but_def)
  next
    case (Inr a)
    then have "f a w1 = (r, w')" using run m1 by (simp add: io_bind_def)
    with assms(2) [of a] have "shows_only (?seen w1) w1 w' \<and> ?seen w1 (snap w') \<and>
      (is_ok r \<longrightarrow> complete d t q bs w1 (snap w'))"
      unfolding publishes_def Let_def by blast
    then have fin: "shows_only (?seen w1) w1 w'" "?seen w1 (snap w')"
      "is_ok r \<longrightarrow> complete d t q bs w1 (snap w')" by blast+
    have "shows_only (?seen w) w1 w'"
      by (rule shows_only_mono [OF fin(1)]) (rule seen)
    from shows_only_trans [OF s1 this] show ?thesis
      using seen [OF fin(2)] comp fin(3) by blast
  qed
qed

section \<open>The interface of the publishing routines\<close>

text \<open>A run of several publications one after the other, whatever each returns.\<close>

fun run_puts :: "('n \<Rightarrow> bytes \<Rightarrow> 'a io) \<Rightarrow> ('n \<times> bytes) list \<Rightarrow> world \<Rightarrow> world" where
  "run_puts put [] w = w"
| "run_puts put ((n, b) # js) w = run_puts put js (snd (put n b w))"

text \<open>What a machine that lost power may hold under one name after the snapshot \<open>h\<close>: unsynced content
  may be cut anywhere.\<close>

definition after_crash :: "snapshot \<Rightarrow> string \<Rightarrow> string option \<Rightarrow> bool" where
  "after_crash h q c = (c = fst h q \<or>
     (snd h q \<and> (c = None \<or> (\<exists>s. fst h q = Some s \<and> c \<in> Some ` set (map (\<lambda>k. take k s) [0 ..< Suc (length s)])))))"

locale atomic_publish =
  fixes put :: "'n \<Rightarrow> bytes \<Rightarrow> 'a io"
    and tmp :: "'n \<Rightarrow> string" and dst :: "'n \<Rightarrow> string"
    and durable :: bool and admissible :: "'n \<Rightarrow> bool"
  assumes put_publishes: "admissible n \<Longrightarrow> publishes durable (tmp n) (dst n) b (put n b)"
    and tmp_dst: "admissible n \<Longrightarrow> tmp n \<noteq> dst n"
begin

lemma put_whole:
  assumes "admissible n" "put n b w = (r, w')" "h \<in> set (hist w')" "h \<notin> set (hist w)"
  shows "fst h (dst n) = files w (dst n) \<or> fst h (dst n) = Some b"
proof -
  have "shows_only (\<lambda>h. same_but (tmp n) w h \<or> complete durable (tmp n) (dst n) b w h) w w'"
    using put_publishes [OF assms(1)] assms(2) unfolding publishes_def Let_def by blast
  with shows_only_mem assms(3,4)
  have "same_but (tmp n) w h \<or> complete durable (tmp n) (dst n) b w h" by fastforce
  then show ?thesis using tmp_dst [OF assms(1)] by (auto simp: same_but_def complete_def)
qed

lemma put_done:
  assumes "admissible n" "put n b w = (Inr a, w')"
  shows "files w' (dst n) = Some b"
  using put_publishes [OF assms(1)] assms(2)
  by (fastforce simp: publishes_def Let_def complete_def snap_def)

lemma put_power_loss:
  assumes "admissible n" "durable" "put n b w = (r, w')" "h \<in> set (hist w')" "h \<notin> set (hist w)"
    and "\<not> unsynced w (dst n)" and "after_crash h (dst n) c"
  shows "c = files w (dst n) \<or> c = Some b"
proof -
  have "shows_only (\<lambda>h. same_but (tmp n) w h \<or> complete durable (tmp n) (dst n) b w h) w w'"
    using put_publishes [OF assms(1)] assms(3) unfolding publishes_def Let_def by blast
  with shows_only_mem assms(4,5)
  have "same_but (tmp n) w h \<or> complete durable (tmp n) (dst n) b w h" by fastforce
  then show ?thesis using tmp_dst [OF assms(1)] assms(2,6,7)
    by (auto simp: same_but_def complete_def after_crash_def)
qed

lemma put_frame:
  assumes "admissible n" "put n b w = (r, w')" "q \<noteq> tmp n" "q \<noteq> dst n"
  shows "files w' q = files w q"
  using put_publishes [OF assms(1)] assms(2-4)
  by (fastforce simp: publishes_def Let_def complete_def same_but_def snap_def)

text \<open>Over any run, a name that is not a temporary one never shows anything but what it held
  before the run or one of the contents published under it.\<close>

lemma run_never_torn:
  assumes "\<And>n b. (n, b) \<in> set js \<Longrightarrow> admissible n \<and> q \<noteq> tmp n"
    and "h \<in> set (hist (run_puts put js w))" "h \<notin> set (hist w)"
  shows "fst h q = files w q \<or> (\<exists>(n, b) \<in> set js. dst n = q \<and> fst h q = Some b)"
  using assms
proof (induction js arbitrary: w)
  case Nil
  then show ?case by simp
next
  case (Cons j js)
  obtain n b where j: "j = (n, b)" by (cases j)
  obtain r w1 where run: "put n b w = (r, w1)" by (cases "put n b w")
  have adm: "admissible n" "q \<noteq> tmp n" using Cons.prems(1) j by auto
  let ?seen = "\<lambda>h. same_but (tmp n) w h \<or> complete durable (tmp n) (dst n) b w h"
  have seen: "shows_only ?seen w w1 \<and> ?seen (snap w1)"
    using put_publishes [OF adm(1)] run unfolding publishes_def Let_def by blast
  have at_q: "?seen g \<Longrightarrow> fst g q = files w q \<or> (dst n = q \<and> fst g q = Some b)" for g
    using adm(2) by (auto simp: same_but_def complete_def)
  have w1: "files w1 q = files w q \<or> (dst n = q \<and> files w1 q = Some b)"
    using at_q [of "snap w1"] seen by (simp add: snap_def)
  show ?case
  proof (cases "h \<in> set (hist w1)")
    case True
    then have "?seen h" using seen Cons.prems(3) shows_only_mem by blast
    from at_q [OF this] show ?thesis using j by auto
  next
    case False
    have "fst h q = files w1 q \<or> (\<exists>(n, b) \<in> set js. dst n = q \<and> fst h q = Some b)"
      by (rule Cons.IH) (use Cons.prems False j run in auto)
    then show ?thesis using w1 j by auto
  qed
qed

end

end
