(* ===== verification/Errors.thy ===== *)
theory Errors
  imports TextOps
begin

text \<open>
  \<open>antie/src/error.rs\<close> and \<open>antie/src/error_response.rs\<close>: the error type of every antie module, its text,
  and its conversion to the structured response.  \<open>ErrorResponse\<close> belongs to another crate
  (\<open>axiom_errors\<close>); the record below has the fields the sources read and one opaque field for the rest
  (recovery hint, error stack), empty in a response built by \<open>ErrorResponse::new\<close>.
\<close>

datatype error_category = Operational | ClientBug | Internal | ProtocolReject

record error_response =
  er_code :: string
  er_category :: error_category
  er_message :: string
  er_other :: string

datatype antie_error =
    MaildirError string
  | EmailParseError string
  | InvalidPayload string
  | CoreError string
  | ValidationFailed string
  | LambdaError string
  | IoError string
  | ConfigError string
  | SerializationError string
  | CoreTTLExpired string
  | RateLimited string
  | WalletBanned string
  | LambdaRejected error_response

type_synonym 'a res = "antie_error + 'a"

fun display_error :: "antie_error \<Rightarrow> string" where
  "display_error (MaildirError s) = ''Maildir error: '' @ s"
| "display_error (EmailParseError s) = ''Email parse error: '' @ s"
| "display_error (InvalidPayload s) = ''Invalid payload: '' @ s"
| "display_error (CoreError s) = ''Core error: '' @ s"
| "display_error (ValidationFailed s) = ''Validation failed: '' @ s"
| "display_error (LambdaError s) = ''Lambda error: '' @ s"
| "display_error (LambdaRejected er) = ''Lambda error: '' @ er_message er"
| "display_error (IoError e) = ''IO error: '' @ e"
| "display_error (ConfigError s) = ''Config error: '' @ s"
| "display_error (SerializationError s) = ''Serialization error: '' @ s"
| "display_error (CoreTTLExpired s) = ''Core TTL expired: '' @ s"
| "display_error (RateLimited s) = s"
| "display_error (WalletBanned s) = s"

text \<open>The codes are named by the constants of \<open>axiom_errors::error_code\<close>, whose text is their name.\<close>

definition new_response :: "string \<Rightarrow> error_category \<Rightarrow> string \<Rightarrow> error_response" where
  "new_response c k m = \<lparr>er_code = c, er_category = k, er_message = m, er_other = []\<rparr>"

fun error_response_of :: "antie_error \<Rightarrow> error_response" where
  "error_response_of (MaildirError s) =
     new_response ''E_ANTIE_MAILDIR_ERROR'' Operational (''Maildir error: '' @ s)"
| "error_response_of (EmailParseError s) =
     new_response ''E_ANTIE_EMAIL_PARSE_ERROR'' ClientBug (''Email parse error: '' @ s)"
| "error_response_of (InvalidPayload s) =
     new_response ''E_ANTIE_INVALID_PAYLOAD'' ClientBug (''Invalid payload: '' @ s)"
| "error_response_of (CoreError s) =
     new_response ''E_ANTIE_CORE_ERROR'' Internal (''Core IPC error: '' @ s)"
| "error_response_of (ValidationFailed s) =
     new_response ''E_ANTIE_VALIDATION_FAILED'' ProtocolReject (''Validation failed: '' @ s)"
| "error_response_of (LambdaError s) =
     new_response ''E_ANTIE_LAMBDA_ERROR'' Operational (''Lambda communication error: '' @ s)"
| "error_response_of (IoError e) =
     new_response ''E_ANTIE_IO_ERROR'' Internal (''IO error: '' @ e)"
| "error_response_of (ConfigError s) =
     new_response ''E_ANTIE_CONFIG_ERROR'' Internal (''Config error: '' @ s)"
| "error_response_of (SerializationError s) =
     new_response ''E_ANTIE_SERIALIZATION'' ClientBug (''Serialization error: '' @ s)"
| "error_response_of (CoreTTLExpired s) =
     new_response ''E_ANTIE_CORE_TTL_EXPIRED'' Operational (''Core TTL expired: '' @ s)"
| "error_response_of (RateLimited s) = new_response ''E_ANTIE_RATE_LIMITED'' Operational s"
| "error_response_of (WalletBanned s) = new_response ''E_ANTIE_WALLET_BANNED'' ProtocolReject s"
| "error_response_of (LambdaRejected er) = er"

lemma new_response_simps [simp]:
  "er_code (new_response c k m) = c" "er_category (new_response c k m) = k"
  "er_message (new_response c k m) = m" "er_other (new_response c k m) = []"
  by (simp_all add: new_response_def)

end
