(* ===== verification/Config.thy ===== *)
theory Config
  imports FileSys Errors Complex_Main
begin

text \<open>
  The configuration of antie (\<open>antie/src/config.rs\<close>) and of its inbound carriers (the first part of
  \<open>antie/src/carrier.rs\<close>): the records, their defaults and the generated examples, the outbound routing
  table, the checks made when a configuration is loaded, and the merge of the mail secrets.  The TOML
  reader is an argument.
\<close>

section \<open>Inbound carriers\<close>

record maildir_config =
  mc_inbox :: string
  mc_outbox :: string

record imap_config =
  im_enabled :: bool
  im_server :: string
  im_port :: nat
  im_username :: string
  im_password :: string
  im_use_tls :: bool
  im_inbox_folder :: string
  im_use_idle :: bool

record pop3_config =
  pp_enabled :: bool
  pp_server :: string
  pp_port :: nat
  pp_username :: string
  pp_password :: string
  pp_use_tls :: bool
  pp_spam_entropy_threshold :: "real option"

record carriers_config =
  cc_maildir :: "maildir_config option"
  cc_imap :: "imap_config list"
  cc_pop3 :: "pop3_config list"
  cc_advertise :: "string list"

definition host_is_loopback :: "string \<Rightarrow> bool" where
  "host_is_loopback host = (host = ''localhost'' \<or> ip_is_loopback host)"

definition max_inbound_accounts :: nat where
  "max_inbound_accounts = 5"

definition validate_inbound_count :: "carriers_config \<Rightarrow> unit res" where
  "validate_inbound_count c =
     (let n = length (cc_imap c) + length (cc_pop3 c) in
      if max_inbound_accounts < n then
        Inl (ConfigError (dec n @ '' inbound accounts configured; the maximum is '' @
          dec max_inbound_accounts @ ''. ANTIE will not start''))
      else Inr ())"

definition has_network_pull :: "carriers_config \<Rightarrow> bool" where
  "has_network_pull c = (cc_imap c \<noteq> [] \<or> cc_pop3 c \<noteq> [])"

text \<open>The loop over the IMAP accounts stops at the first cleartext login to another host.\<close>

fun validate_imap :: "imap_config list \<Rightarrow> unit res" where
  "validate_imap [] = Inr ()"
| "validate_imap (imap # rest) =
     (if \<not> im_use_tls imap \<and> \<not> host_is_loopback (im_server imap) then
        Inl (ConfigError (''IMAP to '' @ im_server imap @
          '' with use_tls = false: LOGIN would send the mailbox password in cleartext to a non-loopback host. Enable TLS.''))
      else validate_imap rest)"

definition validate_carriers :: "carriers_config \<Rightarrow> unit res" where
  "validate_carriers c =
     (if \<not> (cc_maildir c \<noteq> None \<or> has_network_pull c) then
        Inl (ConfigError ''at least one email carrier (maildir, imap, or pop3) must be configured'')
      else if has_network_pull c \<and> cc_maildir c = None then
        Inl (ConfigError ''pop3/imap carriers deliver into [carriers.maildir] inbox/new/'')
      else validate_imap (cc_imap c))"

definition any_enabled :: "carriers_config \<Rightarrow> bool" where
  "any_enabled c = (cc_maildir c \<noteq> None \<or> has_network_pull c)"

definition to_uri_list :: "carriers_config \<Rightarrow> string \<Rightarrow> string list" where
  "to_uri_list c identity_email =
     (if cc_maildir c \<noteq> None \<or> has_network_pull c then [''email:'' @ identity_email] else []) @
     cc_advertise c"

definition no_carriers :: carriers_config where
  "no_carriers = \<lparr>cc_maildir = None, cc_imap = [], cc_pop3 = [], cc_advertise = []\<rparr>"

section \<open>Outbound\<close>

record smtp_outbound =
  so_server :: string
  so_port :: nat
  so_username :: "string option"
  so_password :: "string option"
  so_use_tls :: bool
  so_from :: string

record outbound_route =
  rt_domain :: string
  rt_outbox :: string

record custody_route =
  cr_header :: string
  cr_outbox :: string
  cr_suppress_email :: bool

record outbound_config =
  ob_route :: "outbound_route list"
  ob_local :: "smtp_outbound option"
  ob_external :: "smtp_outbound option"
  ob_uncle :: "string option"
  ob_custody :: "custody_route list"

definition default_outbound :: outbound_config where
  "default_outbound = \<lparr>ob_route = [], ob_local = None, ob_external = None, ob_uncle = None, ob_custody = []\<rparr>"

text \<open>\<open>recipient.split('/').next()\<close>: the text before the first separator.\<close>

definition before_slash :: "string \<Rightarrow> string" where
  "before_slash s = hd (split_on CHR ''/'' s)"

text \<open>The domain the table is asked for: the inner domain of a dual-@ address.\<close>

definition route_domain :: "string \<Rightarrow> string option" where
  "route_domain recipient =
     (let addressed = before_slash recipient;
          inner = (case rsplit_once CHR ''@'' addressed of Some (a, _) \<Rightarrow> a | None \<Rightarrow> addressed);
          route_on = (if contains_str ''@'' inner then inner else addressed) in
      case rsplit_once CHR ''@'' route_on of
        Some (_, d) \<Rightarrow> Some (ascii_lower (before_slash d))
      | None \<Rightarrow> None)"

definition outbox_for :: "outbound_config \<Rightarrow> string \<Rightarrow> string + string option" where
  "outbox_for ob recipient =
     (if ob_route ob = [] then Inr None
      else case route_domain recipient of
          None \<Rightarrow> Inl (''outbound: recipient '' @ debug_str recipient @ '' has no '' @ [CHR 0x27] @ ''@'' @ [CHR 0x27])
        | Some domain \<Rightarrow>
            (case find (\<lambda>r. eq_ignore_case (rt_domain r) domain) (ob_route ob) of
               Some r \<Rightarrow> Inr (Some (rt_outbox r))
             | None \<Rightarrow> Inl (''outbound: no route for domain '' @ debug_str domain)))"

section \<open>The whole configuration\<close>

datatype on_stall = NotifyOnly | NotifyAndRestart

record performance_config =
  pf_busy_threshold_ms :: nat
  pf_lambda_stats_poll_ms :: nat
  pf_lambda_admin_port :: "nat option"
  pf_lambda_admin_token :: "string option"

definition default_performance :: performance_config where
  "default_performance = \<lparr>pf_busy_threshold_ms = 15000, pf_lambda_stats_poll_ms = 2000,
     pf_lambda_admin_port = None, pf_lambda_admin_token = None\<rparr>"

record validator_config =
  vc_public_key_hex :: string
  vc_dilithium_pk_hex :: string
  vc_vbc_path :: "string option"
  vc_private_key_path :: "string option"

definition default_validator :: validator_config where
  "default_validator = \<lparr>vc_public_key_hex = [], vc_dilithium_pk_hex = [], vc_vbc_path = None,
     vc_private_key_path = None\<rparr>"

record core_config =
  co_core_bin_path :: "string option"
  co_avm_elf_path :: "string option"
  co_use_embedded_avm :: bool

definition default_core :: core_config where
  "default_core = \<lparr>co_core_bin_path = None, co_avm_elf_path = None, co_use_embedded_avm = True\<rparr>"

datatype lambda_config =
    LcTcp (lc_address: string) (lc_timeout_secs: nat) (lc_tls_server_name: "string option")
      (lc_tls_ca_cert_path: "string option")
  | LcSubprocess (lc_binary_path: string) (lc_config_path: string)

definition default_lambda :: lambda_config where
  "default_lambda = LcSubprocess ''./axiom-lambda/target/release/lambda'' ''./config/lambda-config.toml''"

record antie_config =
  ac_carriers :: carriers_config
  ac_outbound :: outbound_config
  ac_core :: core_config
  ac_lambda :: lambda_config
  ac_validator :: validator_config
  ac_identity_email :: string
  ac_identity_name :: string
  ac_log_level :: string
  ac_poll_interval_ms :: nat
  ac_health_port :: nat
  ac_health_token :: "string option"
  ac_on_stall :: on_stall
  ac_pickup_dir :: "string option"
  ac_performance :: performance_config
  ac_wallet_witness_cooldown_ms :: "nat option"
  ac_nabla_ban_list_path :: "string option"
  ac_skip_list_path :: "string option"
  ac_skipped_dir_path :: "string option"

definition default_config :: antie_config where
  "default_config =
     \<lparr>ac_carriers = no_carriers\<lparr>cc_maildir := Some \<lparr>mc_inbox = ''./maildir/inbox'', mc_outbox = ''./maildir/outbox''\<rparr>\<rparr>,
      ac_outbound = default_outbound,
      ac_core = default_core,
      ac_lambda = default_lambda,
      ac_validator = default_validator,
      ac_identity_email = ''validator@axiom.local'',
      ac_identity_name = ''AXIOM Validator'',
      ac_log_level = ''info'',
      ac_poll_interval_ms = 2000,
      ac_health_port = 7779,
      ac_health_token = None,
      ac_on_stall = NotifyOnly,
      ac_pickup_dir = None,
      ac_performance = default_performance,
      ac_wallet_witness_cooldown_ms = None,
      ac_nabla_ban_list_path = None,
      ac_skip_list_path = None,
      ac_skipped_dir_path = None\<rparr>"

definition has_key :: "validator_config \<Rightarrow> bool" where
  "has_key v = (length (vc_public_key_hex v) = 64)"

definition public_key_bytes :: "validator_config \<Rightarrow> bytes option" where
  "public_key_bytes v = (if \<not> has_key v then None else hex_decode (vc_public_key_hex v))"

definition dilithium_pk_bytes :: "validator_config \<Rightarrow> bytes option" where
  "dilithium_pk_bytes v =
     (if vc_dilithium_pk_hex v = [] then None else hex_decode (vc_dilithium_pk_hex v))"

text \<open>The certificate: \<open>decode\<close> is the CBOR reader and \<open>verify\<close> the structural check of the core crate.\<close>

definition load_vbc ::
  "(string \<Rightarrow> string + bytes) \<Rightarrow> (bytes \<Rightarrow> string + 'b) \<Rightarrow> ('b \<Rightarrow> bool) \<Rightarrow> validator_config \<Rightarrow> 'b option" where
  "load_vbc read decode verify v =
     (case vc_vbc_path v of
        None \<Rightarrow> None
      | Some path \<Rightarrow>
          (case read path of
             Inl _ \<Rightarrow> None
           | Inr b \<Rightarrow>
               (case decode b of
                  Inl _ \<Rightarrow> None
                | Inr bundle \<Rightarrow> if verify bundle then Some bundle else None)))"

section \<open>The generated examples\<close>

definition imap_example :: antie_config where
  "imap_example = default_config\<lparr>
     ac_carriers := no_carriers\<lparr>
       cc_maildir := Some \<lparr>mc_inbox = ''./maildir/inbox'', mc_outbox = ''./maildir/outbox''\<rparr>,
       cc_imap := [\<lparr>im_enabled = True, im_server = ''imap.example.com'', im_port = 993,
         im_username = ''validator@example.com'', im_password = ''your-password'', im_use_tls = True,
         im_inbox_folder = ''INBOX'', im_use_idle = True\<rparr>]\<rparr>,
     ac_outbound := default_outbound\<lparr>
       ob_local := Some \<lparr>so_server = ''smtp.example.com'', so_port = 587,
         so_username = Some ''validator@example.com'', so_password = Some ''your-password'',
         so_use_tls = True, so_from = ''validator@example.com''\<rparr>\<rparr>\<rparr>"

definition pop3_example :: antie_config where
  "pop3_example = default_config\<lparr>
     ac_carriers := no_carriers\<lparr>
       cc_maildir := Some \<lparr>mc_inbox = ''./maildir/inbox'', mc_outbox = ''./maildir/outbox''\<rparr>,
       cc_pop3 := [\<lparr>pp_enabled = True, pp_server = ''pop.example.com'', pp_port = 995,
         pp_username = ''validator@example.com'', pp_password = ''your-password'', pp_use_tls = True,
         pp_spam_entropy_threshold = None\<rparr>]\<rparr>,
     ac_outbound := default_outbound\<lparr>
       ob_local := Some \<lparr>so_server = ''smtp.example.com'', so_port = 587,
         so_username = Some ''validator@example.com'', so_password = Some ''your-password'',
         so_use_tls = True, so_from = ''validator@example.com''\<rparr>\<rparr>\<rparr>"

definition advertise_example :: antie_config where
  "advertise_example = default_config\<lparr>
     ac_carriers := no_carriers\<lparr>
       cc_maildir := Some \<lparr>mc_inbox = ''/var/mail/axiom/inbox'', mc_outbox = ''/var/mail/axiom/outbox''\<rparr>,
       cc_advertise := [''fatmama:fatmama.example.com:2525'', ''tot:tot.example.com:7400'']\<rparr>\<rparr>"

definition all_carriers_example :: antie_config where
  "all_carriers_example = default_config\<lparr>
     ac_carriers := \<lparr>
       cc_maildir = Some \<lparr>mc_inbox = ''/var/mail/axiom/inbox'', mc_outbox = ''/var/mail/axiom/outbox''\<rparr>,
       cc_imap = [\<lparr>im_enabled = True, im_server = ''imap.example.com'', im_port = 993,
         im_username = ''node@example.com'', im_password = ''secret'', im_use_tls = True,
         im_inbox_folder = ''INBOX'', im_use_idle = True\<rparr>],
       cc_pop3 = [\<lparr>pp_enabled = True, pp_server = ''pop.example.com'', pp_port = 995,
         pp_username = ''node@example.com'', pp_password = ''secret'', pp_use_tls = True,
         pp_spam_entropy_threshold = None\<rparr>],
       cc_advertise = [''fatmama:fatmama.example.com:2525'', ''tot:axiom-dev.mooo.com:7400'']\<rparr>,
     ac_outbound := default_outbound\<lparr>
       ob_local := Some \<lparr>so_server = ''smtp.example.com'', so_port = 587,
         so_username = None, so_password = None,
         so_use_tls = True, so_from = ''node@example.com''\<rparr>\<rparr>\<rparr>"

section \<open>Loading\<close>

definition min_network_poll_ms :: nat where
  "min_network_poll_ms = 500"

definition validate_poll_rate :: "antie_config \<Rightarrow> unit res" where
  "validate_poll_rate c =
     (if has_network_pull (ac_carriers c) \<and> ac_poll_interval_ms c < min_network_poll_ms then
        Inl (ConfigError (''poll_interval_ms = '' @ dec (ac_poll_interval_ms c) @ '' is below the '' @
          dec min_network_poll_ms @ ''ms floor. ~'' @ dec (1000 div max (ac_poll_interval_ms c) 1) @
          '' requests/second, sustained. Raise poll_interval_ms.''))
      else Inr ())"

definition nabla_ban_file :: string where
  "nabla_ban_file = ''nabla_bans.txt''"

definition default_nabla_ban_list_path :: "string \<Rightarrow> string option" where
  "default_nabla_ban_list_path config_path = do {
     dir1 \<leftarrow> path_parent config_path;
     dir \<leftarrow> path_parent dir1;
     Some (path_join dir nabla_ban_file)
   }"

record mail_cred =
  cred_username :: string
  cred_password :: string

record mail_secrets =
  ms_external :: "mail_cred option"
  ms_inbound :: "mail_cred list"

text \<open>One credential is written into every account with its user name.\<close>

definition apply_cred :: "carriers_config \<Rightarrow> mail_cred \<Rightarrow> carriers_config" where
  "apply_cred c cred = c\<lparr>
     cc_pop3 := map (\<lambda>p. if pp_username p = cred_username cred
       then p\<lparr>pp_password := cred_password cred\<rparr> else p) (cc_pop3 c),
     cc_imap := map (\<lambda>i. if im_username i = cred_username cred
       then i\<lparr>im_password := cred_password cred\<rparr> else i) (cc_imap c)\<rparr>"

text \<open>What loading reads from outside: the environment variable of the secrets file, the files and the
  TOML readers.\<close>

record load_env =
  le_secrets_var :: "string option"
  le_exists :: "string \<Rightarrow> bool"
  le_read :: "string \<Rightarrow> string + string"
  le_parse_config :: "string \<Rightarrow> string + antie_config"
  le_parse_secrets :: "string \<Rightarrow> string + mail_secrets"
  le_parse_lambda :: "string \<Rightarrow> (string option \<times> int option) option"

definition merge_secrets :: "mail_secrets \<Rightarrow> antie_config \<Rightarrow> antie_config" where
  "merge_secrets secrets c =
     (let c1 = (case (ms_external secrets, ob_external (ac_outbound c)) of
          (Some cred, Some ext) \<Rightarrow> c\<lparr>ac_outbound := (ac_outbound c)\<lparr>ob_external :=
             Some (ext\<lparr>so_username := Some (cred_username cred), so_password := Some (cred_password cred)\<rparr>)\<rparr>\<rparr>
        | _ \<Rightarrow> c) in
      c1\<lparr>ac_carriers := foldl apply_cred (ac_carriers c1) (ms_inbound secrets)\<rparr>)"

definition apply_mail_secrets :: "load_env \<Rightarrow> string \<Rightarrow> antie_config \<Rightarrow> antie_config res" where
  "apply_mail_secrets env config_path c =
     (let secrets_path = (case le_secrets_var env of
          Some p \<Rightarrow> p
        | None \<Rightarrow> path_join (case path_parent config_path of Some d \<Rightarrow> d | None \<Rightarrow> ''.'') ''mail-secrets.toml'') in
      if \<not> le_exists env secrets_path then Inr c
      else res_bind (map_err (\<lambda>e. ConfigError (''mail-secrets read '' @ secrets_path @ '': '' @ e)) (le_read env secrets_path))
        (\<lambda>content. res_bind (map_err (\<lambda>e. ConfigError (''mail-secrets parse: '' @ e)) (le_parse_secrets env content))
        (\<lambda>secrets. Inr (merge_secrets secrets c))))"

definition load_config :: "load_env \<Rightarrow> string \<Rightarrow> antie_config res" where
  "load_config env path =
     res_bind (map_err IoError (le_read env path)) (\<lambda>content.
     res_bind (map_err ConfigError (le_parse_config env content)) (\<lambda>config.
     res_bind (apply_mail_secrets env path config) (\<lambda>config.
     (let config = (if ac_nabla_ban_list_path config = None
          then config\<lparr>ac_nabla_ban_list_path := default_nabla_ban_list_path path\<rparr> else config) in
      res_bind (validate_carriers (ac_carriers config)) (\<lambda>_.
      res_bind (validate_inbound_count (ac_carriers config)) (\<lambda>_.
      res_bind (validate_poll_rate config) (\<lambda>_.
      Inr config)))))))"

definition resolve_lambda_admin_token :: "load_env \<Rightarrow> antie_config \<Rightarrow> string option" where
  "resolve_lambda_admin_token env c =
     (case pf_lambda_admin_token (ac_performance c) of
        Some (x # xs) \<Rightarrow> Some (x # xs)
      | _ \<Rightarrow> (case ac_lambda c of
          LcTcp _ _ _ _ \<Rightarrow> None
        | LcSubprocess _ config_path \<Rightarrow> do {
            text \<leftarrow> ok_opt (le_read env config_path);
            (token, _) \<leftarrow> le_parse_lambda env text;
            t \<leftarrow> token;
            if t \<noteq> [] then Some t else None
          }))"

definition resolve_lambda_admin_port :: "load_env \<Rightarrow> antie_config \<Rightarrow> nat option" where
  "resolve_lambda_admin_port env c =
     (case pf_lambda_admin_port (ac_performance c) of
        Some (Suc p) \<Rightarrow> Some (Suc p)
      | _ \<Rightarrow> (case ac_lambda c of
          LcTcp _ _ _ _ \<Rightarrow> None
        | LcSubprocess _ config_path \<Rightarrow> do {
            text \<leftarrow> ok_opt (le_read env config_path);
            (_, port) \<leftarrow> le_parse_lambda env text;
            p \<leftarrow> port;
            if 0 < p \<and> p < 65536 then Some (nat p) else None
          }))"

section \<open>Lemmas\<close>

lemma validate_imap_ok: "validate_imap l = Inr () \<longleftrightarrow> (\<forall>i \<in> set l. im_use_tls i \<or> host_is_loopback (im_server i))"
  by (induction l) auto

lemma validate_carriers_ok:
  "validate_carriers c = Inr () \<longleftrightarrow> cc_maildir c \<noteq> None \<and>
     (\<forall>i \<in> set (cc_imap c). im_use_tls i \<or> host_is_loopback (im_server i))"
  by (auto simp: validate_carriers_def validate_imap_ok has_network_pull_def)

lemma validate_inbound_count_ok:
  "validate_inbound_count c = Inr () \<longleftrightarrow> length (cc_imap c) + length (cc_pop3 c) \<le> 5"
  by (auto simp: validate_inbound_count_def max_inbound_accounts_def Let_def)

lemma validate_poll_rate_ok:
  "validate_poll_rate c = Inr () \<longleftrightarrow> (has_network_pull (ac_carriers c) \<longrightarrow> 500 \<le> ac_poll_interval_ms c)"
  by (auto simp: validate_poll_rate_def min_network_poll_ms_def)

lemmas load_checks = validate_carriers_ok validate_inbound_count_ok validate_poll_rate_ok

lemma apply_cred_frame:
  "cc_maildir (apply_cred c cred) = cc_maildir c" "cc_advertise (apply_cred c cred) = cc_advertise c"
  "map im_server (cc_imap (apply_cred c cred)) = map im_server (cc_imap c)"
  "length (cc_pop3 (apply_cred c cred)) = length (cc_pop3 c)"
  by (auto simp: apply_cred_def)

lemma split_on_hd: "hd (split_on c s) = takeWhile (\<lambda>x. x \<noteq> c) s"
  by (induction s) (auto split: list.splits)

lemma before_slash_takeWhile: "before_slash s = takeWhile (\<lambda>x. x \<noteq> CHR ''/'') s"
  by (simp add: before_slash_def split_on_hd)

lemma before_slash_id [simp]: "CHR ''/'' \<notin> set s \<Longrightarrow> before_slash s = s"
  by (auto simp: before_slash_takeWhile takeWhile_eq_all_conv)

lemma before_slash_app: "CHR ''/'' \<notin> set s \<Longrightarrow> before_slash (s @ CHR ''/'' # t) = s"
  by (simp add: before_slash_takeWhile takeWhile_append)

lemma contains_at: "contains_str ''@'' s \<longleftrightarrow> CHR ''@'' \<in> set s"
  using contains_str_char [of "CHR ''@''" s] by simp

lemma route_domain_plain:
  assumes "CHR ''/'' \<notin> set u" "CHR ''/'' \<notin> set d" "CHR ''@'' \<notin> set u" "CHR ''@'' \<notin> set d"
  shows "route_domain (u @ ''@'' @ d) = Some (ascii_lower d)"
    and "route_domain (u @ ''@'' @ d @ ''/'' @ fp) = Some (ascii_lower d)"
proof -
  have b: "before_slash (u @ ''@'' @ d) = u @ CHR ''@'' # d"
    "before_slash (u @ ''@'' @ d @ ''/'' @ fp) = u @ CHR ''@'' # d"
    using assms before_slash_app [of "u @ CHR ''@'' # d" fp] by auto
  have r: "rsplit_once CHR ''@'' (u @ CHR ''@'' # d) = Some (u, d)" using assms by simp
  show "route_domain (u @ ''@'' @ d) = Some (ascii_lower d)"
    "route_domain (u @ ''@'' @ d @ ''/'' @ fp) = Some (ascii_lower d)"
    unfolding route_domain_def Let_def b r using assms by (simp_all add: contains_at)
qed

lemma route_domain_dual:
  assumes "CHR ''/'' \<notin> set (u @ d @ h)" "CHR ''@'' \<notin> set (u @ d @ h)"
  shows "route_domain (u @ ''@'' @ d @ ''@'' @ h) = Some (ascii_lower d)"
proof -
  have b: "before_slash (u @ ''@'' @ d @ ''@'' @ h) = (u @ CHR ''@'' # d) @ CHR ''@'' # h"
    using assms by simp
  have r: "rsplit_once CHR ''@'' ((u @ CHR ''@'' # d) @ CHR ''@'' # h) = Some (u @ CHR ''@'' # d, h)"
    "rsplit_once CHR ''@'' (u @ CHR ''@'' # d) = Some (u, d)"
    using assms by (simp_all add: rsplit_once_Some)
  show ?thesis unfolding route_domain_def Let_def b r using assms by (simp add: contains_at r)
qed

section \<open>Properties\<close>

text \<open>What loading makes of a parsed configuration: the password of an account is that of the last credential with its user name, its own
  where there is none; the external server gets the external credential; the ban list of the surroundings stands in for one that is not named.\<close>

definition last_password :: "mail_cred list \<Rightarrow> string \<Rightarrow> string \<Rightarrow> string" where
  "last_password creds u old =
     (case find (\<lambda>cr. cred_username cr = u) (rev creds) of Some cr \<Rightarrow> cred_password cr | None \<Rightarrow> old)"

definition provisioned :: "mail_secrets option \<Rightarrow> string \<Rightarrow> antie_config \<Rightarrow> antie_config" where
  "provisioned found path c =
     (let creds = (case found of Some s \<Rightarrow> ms_inbound s | None \<Rightarrow> []);
          ext = (case (Option.bind found ms_external, ob_external (ac_outbound c)) of
              (Some cr, Some e) \<Rightarrow> Some (e\<lparr>so_username := Some (cred_username cr), so_password := Some (cred_password cr)\<rparr>)
            | (_, e) \<Rightarrow> e) in
      c\<lparr>ac_carriers := (ac_carriers c)\<lparr>
           cc_imap := map (\<lambda>i. i\<lparr>im_password := last_password creds (im_username i) (im_password i)\<rparr>) (cc_imap (ac_carriers c)),
           cc_pop3 := map (\<lambda>p. p\<lparr>pp_password := last_password creds (pp_username p) (pp_password p)\<rparr>) (cc_pop3 (ac_carriers c))\<rparr>,
         ac_outbound := (ac_outbound c)\<lparr>ob_external := ext\<rparr>,
         ac_nabla_ban_list_path := (case ac_nabla_ban_list_path c of Some p \<Rightarrow> Some p | None \<Rightarrow> default_nabla_ban_list_path path)\<rparr>)"

text \<open>The secrets beside a configuration: none without their file, which must read and parse when it is there.\<close>

definition secrets_found :: "load_env \<Rightarrow> string \<Rightarrow> mail_secrets option \<Rightarrow> bool" where
  "secrets_found env path found =
     (let p = (case le_secrets_var env of Some p \<Rightarrow> p
         | None \<Rightarrow> path_join (case path_parent path of Some d \<Rightarrow> d | None \<Rightarrow> ''.'') ''mail-secrets.toml'') in
      case found of
        None \<Rightarrow> \<not> le_exists env p
      | Some s \<Rightarrow> le_exists env p \<and> (\<exists>body. le_read env p = Inr body \<and> le_parse_secrets env body = Inr s))"

definition safe_to_run :: "antie_config \<Rightarrow> bool" where
  "safe_to_run c =
     (cc_maildir (ac_carriers c) \<noteq> None \<and>
      (\<forall>i \<in> set (cc_imap (ac_carriers c)). im_use_tls i \<or> host_is_loopback (im_server i)) \<and>
      length (cc_imap (ac_carriers c)) + length (cc_pop3 (ac_carriers c)) \<le> 5 \<and>
      (has_network_pull (ac_carriers c) \<longrightarrow> 500 \<le> ac_poll_interval_ms c))"

lemma last_password_Nil [simp]: "last_password [] u old = old"
  by (simp add: last_password_def)

lemma find_snoc: "find P (xs @ [x]) = (case find P xs of Some y \<Rightarrow> Some y | None \<Rightarrow> if P x then Some x else None)"
  by (induction xs) auto

lemma last_password_Cons:
  "last_password (cr # cs) u old = last_password cs u (if cred_username cr = u then cred_password cr else old)"
  by (simp add: last_password_def find_snoc split: option.split)

lemma creds_applied:
  "foldl apply_cred cc cs = cc\<lparr>
     cc_imap := map (\<lambda>i. i\<lparr>im_password := last_password cs (im_username i) (im_password i)\<rparr>) (cc_imap cc),
     cc_pop3 := map (\<lambda>p. p\<lparr>pp_password := last_password cs (pp_username p) (pp_password p)\<rparr>) (cc_pop3 cc)\<rparr>"
proof (induction cs arbitrary: cc)
  case (Cons cr cs)
  show ?case unfolding foldl_Cons Cons by (auto simp: apply_cred_def last_password_Cons)
qed simp

lemma apply_mail_secrets_Inr:
  "apply_mail_secrets env path c0 = Inr c1 \<longleftrightarrow>
     (\<exists>found. secrets_found env path found \<and> c1 = (case found of None \<Rightarrow> c0 | Some s \<Rightarrow> merge_secrets s c0))"
proof -
  define p where "p = (case le_secrets_var env of Some p \<Rightarrow> p
     | None \<Rightarrow> path_join (case path_parent path of Some d \<Rightarrow> d | None \<Rightarrow> ''.'') ''mail-secrets.toml'')"
  have found: "secrets_found env path found = (case found of None \<Rightarrow> \<not> le_exists env p
      | Some s \<Rightarrow> le_exists env p \<and> (\<exists>body. le_read env p = Inr body \<and> le_parse_secrets env body = Inr s))" for found
    unfolding secrets_found_def Let_def p_def by (rule refl)
  show ?thesis
    unfolding apply_mail_secrets_def Let_def p_def [symmetric] found split_option_ex
    by (auto simp: res_bind_Inr map_err_Inr)
qed

lemma provisioned_merge:
  "provisioned found path c0 = (let c1 = (case found of None \<Rightarrow> c0 | Some s \<Rightarrow> merge_secrets s c0) in
     if ac_nabla_ban_list_path c1 = None then c1\<lparr>ac_nabla_ban_list_path := default_nabla_ban_list_path path\<rparr> else c1)"
  by (auto simp: provisioned_def merge_secrets_def creds_applied Let_def split: option.split)

text \<open>C31.  A configuration that loads is safe to run, and exactly those load: loading gives \<open>c\<close> if and only if the file reads and parses, the file
  of mail secrets is absent or reads and parses, \<open>c\<close> is what was parsed with the secrets merged in (every account with the password of the last
  credential of its user name, the external server with the external credential) and the default ban list where none is
  named, a maildir funnel is configured, no IMAP account would log in without TLS to another host, at most five
  inbound accounts are named, and a network pull polls no faster than every 500 ms.\<close>

theorem load_config_iff:
  "load_config env path = Inr c \<longleftrightarrow>
     (\<exists>content c0 found. le_read env path = Inr content \<and> le_parse_config env content = Inr c0 \<and> secrets_found env path found \<and>
        c = provisioned found path c0 \<and> safe_to_run c)"
proof -
  define bans where "bans = (\<lambda>c1 :: antie_config. if ac_nabla_ban_list_path c1 = None
    then c1\<lparr>ac_nabla_ban_list_path := default_nabla_ban_list_path path\<rparr> else c1)"
  have run: "load_config env path = res_bind (map_err IoError (le_read env path)) (\<lambda>content.
      res_bind (map_err ConfigError (le_parse_config env content)) (\<lambda>c0. res_bind (apply_mail_secrets env path c0) (\<lambda>c1.
      res_bind (validate_carriers (ac_carriers (bans c1))) (\<lambda>_. res_bind (validate_inbound_count (ac_carriers (bans c1))) (\<lambda>_.
      res_bind (validate_poll_rate (bans c1)) (\<lambda>_. Inr (bans c1)))))))"
    unfolding load_config_def Let_def bans_def by (rule refl)
  have checks: "res_bind (validate_carriers (ac_carriers d)) (\<lambda>_. res_bind (validate_inbound_count (ac_carriers d)) (\<lambda>_.
      res_bind (validate_poll_rate d) (\<lambda>_. Inr d))) = Inr c \<longleftrightarrow> c = d \<and> safe_to_run d" for d
    by (auto simp: res_bind_Inr load_checks safe_to_run_def)
  have merged: "provisioned found path c0 = bans (case found of None \<Rightarrow> c0 | Some s \<Rightarrow> merge_secrets s c0)" for found c0
    unfolding provisioned_merge Let_def bans_def by (rule refl)
  show ?thesis
    unfolding run merged res_bind_Inr map_err_Inr apply_mail_secrets_Inr checks [unfolded res_bind_Inr] by blast
qed

definition example_env :: "antie_config \<Rightarrow> load_env" where
  "example_env c = \<lparr>le_secrets_var = None, le_exists = (\<lambda>_. False), le_read = (\<lambda>_. Inr []),
     le_parse_config = (\<lambda>_. Inr c), le_parse_secrets = (\<lambda>_. Inl []), le_parse_lambda = (\<lambda>_. None)\<rparr>"

text \<open>Two accounts, and a credential for one of them.\<close>

lemma load_config_iff_witness:
  "case load_config ((example_env all_carriers_example)\<lparr>le_exists := \<lambda>_. True,
      le_parse_secrets := \<lambda>_. Inr \<lparr>ms_external = None, ms_inbound = [\<lparr>cred_username = ''node@example.com'', cred_password = ''new''\<rparr>]\<rparr>\<rparr>) ''c/antie.toml'' of
     Inl e \<Rightarrow> False
   | Inr c \<Rightarrow> map im_password (cc_imap (ac_carriers c)) = [''new''] \<and> map pp_password (cc_pop3 (ac_carriers c)) = [''new'']"
proof -
  let ?s = "\<lparr>ms_external = None, ms_inbound = [\<lparr>cred_username = ''node@example.com'', cred_password = ''new''\<rparr>]\<rparr>"
  let ?env = "(example_env all_carriers_example)\<lparr>le_exists := \<lambda>_. True, le_parse_secrets := \<lambda>_. Inr ?s\<rparr>"
  let ?c = "provisioned (Some ?s) ''c/antie.toml'' all_carriers_example"
  have carriers: "map im_password (cc_imap (ac_carriers ?c)) = [''new'']" "map pp_password (cc_pop3 (ac_carriers ?c)) = [''new'']" "safe_to_run ?c"
    by (simp_all add: provisioned_def all_carriers_example_def default_config_def last_password_def safe_to_run_def has_network_pull_def Let_def)
  have "secrets_found ?env ''c/antie.toml'' (Some ?s)" by (simp add: secrets_found_def example_env_def Let_def)
  then have "load_config ?env ''c/antie.toml'' = Inr ?c"
    using carriers(3) by (intro load_config_iff [THEN iffD2] exI [of _ "[]"] exI [of _ all_carriers_example] exI [of _ "Some ?s"])
      (simp add: example_env_def)
  then show ?thesis using carriers by simp
qed

text \<open>Every configuration antie generates (the default and the four examples) is one it will start
  with, whatever path it is saved under.\<close>

lemma examples_load:
  "list_all (\<lambda>c. is_ok (load_config (example_env c) path))
     [default_config, imap_example, pop3_example, advertise_example, all_carriers_example]"
  by (simp add: load_config_def example_env_def apply_mail_secrets_def Let_def is_ok_iff res_bind_Inr
      load_checks has_network_pull_def default_config_def imap_example_def pop3_example_def
      advertise_example_def all_carriers_example_def no_carriers_def)

text \<open>C21.  Outbound routing is fail-closed and exact: with a routing table in use, a recipient is given an
  outbox only by a row whose domain equals, up to ASCII case, the recipient's own domain (the inner one of
  a dual-@ address), the first such row decides, and every other recipient is an error, never "no table".\<close>

theorem outbox_for_exact:
  assumes "ob_route ob \<noteq> []"
  shows "outbox_for ob recipient \<noteq> Inr None \<and>
    (outbox_for ob recipient = Inr (Some p) \<longleftrightarrow>
       (\<exists>d pre r post. route_domain recipient = Some d \<and> ob_route ob = pre @ r # post \<and>
          rt_outbox r = p \<and> ascii_lower (rt_domain r) = ascii_lower d \<and>
          (\<forall>q \<in> set pre. ascii_lower (rt_domain q) \<noteq> ascii_lower d)))"
proof (rule conjI)
  show "outbox_for ob recipient \<noteq> Inr None"
    using assms by (auto simp: outbox_for_def split: option.splits)
  show "outbox_for ob recipient = Inr (Some p) \<longleftrightarrow>
       (\<exists>d pre r post. route_domain recipient = Some d \<and> ob_route ob = pre @ r # post \<and>
          rt_outbox r = p \<and> ascii_lower (rt_domain r) = ascii_lower d \<and>
          (\<forall>q \<in> set pre. ascii_lower (rt_domain q) \<noteq> ascii_lower d))"
  proof
    assume "outbox_for ob recipient = Inr (Some p)"
    then obtain d r where d: "route_domain recipient = Some d" and rp: "rt_outbox r = p"
      and f: "find (\<lambda>r. eq_ignore_case (rt_domain r) d) (ob_route ob) = Some r"
      using assms by (auto simp: outbox_for_def split: option.splits)
    from f obtain i where i: "i < length (ob_route ob)" "ob_route ob ! i = r" "eq_ignore_case (rt_domain r) d"
      "\<forall>j < i. \<not> eq_ignore_case (rt_domain (ob_route ob ! j)) d"
      by (auto simp: find_Some_iff)
    then have "ob_route ob = take i (ob_route ob) @ r # drop (Suc i) (ob_route ob)"
      by (metis id_take_nth_drop)
    moreover have "\<forall>q \<in> set (take i (ob_route ob)). ascii_lower (rt_domain q) \<noteq> ascii_lower d"
      using i(1,4) by (auto simp: in_set_conv_nth eq_ignore_case_def)
    ultimately show "\<exists>d pre r post. route_domain recipient = Some d \<and> ob_route ob = pre @ r # post \<and>
          rt_outbox r = p \<and> ascii_lower (rt_domain r) = ascii_lower d \<and>
          (\<forall>q \<in> set pre. ascii_lower (rt_domain q) \<noteq> ascii_lower d)"
      using d rp i(3) unfolding eq_ignore_case_def by blast
  next
    assume "\<exists>d pre r post. route_domain recipient = Some d \<and> ob_route ob = pre @ r # post \<and>
          rt_outbox r = p \<and> ascii_lower (rt_domain r) = ascii_lower d \<and>
          (\<forall>q \<in> set pre. ascii_lower (rt_domain q) \<noteq> ascii_lower d)"
    then obtain d pre r post where r: "route_domain recipient = Some d" "ob_route ob = pre @ r # post"
      "rt_outbox r = p" "ascii_lower (rt_domain r) = ascii_lower d"
      "\<forall>q \<in> set pre. ascii_lower (rt_domain q) \<noteq> ascii_lower d" by blast
    have "find (\<lambda>r. eq_ignore_case (rt_domain r) d) (pre @ r # post) = Some r"
      using r(4,5) by (induction pre) (auto simp: eq_ignore_case_def)
    then show "outbox_for ob recipient = Inr (Some p)"
      using r(1-3) by (simp add: outbox_for_def)
  qed
qed

definition two_routes :: outbound_config where
  "two_routes = default_outbound\<lparr>ob_route :=
     [\<lparr>rt_domain = ''axiom'', rt_outbox = ''/o/a''\<rparr>, \<lparr>rt_domain = ''Mail.org'', rt_outbox = ''/o/m''\<rparr>]\<rparr>"

lemma outbox_for_exact_witness:
  "outbox_for two_routes ''x@mail.ORG'' \<noteq> Inr None \<and>
    (outbox_for two_routes ''x@mail.ORG'' = Inr (Some ''/o/m'') \<longleftrightarrow>
       (\<exists>d pre r post. route_domain ''x@mail.ORG'' = Some d \<and> ob_route two_routes = pre @ r # post \<and>
          rt_outbox r = ''/o/m'' \<and> ascii_lower (rt_domain r) = ascii_lower d \<and>
          (\<forall>q \<in> set pre. ascii_lower (rt_domain q) \<noteq> ascii_lower d)))"
  by (rule outbox_for_exact) (simp add: two_routes_def)

text \<open>A cross-site address is routed by the wallet's own domain: the outer host of a dual-@ address
  never chooses the outbox, so the address goes where the plain address with the same inner domain goes,
  with or without a fingerprint behind it.\<close>

lemma dual_at_routes_inner:
  assumes "CHR ''/'' \<notin> set (u @ d @ h)" "CHR ''@'' \<notin> set (u @ d @ h)" "ob_route ob \<noteq> []"
    and "outbox_for ob (u @ ''@'' @ d) = Inr q"
  shows "outbox_for ob (u @ ''@'' @ d @ ''@'' @ h) = Inr q \<and>
    outbox_for ob (u @ ''@'' @ d @ ''/'' @ fp) = Inr q"
proof -
  have "route_domain (u @ ''@'' @ d) = Some (ascii_lower d)"
    "route_domain (u @ ''@'' @ d @ ''/'' @ fp) = Some (ascii_lower d)"
    "route_domain (u @ ''@'' @ d @ ''@'' @ h) = Some (ascii_lower d)"
    using assms(1,2) by (intro route_domain_plain route_domain_dual; simp)+
  then show ?thesis using assms(3,4)
    by (auto simp: outbox_for_def simp del: append.simps split: option.splits)
qed

lemma dual_at_routes_inner_witness:
  "outbox_for two_routes (''x'' @ ''@'' @ ''axiom'' @ ''@'' @ ''host.org'') = Inr (Some ''/o/a'') \<and>
   outbox_for two_routes (''x'' @ ''@'' @ ''axiom'' @ ''/'' @ ''ab12'') = Inr (Some ''/o/a'')"
proof (rule dual_at_routes_inner)
  show "outbox_for two_routes (''x'' @ ''@'' @ ''axiom'') = Inr (Some ''/o/a'')" by code_simp
qed (simp_all add: two_routes_def)

text \<open>The mail secrets reach exactly the accounts they name: merging them keeps every account, its
  server, its TLS setting and its switch; an account whose user name no credential has keeps its password;
  one that a credential names gets the password of the last such credential.\<close>

lemma merge_secrets_exact:
  "let c' = merge_secrets secrets c; new = (\<lambda>u old. foldl (\<lambda>pw cr. if cred_username cr = u then cred_password cr else pw)
        old (ms_inbound secrets)) in
   cc_imap (ac_carriers c') = map (\<lambda>i. i\<lparr>im_password := new (im_username i) (im_password i)\<rparr>) (cc_imap (ac_carriers c)) \<and>
   cc_pop3 (ac_carriers c') = map (\<lambda>p. p\<lparr>pp_password := new (pp_username p) (pp_password p)\<rparr>) (cc_pop3 (ac_carriers c)) \<and>
   cc_maildir (ac_carriers c') = cc_maildir (ac_carriers c) \<and>
   ob_route (ac_outbound c') = ob_route (ac_outbound c) \<and> ob_local (ac_outbound c') = ob_local (ac_outbound c)"
proof -
  let ?new = "\<lambda>u old cs. foldl (\<lambda>pw cr. if cred_username cr = u then cred_password cr else pw) old cs"
  have fold: "cc_imap (foldl apply_cred cc cs) = map (\<lambda>i. i\<lparr>im_password := ?new (im_username i) (im_password i) cs\<rparr>) (cc_imap cc) \<and>
    cc_pop3 (foldl apply_cred cc cs) = map (\<lambda>p. p\<lparr>pp_password := ?new (pp_username p) (pp_password p) cs\<rparr>) (cc_pop3 cc) \<and>
    cc_maildir (foldl apply_cred cc cs) = cc_maildir cc" for cc cs
  proof (induction cs arbitrary: cc)
    case (Cons cr cs)
    then show ?case by (auto simp: apply_cred_def)
  qed simp
  show ?thesis
    by (auto simp: merge_secrets_def Let_def fold split: option.splits)
qed

end
