(* ===== verification/Email.thy ===== *)
theory Email
  imports TextOps Errors Complex_Main
begin

text \<open>
  Reading and building the mail of antie (\<open>antie/src/email.rs\<close>).  What other crates do is gathered in
  \<open>mail_env\<close>: the MIME parser, base64, the CBOR codecs, the envelope reader of the core crate.  A
  value antie only carries (a certificate signature, a cheque, an audit record) is an opaque string.
\<close>

section \<open>Types\<close>

definition custody_headers :: "string list" where
  "custody_headers = [''X-TOT-Session'']"

text \<open>\<open>ciborium::Value\<close>, with the variants the sources look at.\<close>

datatype cbor_value =
    CvInteger int
  | CvBytes bytes
  | CvText string
  | CvArray "cbor_value list"
  | CvMap "(cbor_value \<times> cbor_value) list"
  | CvOther string

record antie_payload =
  pl_raw_ump_body :: bytes
  pl_query_params :: "cbor_value option"
  pl_public_key :: "bytes option"
  pl_balance :: "nat option"
  pl_group_members :: "string list option"
  pl_txid :: "bytes option"
  pl_validator_pk :: "bytes option"
  pl_sender_sig :: "bytes option"
  pl_client_pk :: "bytes option"
  pl_sphincs_pk_hex :: "string option"
  pl_dilithium_pk_hex :: "string option"
  pl_ed25519_pk_hex :: "string option"
  pl_pgp_fingerprint_hex :: "string option"
  pl_issued_at :: "nat option"
  pl_expires_at :: "nat option"
  pl_chain_depth :: "nat option"
  pl_issuer_set_hex :: "string list"
  pl_proof_cap :: "string option"
  pl_node_name_field :: "string option"
  pl_auth_hash :: "bytes option"
  pl_peer_audit_request :: "string option"
  pl_peer_audit_response :: "string option"
  pl_peer_audit_not_held :: "string option"

definition empty_payload :: antie_payload where
  "empty_payload = \<lparr>pl_raw_ump_body = [], pl_query_params = None, pl_public_key = None, pl_balance = None,
     pl_group_members = None, pl_txid = None, pl_validator_pk = None, pl_sender_sig = None,
     pl_client_pk = None, pl_sphincs_pk_hex = None, pl_dilithium_pk_hex = None, pl_ed25519_pk_hex = None,
     pl_pgp_fingerprint_hex = None, pl_issued_at = None, pl_expires_at = None, pl_chain_depth = None,
     pl_issuer_set_hex = [], pl_proof_cap = None, pl_node_name_field = None, pl_auth_hash = None,
     pl_peer_audit_request = None, pl_peer_audit_response = None, pl_peer_audit_not_held = None\<rparr>"

record antie_email =
  em_from :: string
  em_to :: string
  em_message_type :: string
  em_request_id :: string
  em_message_id :: "string option"
  em_payload :: antie_payload
  em_raw :: bytes
  em_uncle_correlate :: "bytes option"
  em_custody :: "(string \<times> string) option"

text \<open>What the MIME parser yields: the first address of From and To, the message id, the raw value of a
  header, the subject and the first text and HTML bodies.\<close>

record mail_view =
  mv_from :: "string option"
  mv_to :: "string option"
  mv_message_id :: "string option"
  mv_header_raw :: "string \<Rightarrow> string option"
  mv_subject :: "string option"
  mv_text :: "string option"
  mv_html :: "string option"

datatype envelope = EnvPlain bytes | EnvEncrypted bytes

record mail_env =
  me_mime :: "bytes \<Rightarrow> mail_view option"
  me_b64_encode :: "bytes \<Rightarrow> string"
  me_b64_decode :: "string \<Rightarrow> string + bytes"
  me_envelope :: "bytes \<Rightarrow> envelope option"
  me_decode_payload :: "bytes \<Rightarrow> string + antie_payload"
  me_encode_payload :: "antie_payload \<Rightarrow> string + bytes"
  me_decode_vbc :: "bytes \<Rightarrow> string + (string \<times> string)"
  me_encode_vbc :: "string \<times> string \<Rightarrow> string + bytes"

type_synonym decryptor = "bytes \<Rightarrow> string + bytes"

section \<open>Reading\<close>

definition entropy_body :: "bytes \<Rightarrow> bytes" where
  "entropy_body raw_email =
     (case split_str [CHR 0x0D, CHR 0x0A, CHR 0x0D, CHR 0x0A] raw_email of
        Some (_, b) \<Rightarrow> b
      | None \<Rightarrow> (case split_str [CHR 0x0A, CHR 0x0A] raw_email of Some (_, b) \<Rightarrow> b | None \<Rightarrow> raw_email))"

text \<open>The single-precision sum of the source is modelled by the exact one.\<close>

definition byte_share :: "bytes \<Rightarrow> char \<Rightarrow> real" where
  "byte_share body c = real (count_list body c) / real (length body)"

definition body_entropy_bits :: "bytes \<Rightarrow> real" where
  "body_entropy_bits raw_email =
     (let body = entropy_body raw_email in
      if length body < 64 then 8
      else (\<Sum>c \<in> set body. - (byte_share body c * log 2 (byte_share body c))))"

definition raw_cbor_message_types :: "string list" where
  "raw_cbor_message_types = [''peer_audit_request'', ''peer_audit_response'', ''fanout_relay'']"

definition requires_envelope :: "string \<Rightarrow> bool" where
  "requires_envelope message_type = (message_type \<notin> set raw_cbor_message_types)"

datatype decode_error = DecryptFailed | OtherError antie_error

datatype parse_outcome = POk antie_email | PDecryptFailed

definition unwrap_by_format ::
  "mail_env \<Rightarrow> string \<Rightarrow> bytes \<Rightarrow> decryptor option \<Rightarrow> decode_error + bytes" where
  "unwrap_by_format env message_type decoded decryptor =
     (let parsed_envelope = me_envelope env decoded in
      if requires_envelope message_type then
        (case parsed_envelope of
           Some (EnvPlain ump_bytes) \<Rightarrow> Inr ump_bytes
         | Some (EnvEncrypted c) \<Rightarrow>
             (case decryptor of
                None \<Rightarrow> Inl DecryptFailed
              | Some d \<Rightarrow> map_err (\<lambda>_. DecryptFailed) (d c))
         | None \<Rightarrow> Inl (OtherError (EmailParseError (''wire format violation: message type '' @
             debug_str message_type @ '' requires UmpEnvelope, body parses as raw CBOR ('' @
             dec (length decoded) @ '' bytes, hex prefix '' @ hex_encode (take 32 decoded) @ '')''))))
      else if parsed_envelope \<noteq> None then
        Inl (OtherError (EmailParseError (''wire format violation: message type '' @ debug_str message_type @
          '' ships raw CBOR but body parses as UmpEnvelope'')))
      else Inr decoded)"

definition decode_payload_inner :: "mail_env \<Rightarrow> bytes \<Rightarrow> antie_payload res" where
  "decode_payload_inner env decoded =
     res_bind (map_err (\<lambda>e. EmailParseError (''CBOR decode failed: '' @ e)) (me_decode_payload env decoded))
       (\<lambda>payload. Inr (payload\<lparr>pl_raw_ump_body := decoded\<rparr>))"

definition decode_payload_with_context ::
  "mail_env \<Rightarrow> string \<Rightarrow> string \<Rightarrow> decryptor option \<Rightarrow> decode_error + antie_payload" where
  "decode_payload_with_context env message_type body decryptor =
     (let cleaned = remove_ws body in
      res_bind (map_err (\<lambda>e. OtherError (EmailParseError (''Base64 decode failed: '' @ e))) (me_b64_decode env cleaned))
        (\<lambda>decoded.
          if decoded = [] then Inl (OtherError (EmailParseError ''Empty payload''))
          else res_bind (unwrap_by_format env message_type decoded decryptor)
            (\<lambda>inner_bytes. map_err OtherError (decode_payload_inner env inner_bytes))))"

definition parse_subject :: "string \<Rightarrow> (string \<times> string) res" where
  "parse_subject subject =
     (case split_on CHR ''/'' subject of
        ax # mt # r # rs \<Rightarrow>
          if ax \<noteq> ''AXIOM'' then
            Inl (EmailParseError (''Invalid subject format: '' @ subject @ ''. Expected: AXIOM/<type>/<request_id>''))
          else Inr (mt, join_str ''/'' (r # rs))
      | _ \<Rightarrow> Inl (EmailParseError (''Invalid subject format: '' @ subject @ ''. Expected: AXIOM/<type>/<request_id>'')))"

definition strip_tags :: "string \<Rightarrow> string" where
  "strip_tags body =
     (let spaced = concat (map (\<lambda>c. if c = CHR ''<'' then '' <'' else [c]) body) in
      join_str '' '' (map (\<lambda>s. case split_once CHR ''>'' s of Some (_, r) \<Rightarrow> trim r | None \<Rightarrow> trim s)
        (split_on CHR ''<'' spaced)))"

definition extract_body :: "mail_view \<Rightarrow> string res" where
  "extract_body m = (case mv_text m of
     Some body \<Rightarrow> Inr body
   | None \<Rightarrow> (case mv_html m of
       Some body \<Rightarrow> Inr (strip_tags body)
     | None \<Rightarrow> Inl (EmailParseError ''No body found'')))"

definition uncle_correlate_of :: "mail_view \<Rightarrow> bytes option" where
  "uncle_correlate_of m = do {
     raw \<leftarrow> mv_header_raw m ''X-UNCLE-Correlate'';
     (let trimmed = trim raw in
      if length trimmed \<noteq> 64 then None
      else do {
        b \<leftarrow> hex_decode trimmed;
        if length b = 32 then Some b else None
      })
   }"

definition custody_id :: "string \<Rightarrow> string option" where
  "custody_id raw = (let i = trim raw in
     if length i \<noteq> 64 \<or> \<not> list_all is_hex_digit i then None else Some (ascii_lower i))"

fun find_custody :: "(string \<Rightarrow> string option) \<Rightarrow> string list \<Rightarrow> (string \<times> string) option" where
  "find_custody header [] = None"
| "find_custody header (name # names) =
     (case Option.bind (header name) custody_id of
        Some i \<Rightarrow> Some (name, i)
      | None \<Rightarrow> find_custody header names)"

definition opt_or :: "'a \<Rightarrow> 'a option \<Rightarrow> 'a" where
  "opt_or d x = (case x of None \<Rightarrow> d | Some a \<Rightarrow> a)"

definition parse_email_outcome :: "mail_env \<Rightarrow> bytes \<Rightarrow> decryptor option \<Rightarrow> parse_outcome res" where
  "parse_email_outcome env raw decryptor =
     (case me_mime env raw of
        None \<Rightarrow> Inl (EmailParseError ''Failed to parse email'')
      | Some message \<Rightarrow>
          res_bind (parse_subject (opt_or [] (mv_subject message))) (\<lambda>(message_type, request_id).
          res_bind (extract_body message) (\<lambda>body.
          (case decode_payload_with_context env message_type body decryptor of
             Inl DecryptFailed \<Rightarrow> Inr PDecryptFailed
           | Inl (OtherError e) \<Rightarrow> Inl e
           | Inr payload \<Rightarrow> Inr (POk \<lparr>
               em_from = opt_or [] (mv_from message),
               em_to = opt_or [] (mv_to message),
               em_message_type = message_type,
               em_request_id = request_id,
               em_message_id = mv_message_id message,
               em_payload = payload,
               em_raw = raw,
               em_uncle_correlate = uncle_correlate_of message,
               em_custody = find_custody (mv_header_raw message) custody_headers\<rparr>)))))"

definition parse_email_with_context :: "mail_env \<Rightarrow> bytes \<Rightarrow> decryptor option \<Rightarrow> antie_email res" where
  "parse_email_with_context env raw decryptor =
     res_bind (parse_email_outcome env raw decryptor) (\<lambda>o'. case o' of
        POk email \<Rightarrow> Inr email
      | PDecryptFailed \<Rightarrow> Inl (EmailParseError ''envelope decryption failed''))"

definition parse_email :: "mail_env \<Rightarrow> bytes \<Rightarrow> antie_email res" where
  "parse_email env raw = parse_email_with_context env raw None"

section \<open>Building\<close>

definition sanitize_header :: "string \<Rightarrow> string" where
  "sanitize_header value = filter (\<lambda>c. c \<noteq> CHR 0x0D \<and> c \<noteq> CHR 0x0A) value"

definition validate_email_addr :: "string \<Rightarrow> unit res" where
  "validate_email_addr addr =
     (if CHR 0x0D \<in> set addr \<or> CHR 0x0A \<in> set addr then
        Inl (EmailParseError ''Email address contains newline (header injection attempt)'')
      else if addr = [] \<or> \<not> contains_str ''@'' addr then
        Inl (EmailParseError (''Invalid email address: '' @ [CHR 0x27] @ addr @ [CHR 0x27]))
      else Inr ())"

text \<open>The fresh values one mail takes: the UUID of its id, the UUID of its subject, the clock and the
  formatted date.\<close>

record mail_stamp =
  ms_id_uuid :: string
  ms_subject_uuid :: string
  ms_timestamp :: nat
  ms_date :: string

definition crlf :: string where
  "crlf = [CHR 0x0D, CHR 0x0A]"

definition message_id_of :: "mail_stamp \<Rightarrow> string" where
  "message_id_of st = ''<'' @ ms_id_uuid st @ ''.'' @ dec (ms_timestamp st) @ ''@axiom>''"

text \<open>Every builder pushes the same header lines and then the encoded body.\<close>

definition mail_lines :: "mail_stamp \<Rightarrow> string \<Rightarrow> string \<Rightarrow> string \<Rightarrow> string option \<Rightarrow> string \<Rightarrow> string list" where
  "mail_lines st from to subject reply_to encoded =
     [''From: '' @ sanitize_header from,
      ''To: '' @ sanitize_header to,
      ''Subject: '' @ subject,
      ''Message-ID: '' @ message_id_of st,
      ''Date: '' @ ms_date st,
      ''Content-Type: text/plain; charset=utf-8''] @
     (case reply_to of None \<Rightarrow> [] | Some r \<Rightarrow> [''In-Reply-To: '' @ sanitize_header r]) @
     [[], encoded]"

definition mail_text :: "string list \<Rightarrow> bytes" where
  "mail_text ls = concat (map (\<lambda>l. l @ crlf) ls)"

definition build_response ::
  "(bytes \<Rightarrow> string) \<Rightarrow> ('p \<Rightarrow> string + bytes) \<Rightarrow> mail_stamp \<Rightarrow> string \<Rightarrow> string \<Rightarrow> string \<Rightarrow> string \<Rightarrow>
   string option \<Rightarrow> 'p \<Rightarrow> bytes res" where
  "build_response b64 encode st to from message_type request_id in_reply_to payload =
     res_bind (validate_email_addr to) (\<lambda>_.
     res_bind (validate_email_addr from) (\<lambda>_.
     res_bind (map_err (\<lambda>e. SerializationError (''CBOR encode: '' @ e)) (encode payload)) (\<lambda>cbor_bytes.
     Inr (mail_text (mail_lines st from to
       (''AXIOM/'' @ sanitize_header message_type @ ''/'' @ sanitize_header request_id) in_reply_to
       (b64 cbor_bytes))))))"

text \<open>A delivery carries one encoded artifact under a fixed type and a fresh request id; \<open>what\<close> names it in
  the error text.\<close>

definition build_delivery ::
  "(bytes \<Rightarrow> string) \<Rightarrow> mail_stamp \<Rightarrow> string \<Rightarrow> string \<Rightarrow> string \<Rightarrow> string \<Rightarrow> string + bytes \<Rightarrow> bytes res" where
  "build_delivery b64 st what from to kind encoded_payload =
     res_bind (map_err (\<lambda>e. SerializationError (what @ e)) encoded_payload) (\<lambda>cbor_bytes.
     Inr (mail_text (mail_lines st from to (''AXIOM/'' @ kind @ ''/'' @ ms_subject_uuid st) None (b64 cbor_bytes))))"

text \<open>\<open>matches\<close> is \<open>cheque_origin_matches\<close> of the core crate, \<open>encode\<close> the CBOR of cheque, fact chain and
  origin record.\<close>

definition build_cheque_delivery_email ::
  "(bytes \<Rightarrow> string) \<Rightarrow> ('c \<Rightarrow> 'f option \<Rightarrow> 'o \<Rightarrow> string + bytes) \<Rightarrow> ('o \<Rightarrow> bytes \<Rightarrow> bool) \<Rightarrow> ('c \<Rightarrow> bytes) \<Rightarrow>
   mail_stamp \<Rightarrow> string \<Rightarrow> string \<Rightarrow> 'c \<Rightarrow> 'f option \<Rightarrow> 'o \<Rightarrow> bytes res" where
  "build_cheque_delivery_email b64 encode matches txid_of st from to cheque sender_fact_chain send_origin =
     (if \<not> matches send_origin (txid_of cheque) then
        Inl (InvalidPayload (''cheque '' @ hex_encode (take 4 (txid_of cheque)) @
          '': send_origin does not reproduce the cheque txid '' @ [CHR 0xE2, CHR 0x80, CHR 0x94] @
          '' refusing to deliver a cheque the receiver would reject (KI#241 F-2)''))
      else build_delivery b64 st ''cheque CBOR: '' from to ''cheque'' (encode cheque sender_fact_chain send_origin))"

definition vbc_delivery_magic :: string where
  "vbc_delivery_magic = ''AXIOM-VBC-SIG/1''"

definition build_vbc_delivery_email :: "mail_env \<Rightarrow> mail_stamp \<Rightarrow> string \<Rightarrow> string \<Rightarrow> string \<Rightarrow> bytes res" where
  "build_vbc_delivery_email env st from to signature =
     build_delivery (me_b64_encode env) st ''vbc delivery CBOR: '' from to ''vbc''
       (me_encode_vbc env (vbc_delivery_magic, signature))"

definition try_parse_vbc_delivery :: "mail_env \<Rightarrow> bytes \<Rightarrow> string option" where
  "try_parse_vbc_delivery env raw = do {
     msg \<leftarrow> me_mime env raw;
     body \<leftarrow> mv_text msg;
     b \<leftarrow> ok_opt (me_b64_decode env (remove_ws body));
     (magic, signature) \<leftarrow> ok_opt (me_decode_vbc env b);
     if magic = vbc_delivery_magic then Some signature else None
   }"

definition build_scar_consent_email ::
  "(bytes \<Rightarrow> string) \<Rightarrow> ('n \<Rightarrow> string + bytes) \<Rightarrow> mail_stamp \<Rightarrow> string \<Rightarrow> string \<Rightarrow> 'n \<Rightarrow> bytes res" where
  "build_scar_consent_email b64 encode st from to notification =
     build_delivery b64 st ''scar consent CBOR: '' from to ''scar_consent'' (encode notification)"

definition peer_audit_body_cbor :: "mail_env \<Rightarrow> antie_payload \<Rightarrow> string + bytes" where
  "peer_audit_body_cbor env payload = me_encode_payload env payload"

definition build_peer_audit_request_email :: "mail_env \<Rightarrow> mail_stamp \<Rightarrow> string \<Rightarrow> string \<Rightarrow> string \<Rightarrow> bytes res" where
  "build_peer_audit_request_email env st from to request =
     build_delivery (me_b64_encode env) st ''CBOR encode: '' from to ''peer_audit_request''
       (peer_audit_body_cbor env (empty_payload\<lparr>pl_peer_audit_request := Some request\<rparr>))"

definition build_peer_audit_response_email :: "mail_env \<Rightarrow> mail_stamp \<Rightarrow> string \<Rightarrow> string \<Rightarrow> string \<Rightarrow> bytes res" where
  "build_peer_audit_response_email env st from to response =
     build_delivery (me_b64_encode env) st ''CBOR encode: '' from to ''peer_audit_response''
       (peer_audit_body_cbor env (empty_payload\<lparr>pl_peer_audit_response := Some response\<rparr>))"

definition build_peer_audit_not_held_email :: "mail_env \<Rightarrow> mail_stamp \<Rightarrow> string \<Rightarrow> string \<Rightarrow> string \<Rightarrow> bytes res" where
  "build_peer_audit_not_held_email env st from to not_held =
     build_delivery (me_b64_encode env) st ''CBOR encode: '' from to ''peer_audit_response''
       (peer_audit_body_cbor env (empty_payload\<lparr>pl_peer_audit_not_held := Some not_held\<rparr>))"

section \<open>Lines of a built mail\<close>

definition clean :: "string \<Rightarrow> bool" where
  "clean s = (CHR 0x0D \<notin> set s \<and> CHR 0x0A \<notin> set s)"

lemma clean_append [simp]: "clean (a @ b) \<longleftrightarrow> clean a \<and> clean b"
  by (auto simp: clean_def)

lemma clean_Cons [simp]: "clean (c # b) \<longleftrightarrow> c \<noteq> CHR 0x0D \<and> c \<noteq> CHR 0x0A \<and> clean b"
  by (auto simp: clean_def)

lemma clean_Nil [simp]: "clean []"
  by (simp add: clean_def)

lemma clean_sanitize [simp]: "clean (sanitize_header s)"
  by (simp add: clean_def sanitize_header_def)

lemma sanitize_clean [simp]: "clean s \<Longrightarrow> sanitize_header s = s"
  by (auto simp: clean_def sanitize_header_def filter_id_conv)

lemma clean_dec [simp]: "clean (dec n)"
  using dec_digits [of "CHR 0x0D" n] dec_digits [of "CHR 0x0A" n]
  by (auto simp: clean_def is_digit_def byte_val_def)

lemma chomp_clean [simp]: "clean l \<Longrightarrow> chomp_cr l = l"
  by (cases l rule: rev_cases) (auto simp: chomp_cr_def)

lemma split_mail_text:
  "(\<And>l. l \<in> set ls \<Longrightarrow> clean l) \<Longrightarrow>
   split_on CHR 0x0A (mail_text ls) = map (\<lambda>l. l @ [CHR 0x0D]) ls @ [] # []"
proof (induction ls)
  case (Cons l ls)
  then have "CHR 0x0A \<notin> set (l @ [CHR 0x0D])" by (simp add: clean_def)
  from split_on_append [OF this, of "mail_text ls"] Cons show ?case
    by (simp add: mail_text_def crlf_def)
qed (simp add: mail_text_def)

lemma str_lines_mail_text:
  "(\<And>l. l \<in> set ls \<Longrightarrow> clean l) \<Longrightarrow> str_lines (mail_text ls) = ls"
  by (simp add: str_lines_def Let_def split_mail_text chomp_cr_def cong: map_cong)

lemma validate_email_addr_ok:
  "validate_email_addr a = Inr () \<longleftrightarrow> clean a \<and> CHR ''@'' \<in> set a"
  using contains_str_char [of "CHR ''@''" a]
  by (auto simp: validate_email_addr_def clean_def)

lemma takeWhile_lines:
  "(\<And>l. l \<in> set hs \<Longrightarrow> l \<noteq> []) \<Longrightarrow> takeWhile (\<lambda>l. l \<noteq> []) (hs @ [] # rest) = hs"
  by (simp add: takeWhile_append2)

section \<open>Properties\<close>

text \<open>C18.   A reply cannot grow a header: its lines are exactly the six or seven header lines antie writes, one
  blank line and the encoded payload, whatever bytes the requester put into the type, the request id or
  the reference it answers.\<close>

lemma build_response_lines:
  assumes "build_response b64 encode st to from message_type request_id in_reply_to payload = Inr msg"
    and "clean (ms_id_uuid st)" and "clean (ms_date st)" and "\<And>b. clean (b64 b)"
  shows "str_lines msg =
     [''From: '' @ from, ''To: '' @ to,
      ''Subject: AXIOM/'' @ sanitize_header message_type @ ''/'' @ sanitize_header request_id,
      ''Message-ID: <'' @ ms_id_uuid st @ ''.'' @ dec (ms_timestamp st) @ ''@axiom>'', ''Date: '' @ ms_date st,
      ''Content-Type: text/plain; charset=utf-8''] @
     (case in_reply_to of None \<Rightarrow> [] | Some r \<Rightarrow> [''In-Reply-To: '' @ sanitize_header r]) @
     [[], b64 (projr (encode payload))]"
proof -
  from assms(1) obtain c where v: "validate_email_addr to = Inr ()" "validate_email_addr from = Inr ()"
    and c: "encode payload = Inr c"
    and m: "msg = mail_text (mail_lines st from to
       (''AXIOM/'' @ sanitize_header message_type @ ''/'' @ sanitize_header request_id) in_reply_to (b64 c))"
    unfolding build_response_def by (auto simp: res_simps)
  from v have ft: "clean from" "clean to" by (simp_all add: validate_email_addr_ok)
  have "str_lines msg = mail_lines st from to
       (''AXIOM/'' @ sanitize_header message_type @ ''/'' @ sanitize_header request_id) in_reply_to (b64 c)"
    unfolding m by (rule str_lines_mail_text)
      (use assms ft in \<open>auto simp: mail_lines_def message_id_of_def split: option.splits\<close>)
  then show ?thesis using ft c by (simp add: mail_lines_def message_id_of_def)
qed

text \<open>The same for a requester who writes a line break and a forged header into the request id.\<close>

lemma build_response_lines_witness:
  "str_lines (projr (build_response (\<lambda>b. ''QUJD'') (\<lambda>p. Inr [CHR 0xA0])
     \<lparr>ms_id_uuid = ''1b4e28ba'', ms_subject_uuid = ''2fa1'', ms_timestamp = 1700000000,
      ms_date = ''Tue, 14 Nov 2023 22:13:20 +0000''\<rparr> ''w@x'' ''v@y'' ''query''
     (''r1'' @ crlf @ ''Bcc: e@z'') None ())) =
   [''From: v@y'', ''To: w@x'', ''Subject: AXIOM/query/r1Bcc: e@z'',
    ''Message-ID: <1b4e28ba.1700000000@axiom>'', ''Date: Tue, 14 Nov 2023 22:13:20 +0000'',
    ''Content-Type: text/plain; charset=utf-8'', [], ''QUJD'']"
proof -
  let ?st = "\<lparr>ms_id_uuid = ''1b4e28ba'', ms_subject_uuid = ''2fa1'', ms_timestamp = 1700000000,
      ms_date = ''Tue, 14 Nov 2023 22:13:20 +0000''\<rparr>"
  have v: "validate_email_addr ''w@x'' = Inr ()" "validate_email_addr ''v@y'' = Inr ()"
    by (simp_all add: validate_email_addr_ok)
  then have m: "build_response (\<lambda>b. ''QUJD'') (\<lambda>p. Inr [CHR 0xA0]) ?st ''w@x'' ''v@y'' ''query''
     (''r1'' @ crlf @ ''Bcc: e@z'') None () = Inr (projr (build_response (\<lambda>b. ''QUJD'') (\<lambda>p. Inr [CHR 0xA0]) ?st
     ''w@x'' ''v@y'' ''query'' (''r1'' @ crlf @ ''Bcc: e@z'') None ()))"
    by (simp only: build_response_def res_bind_simps map_err_simps sum.sel)
  have d: "dec 1700000000 = ''1700000000''" by (simp add: dec.simps digit_def char_of_def bit_0)
  show ?thesis
    by (subst build_response_lines [OF m]) (simp_all add: d sanitize_header_def crlf_def)
qed

text \<open>A subject is read exactly when it is \<open>AXIOM/\<close>, a type without a slash, a slash and a request id; the id
  may hold further slashes and is kept whole, so the subject of a reply reads back to what was put in.\<close>

lemma parse_subject_iff:
  "parse_subject s = Inr (mt, rid) \<longleftrightarrow> s = ''AXIOM/'' @ mt @ ''/'' @ rid \<and> CHR ''/'' \<notin> set mt"
proof
  assume "parse_subject s = Inr (mt, rid)"
  then obtain r rs where p: "split_on CHR ''/'' s = ''AXIOM'' # mt # r # rs" and rid: "rid = join_str ''/'' (r # rs)"
    by (auto simp: parse_subject_def split: list.splits if_splits)
  have "s = join_str ''/'' (''AXIOM'' # mt # r # rs)" using join_split [of "CHR ''/''" s] p by simp
  moreover have "CHR ''/'' \<notin> set mt" using split_on_parts [of mt "CHR ''/''" s] p by simp
  ultimately show "s = ''AXIOM/'' @ mt @ ''/'' @ rid \<and> CHR ''/'' \<notin> set mt" using rid by simp
next
  assume a: "s = ''AXIOM/'' @ mt @ ''/'' @ rid \<and> CHR ''/'' \<notin> set mt"
  have "split_on CHR ''/'' (''AXIOM'' @ CHR ''/'' # mt @ CHR ''/'' # rid) = ''AXIOM'' # mt # split_on CHR ''/'' rid"
    using a by (subst split_on_append, simp, subst split_on_append) simp_all
  then have q: "split_on CHR ''/'' s = ''AXIOM'' # mt # split_on CHR ''/'' rid" using a by simp
  obtain r rs where r: "split_on CHR ''/'' rid = r # rs" by (cases "split_on CHR ''/'' rid") auto
  have "join_str ''/'' (r # rs) = rid" using join_split [of "CHR ''/''" rid] r by simp
  then show "parse_subject s = Inr (mt, rid)" by (simp add: parse_subject_def q r)
qed

text \<open>The wire format of a body follows from the message type alone.  A client request is read only from an
  envelope, and an encrypted one only with a key that opens it; a validator-to-validator message is read only
  raw.  There is no other way to a payload, and the payload keeps the very bytes it was decoded from.\<close>

lemma wire_format_mandatory:
  "decode_payload_with_context env message_type body decryptor = Inr payload \<longleftrightarrow>
   (\<exists>decoded inner p. me_b64_decode env (remove_ws body) = Inr decoded \<and> decoded \<noteq> [] \<and>
      (if message_type \<in> {''peer_audit_request'', ''peer_audit_response'', ''fanout_relay''}
       then me_envelope env decoded = None \<and> inner = decoded
       else me_envelope env decoded = Some (EnvPlain inner) \<or>
            (\<exists>c open_it. me_envelope env decoded = Some (EnvEncrypted c) \<and> decryptor = Some open_it \<and>
               open_it c = Inr inner)) \<and>
      me_decode_payload env inner = Inr p \<and> payload = p\<lparr>pl_raw_ump_body := inner\<rparr>)"
proof -
  have u: "unwrap_by_format env message_type decoded decryptor = Inr inner \<longleftrightarrow>
     (if message_type \<in> {''peer_audit_request'', ''peer_audit_response'', ''fanout_relay''}
       then me_envelope env decoded = None \<and> inner = decoded
       else me_envelope env decoded = Some (EnvPlain inner) \<or>
            (\<exists>c open_it. me_envelope env decoded = Some (EnvEncrypted c) \<and> decryptor = Some open_it \<and>
               open_it c = Inr inner))" for decoded inner
    unfolding unwrap_by_format_def requires_envelope_def raw_cbor_message_types_def Let_def
    by (auto simp: res_simps split: option.splits envelope.splits)
  show ?thesis
    unfolding decode_payload_with_context_def decode_payload_inner_def Let_def
    by (simp only: res_simps u if_split_eq1 sum.inject sum.distinct) blast
qed

lemma hex_lower: "is_hex_digit c \<Longrightarrow> is_hex_digit (lower_char c) \<and> \<not> is_upper (lower_char c)"
  by (auto simp: is_hex_digit_def lower_char_def is_upper_def is_digit_def)

lemma custody_id_Some:
  "custody_id raw = Some i \<longleftrightarrow> length (trim raw) = 64 \<and> list_all is_hex_digit (trim raw) \<and> i = ascii_lower (trim raw)"
  by (auto simp: custody_id_def Let_def)

lemma custody_id_chars:
  "custody_id raw = Some i \<Longrightarrow> length i = 64 \<and> list_all (\<lambda>c. is_hex_digit c \<and> \<not> is_upper c) i"
  by (clarsimp simp: custody_id_Some ascii_lower_def list_all_iff hex_lower)

lemma parsed_custody:
  assumes "parse_email_outcome env raw decryptor = Inr (POk email)" and "me_mime env raw = Some message"
  shows "em_custody email = find_custody (mv_header_raw message) custody_headers"
proof (cases "parse_subject (opt_or [] (mv_subject message))")
  case (Inl x) with assms show ?thesis by (simp add: parse_email_outcome_def)
next
  case s: (Inr q)
  obtain mt rid where q: "q = (mt, rid)" by (cases q)
  show ?thesis
  proof (cases "extract_body message")
    case (Inl x) with assms s q show ?thesis by (simp add: parse_email_outcome_def)
  next
    case b: (Inr body)
    show ?thesis
    proof (cases "decode_payload_with_context env mt body decryptor")
      case (Inl x) with assms s q b show ?thesis by (cases x) (auto simp add: parse_email_outcome_def)
    next
      case (Inr x) with assms s q b show ?thesis by (auto simp add: parse_email_outcome_def)
    qed
  qed
qed

text \<open>  The custody row of a mail: set exactly when the one custody header is present with 64 hex digits around
  which only white space stands, and then to their lower-case form, so that what later becomes a directory
  name consists of lower-case hex digits alone.\<close>

lemma custody_row_exact:
  assumes "parse_email_outcome env raw decryptor = Inr (POk email)" and "me_mime env raw = Some message"
  shows "(em_custody email = Some (name, i) \<longleftrightarrow>
       name = ''X-TOT-Session'' \<and>
       (\<exists>v. mv_header_raw message ''X-TOT-Session'' = Some v \<and> length (trim v) = 64 \<and>
          list_all is_hex_digit (trim v) \<and> i = ascii_lower (trim v))) \<and>
     (em_custody email = Some (name, i) \<longrightarrow>
       length i = 64 \<and> list_all (\<lambda>c. is_hex_digit c \<and> \<not> is_upper c) i)"
proof -
  have e: "em_custody email = Some (name, i) \<longleftrightarrow> name = ''X-TOT-Session'' \<and>
      (\<exists>v. mv_header_raw message ''X-TOT-Session'' = Some v \<and> custody_id v = Some i)"
    unfolding parsed_custody [OF assms] by (auto simp: custody_headers_def split: option.splits bind_splits)
  from e custody_id_chars show ?thesis unfolding custody_id_Some by blast
qed

definition sample_view :: mail_view where
  "sample_view = \<lparr>mv_from = Some ''w@x'', mv_to = Some ''v@y'', mv_message_id = None,
     mv_header_raw = (\<lambda>h. if h = ''X-TOT-Session'' then Some ('' '' @ replicate 64 CHR ''A'') else None),
     mv_subject = Some ''AXIOM/query/r/1'', mv_text = Some ''oA=='', mv_html = None\<rparr>"

definition sample_mail_env :: mail_env where
  "sample_mail_env = \<lparr>me_mime = (\<lambda>b. Some sample_view), me_b64_encode = (\<lambda>b. ''oA==''),
     me_b64_decode = (\<lambda>s. Inr [CHR 0xA0]), me_envelope = (\<lambda>b. Some (EnvPlain [CHR 0xA0])),
     me_decode_payload = (\<lambda>b. Inr empty_payload), me_encode_payload = (\<lambda>p. Inr [CHR 0xA0]),
     me_decode_vbc = (\<lambda>b. Inl []), me_encode_vbc = (\<lambda>v. Inr [])\<rparr>"

lemma sample_parse:
  "\<exists>email. parse_email_outcome sample_mail_env raw d = Inr (POk email) \<and>
     em_message_type email = ''query'' \<and> em_request_id email = ''r/1'' \<and> em_from email = ''w@x''"
proof -
  have s: "parse_subject ''AXIOM/query/r/1'' = Inr (''query'', ''r/1'')" by (simp add: parse_subject_iff)
  show ?thesis
    by (simp add: parse_email_outcome_def sample_mail_env_def sample_view_def s extract_body_def opt_or_def
        decode_payload_with_context_def unwrap_by_format_def requires_envelope_def raw_cbor_message_types_def
        decode_payload_inner_def)
qed

lemma trim_space_hex: "trim (CHR '' '' # replicate 64 CHR ''A'') = replicate 64 CHR ''A''"
  by code_simp

lemma custody_row_exact_witness:
  "\<exists>email. parse_email_outcome sample_mail_env [] None = Inr (POk email) \<and>
     em_custody email = Some (''X-TOT-Session'', replicate 64 CHR ''a'')"
proof -
  obtain email where p: "parse_email_outcome sample_mail_env [] None = Inr (POk email)"
    using sample_parse by blast
  have m: "me_mime sample_mail_env [] = Some sample_view" by (simp add: sample_mail_env_def)
  have h: "mv_header_raw sample_view ''X-TOT-Session'' = Some (CHR '' '' # replicate 64 CHR ''A'')"
    by (simp add: sample_view_def)
  have l: "ascii_lower (replicate 64 CHR ''A'') = replicate 64 CHR ''a''"
    by (simp add: ascii_lower_def lower_char_def is_upper_def byte_val_def char_of_def bit_0)
  have x: "is_hex_digit CHR ''A''" by (simp add: is_hex_digit_def byte_val_def)
  have "em_custody email = Some (''X-TOT-Session'', replicate 64 CHR ''a'')"
    using x by (subst custody_row_exact [OF p m, THEN conjunct1]) (auto simp: h trim_space_hex l list_all_iff)
  with p show ?thesis by blast
qed

lemma byte_share_sum: "0 < length body \<Longrightarrow> (\<Sum>c \<in> set body. byte_share body c) = 1"
proof -
  assume "0 < length body"
  moreover have "(\<Sum>c \<in> set body. real (count_list body c)) = real (length body)"
    using sum_count_set [of body "set body"] by (simp flip: of_nat_sum)
  ultimately show ?thesis by (simp add: byte_share_def flip: sum_divide_distrib)
qed

lemma share_term: "0 < p \<Longrightarrow> - (p * log 2 p) \<le> p * 8 + (1 / 256 - p) / ln 2" for p :: real
proof -
  assume p: "0 < p"
  have "ln (1 / (256 * p)) \<le> 1 / (256 * p) - 1" using p by (intro ln_le_minus_one) simp
  then have "p * ln (1 / (256 * p)) \<le> p * (1 / (256 * p) - 1)" using p by (intro mult_left_mono) auto
  also have "\<dots> = 1 / 256 - p" using p by (simp add: field_simps)
  finally have "p * (- ln 256 - ln p) \<le> 1 / 256 - p" using p by (simp add: ln_div ln_mult)
  moreover have "ln (256::real) = 8 * ln 2" using ln_realpow [of 2 8] by simp
  ultimately have "- (p * ln p) \<le> p * (8 * ln 2) + (1 / 256 - p)" by (simp add: algebra_simps)
  then have "- (p * ln p) / ln 2 \<le> (p * (8 * ln 2) + (1 / 256 - p)) / ln 2"
    by (intro divide_right_mono) auto
  then show ?thesis by (simp add: log_def add_divide_distrib)
qed

text \<open>The entropy that decides what a pull carrier drops unread lies between 0 and 8 bits per byte, and a body
  of fewer than 64 bytes scores 8, so no threshold up to 8 ever drops a short mail.\<close>

lemma entropy_bounds:
  "0 \<le> body_entropy_bits raw \<and> body_entropy_bits raw \<le> 8 \<and>
   (if length (entropy_body raw) < 64 then body_entropy_bits raw = 8 else True)"
proof (cases "length (entropy_body raw) < 64")
  case False
  define b where "b = entropy_body raw"
  have b: "0 < length b" using False by (auto simp: b_def)
  have pos: "0 < byte_share b c \<and> byte_share b c \<le> 1" if "c \<in> set b" for c
  proof -
    have "count_list b c \<noteq> 0" using that by (simp add: count_list_0_iff)
    moreover have "count_list b c \<le> length b" by (rule count_le_length)
    ultimately show ?thesis using b by (simp add: byte_share_def)
  qed
  have e: "body_entropy_bits raw = (\<Sum>c \<in> set b. - (byte_share b c * log 2 (byte_share b c)))"
    using False unfolding body_entropy_bits_def b_def Let_def by simp
  have "0 \<le> - (byte_share b c * log 2 (byte_share b c))" if "c \<in> set b" for c
    using pos [OF that] by (simp add: mult_nonneg_nonpos)
  then have lo: "0 \<le> body_entropy_bits raw" unfolding e by (rule sum_nonneg)
  have "body_entropy_bits raw \<le> (\<Sum>c \<in> set b. byte_share b c * 8 + (1 / 256 - byte_share b c) / ln 2)"
    unfolding e by (intro sum_mono share_term) (simp add: pos)
  also have "\<dots> = 8 + (real (card (set b)) / 256 - 1) / ln 2"
    using byte_share_sum [OF b]
    by (simp add: sum.distrib sum_subtractf flip: sum_distrib_right sum_divide_distrib)
  also have "\<dots> \<le> 8"
  proof -
    have "card (set b) \<le> card (UNIV :: char set)" by (intro card_mono) auto
    then have "real (card (set b)) / 256 - 1 \<le> 0" by (simp add: card_UNIV_char)
    then show ?thesis by (simp add: divide_nonpos_pos)
  qed
  finally show ?thesis using lo False by simp
qed (simp add: body_entropy_bits_def)

end
