(* ===== verification/CoreTypes.thy ===== *)
theory CoreTypes
  imports Email Errors
begin

text \<open>
  The values the gateway exchanges with Core and Lambda (\<open>antie/src/gateway.rs\<close>, \<open>core_ipc.rs\<close>, \<open>lambda_client.rs\<close>).  The
  types belong to the core crate; each is a record of the fields the sources read or fill in, and what they
  only pass on is one field in its encoded form.
\<close>

section \<open>Values of the core crate\<close>

record transaction =
  tx_sender_wallet_id :: string
  tx_receiver_wallet_id :: string
  tx_receiver_address :: "string option"
  tx_client_pk :: bytes
  tx_client_sig :: bytes
  tx_rest :: bytes

record witness_request =
  wr_request_id :: string
  wr_requester_address :: string
  wr_transaction :: transaction
  wr_claimed_balance :: nat
  wr_prev_receipts :: "bytes list"
  wr_overlapped_signatures :: "bytes list"
  wr_sender_fact_chain :: "bytes option"
  wr_fact_certificates :: bytes
  wr_produced_state_id :: "bytes option"
  wr_commitment_hash :: "bytes option"
  wr_rest :: bytes

text \<open>A cheque and a consent notification: the transaction id and the rest.\<close>

type_synonym artifact = "bytes \<times> bytes"

record witness_reply =
  wp_cheque :: "artifact option"
  wp_sender_fact_chain :: "bytes option"
  wp_vbc_signature :: "string option"
  wp_scar_consent :: "artifact option"
  wp_outbound_peer_audit :: "(string \<times> string) option"
  wp_leg :: bytes

record redeem_request =
  rd_request_id :: string
  rd_rest :: bytes

record redeem_reply =
  rr_success :: bool
  rr_witness_signature :: "bytes option"
  rr_new_state_id :: "bytes option"
  rr_commitment_hash :: "bytes option"
  rr_state_hash :: "bytes option"
  rr_receipt_commitment :: "bytes option"
  rr_receiver_fact_chain :: "bytes option"
  rr_fact_signature :: "bytes option"
  rr_error_response :: "error_response option"

record ack_request =
  ak_request_id :: string
  ak_txid :: bytes
  ak_validator_pk :: bytes
  ak_sender_sig :: bytes
  ak_client_pk :: bytes

record stored_wallet =
  sw_balance :: nat
  sw_wallet_seq :: nat
  sw_public_key :: bytes
  sw_state_id :: bytes
  sw_private_rest :: bytes

record genesis_reply =
  gr_success :: bool
  gr_state_id :: "bytes option"
  gr_error :: "string option"

record vbc_sign_request =
  vs_request_id :: string
  vs_sphincs_pk_hex :: string
  vs_dilithium_pk_hex :: string
  vs_ed25519_pk_hex :: string
  vs_pgp_fingerprint_hex :: string
  vs_proof_cap :: string
  vs_node_name :: string

record vbc_sign_commit = vbc_sign_request +
  vs_issued_at :: nat
  vs_expires_at :: nat
  vs_chain_depth :: nat
  vs_issuer_set_hex :: "string list"

record peer_audit_reply =
  pa_success :: bool
  pa_error :: "string option"
  pa_requester_email :: "string option"
  pa_response :: "string option"
  pa_not_held :: "string option"

text \<open>The reply to a client, \<open>ResponsePayload\<close>.\<close>

record response_payload =
  rp_success :: bool
  rp_request_id :: string
  rp_witness_signature :: "bytes option"
  rp_cheque_for_receiver :: "artifact option"
  rp_scar_consent_voucher :: "bytes option"
  rp_produced_state_id :: "bytes option"
  rp_receipt :: "bytes option"
  rp_commitment_hash :: "bytes option"
  rp_state_hash :: "bytes option"
  rp_receipt_commitment :: "bytes option"
  rp_txid :: "bytes option"
  rp_state_id :: "bytes option"
  rp_error :: "string option"
  rp_rejection_code :: "string option"
  rp_error_response :: "error_response option"
  rp_validator_hints :: "bytes list"
  rp_sender_fact_chain :: "bytes option"
  rp_receiver_fact_chain :: "bytes option"
  rp_fact_signature :: "bytes option"
  rp_query_data :: "cbor_value option"
  rp_sender_state :: "bytes option"
  rp_vbc_signature :: "string option"

text \<open>A reply with nothing but the verdict and the request it answers; every handler fills in what it has.\<close>

definition plain_reply :: "bool \<Rightarrow> string \<Rightarrow> response_payload" where
  "plain_reply success request_id = \<lparr>rp_success = success, rp_request_id = request_id, rp_witness_signature = None,
     rp_cheque_for_receiver = None, rp_scar_consent_voucher = None, rp_produced_state_id = None, rp_receipt = None,
     rp_commitment_hash = None, rp_state_hash = None, rp_receipt_commitment = None, rp_txid = None, rp_state_id = None,
     rp_error = None, rp_rejection_code = None, rp_error_response = None, rp_validator_hints = [],
     rp_sender_fact_chain = None, rp_receiver_fact_chain = None, rp_fact_signature = None, rp_query_data = None,
     rp_sender_state = None, rp_vbc_signature = None\<rparr>"

section \<open>Lambda\<close>

text \<open>The calls, as they appear in the record of what the gateway did.\<close>

datatype lambda_call =
    CallWitness witness_request
  | CallRedeem redeem_request
  | CallAck ack_request
  | CallQuery bytes
  | CallStatus string
  | CallGenesis string bytes nat "string list option" "bytes option"
  | CallVbcSign vbc_sign_request
  | CallVbcCommit vbc_sign_commit
  | CallSetAuth string bytes bytes
  | CallPeerAudit string
  | CallPeerResponse string
  | CallPeerNotHeld string
  | CallDispatchFailed string string

text \<open>What Lambda answers to the k-th interaction; the validator status is given with its known validators.\<close>

record lambda_port =
  la_witness :: "nat \<Rightarrow> witness_request \<Rightarrow> witness_reply res"
  la_redeem :: "nat \<Rightarrow> redeem_request \<Rightarrow> redeem_reply res"
  la_ack :: "nat \<Rightarrow> ack_request \<Rightarrow> (bool \<times> error_response option) res"
  la_query :: "nat \<Rightarrow> bytes \<Rightarrow> (bool \<times> stored_wallet option) res"
  la_status :: "nat \<Rightarrow> string \<Rightarrow> (bytes list \<times> bytes) res"
  la_genesis :: "nat \<Rightarrow> string \<Rightarrow> bytes \<Rightarrow> nat \<Rightarrow> string list option \<Rightarrow> bytes option \<Rightarrow> genesis_reply res"
  la_vbc_sign :: "nat \<Rightarrow> vbc_sign_request \<Rightarrow> (bool \<times> string option) res"
  la_vbc_commit :: "nat \<Rightarrow> vbc_sign_commit \<Rightarrow> (bool \<times> string option) res"
  la_set_auth :: "nat \<Rightarrow> string \<Rightarrow> bytes \<Rightarrow> bytes \<Rightarrow> (bool \<times> string option) res"
  la_peer_audit :: "nat \<Rightarrow> string \<Rightarrow> peer_audit_reply res"
  la_tell :: "nat \<Rightarrow> lambda_call \<Rightarrow> unit res"

end
