(* ===== verification/LambdaLink.thy ===== *)
theory LambdaLink
  imports Config CoreTypes
begin

text \<open>
  The client of Lambda (\<open>antie/src/lambda_client.rs\<close>): framing, the exchange over a connection and over the pipe of the
  child process, and one operation per request.  The child and the remote server are parameters: what they
  write for a frame, how late, and whether they end.  The CBOR codec of the envelopes is a parameter too.
\<close>

section \<open>Frames\<close>

definition be32 :: "nat \<Rightarrow> bytes" where
  "be32 n = [char_of (n div 2 ^ 24 mod 256), char_of (n div 2 ^ 16 mod 256), char_of (n div 2 ^ 8 mod 256), char_of (n mod 256)]"

fun of_be32 :: "bytes \<Rightarrow> nat" where
  "of_be32 [a, b, c, d] = byte_val a * 2 ^ 24 + byte_val b * 2 ^ 16 + byte_val c * 2 ^ 8 + byte_val d"
| "of_be32 _ = 0"

text \<open>The length is cast to 32 bits.\<close>

definition framed :: "bytes \<Rightarrow> bytes" where
  "framed buf = be32 (length buf) @ buf"

definition max_response :: nat where
  "max_response = 10 * 1024 * 1024"

section \<open>The child\<close>

text \<open>What the child does with a request frame: what it writes in time, what it writes only after the five minutes
  that the timed reads wait, and whether it ends then.\<close>

record served =
  sv_now :: bytes
  sv_late :: bytes
  sv_dies :: bool

type_synonym child_program = "nat \<Rightarrow> bytes \<Rightarrow> served"

text \<open>The running child as the client sees it: the bytes in the pipe, the bytes still to come, and the frames it was sent.\<close>

record child =
  ch_pipe :: bytes
  ch_late :: bytes
  ch_dead :: bool
  ch_asked :: nat

definition fresh_child :: child where
  "fresh_child = \<lparr>ch_pipe = [], ch_late = [], ch_dead = False, ch_asked = 0\<rparr>"

text \<open>A write to a child that ended fails; one that has still to write an earlier answer and then ends takes the frame and
  never answers it.  Late bytes of an earlier answer come before the new answer.\<close>

definition send_frame :: "child_program \<Rightarrow> bytes \<Rightarrow> child \<Rightarrow> unit res \<times> child" where
  "send_frame prog buf ch =
     (if ch_dead ch \<and> ch_late ch = [] then (Inl (IoError ''Broken pipe''), ch)
      else if ch_dead ch then (Inr (), ch\<lparr>ch_pipe := ch_pipe ch @ ch_late ch, ch_late := []\<rparr>)
      else
        (let s = prog (ch_asked ch) (framed buf) in
         (Inr (), ch\<lparr>ch_pipe := ch_pipe ch @ ch_late ch @ sv_now s, ch_late := sv_late s, ch_dead := sv_dies s,
            ch_asked := ch_asked ch + 1\<rparr>)))"

text \<open>What waiting for bytes gives.\<close>

datatype 'a wait = Got 'a | Eof | TimedOut | Hung

text \<open>\<open>read_exact\<close> on the pipe.  A read under the timeout that does not complete loses what it had taken; one without it waits
  for as long as the child lives.\<close>

definition read_pipe :: "bool \<Rightarrow> nat \<Rightarrow> child \<Rightarrow> bytes wait \<times> child" where
  "read_pipe timed n ch =
     (if n \<le> length (ch_pipe ch) then (Got (take n (ch_pipe ch)), ch\<lparr>ch_pipe := drop n (ch_pipe ch)\<rparr>)
      else if timed then
        (if ch_dead ch \<and> ch_late ch = [] then (Eof, ch\<lparr>ch_pipe := []\<rparr>) else (TimedOut, ch\<lparr>ch_pipe := []\<rparr>))
      else
        (let avail = ch_pipe ch @ ch_late ch in
         if n \<le> length avail then (Got (take n avail), ch\<lparr>ch_pipe := drop n avail, ch_late := []\<rparr>)
         else (if ch_dead ch then Eof else Hung, ch\<lparr>ch_pipe := [], ch_late := []\<rparr>)))"

text \<open>\<open>read_exact\<close> through a \<open>BufReader\<close> of 8 KiB that is dropped after the answer: it takes from the pipe up to a
  buffer's worth of whatever is there.  The result is what was read, what is left in the buffer and in the pipe.\<close>

definition buffer_size :: nat where
  "buffer_size = 8 * 1024"

function buffered_exact :: "nat \<Rightarrow> bytes \<Rightarrow> bytes \<Rightarrow> (bytes \<times> bytes \<times> bytes) option" where
  "buffered_exact n buf pipe =
     (if n \<le> length buf then Some (take n buf, drop n buf, pipe)
      else if buf \<noteq> [] then map_option (\<lambda>(b, r). (buf @ b, r)) (buffered_exact (n - length buf) [] pipe)
      else if pipe = [] then None
      else if buffer_size \<le> n then
        (if n \<le> length pipe then Some (take n pipe, [], drop n pipe) else None)
      else buffered_exact n (take buffer_size pipe) (drop buffer_size pipe))"
  by pat_completeness auto
termination
proof (relation "measures [\<lambda>(n, buf, pipe). length buf + length pipe, \<lambda>(n, buf, pipe). n + (if buf = [] then length pipe else 0)]", goal_cases)
  case (3 n buf pipe)
  then show ?case by (cases pipe) (auto simp: buffer_size_def)
qed auto

section \<open>Reading an answer\<close>

text \<open>A call returns a result or never returns.\<close>

datatype 'a answer = Returned "'a res" | Blocked

datatype reader = Timed | Plain | Buffered

definition too_large :: antie_error where
  "too_large = LambdaError ''Response too large''"

text \<open>The reads of \<open>send_raw_request\<close>, under the timeout, and of the witness call.\<close>

fun wait_error :: "bool \<Rightarrow> 'a wait \<Rightarrow> 'b answer" where
  "wait_error timed Hung = Blocked"
| "wait_error timed TimedOut = Returned (Inl (LambdaError (''Lambda subprocess response timeout (300s) '' @ [CHR 0xE2, CHR 0x80, CHR 0x94] @
     '' pipe state now'' @ replicate 26 CHR '' '' @ ''suspect, restart this validator pair'')))"
| "wait_error timed w = Returned (Inl (if timed then LambdaError ''Subprocess read error: early eof'' else IoError ''early eof''))"

definition read_unbuffered :: "bool \<Rightarrow> child \<Rightarrow> bytes answer \<times> child" where
  "read_unbuffered timed ch =
     (case read_pipe timed 4 ch of
        (Got len_buf, c1) \<Rightarrow>
          (if max_response < of_be32 len_buf then
             (Returned (Inl (if timed then LambdaError ''Subprocess read error: Response too large'' else too_large)), c1)
           else
             (case read_pipe timed (of_be32 len_buf) c1 of
                (Got b, c2) \<Rightarrow> (Returned (Inr b), c2)
              | (w, c2) \<Rightarrow> (wait_error timed w, c2)))
      | (w, c1) \<Rightarrow> (wait_error timed w, c1))"

text \<open>The reads of the redeem, acknowledgement and genesis calls; late bytes are taken as if they were there.\<close>

definition read_buffered :: "child \<Rightarrow> bytes answer \<times> child" where
  "read_buffered ch =
     (let stuck = (if ch_dead ch then Returned (Inl (IoError ''early eof'')) else Blocked);
          left = (\<lambda>pipe. ch\<lparr>ch_pipe := pipe, ch_late := []\<rparr>) in
      case buffered_exact 4 [] (ch_pipe ch @ ch_late ch) of
        None \<Rightarrow> (stuck, left [])
      | Some (len_buf, buf, pipe) \<Rightarrow>
          (if max_response < of_be32 len_buf then (Returned (Inl too_large), left pipe)
           else
             (case buffered_exact (of_be32 len_buf) buf pipe of
                None \<Rightarrow> (stuck, left [])
              | Some (b, _, pipe') \<Rightarrow> (Returned (Inr b), left pipe'))))"

definition read_answer :: "reader \<Rightarrow> child \<Rightarrow> bytes answer \<times> child" where
  "read_answer r ch = (case r of Timed \<Rightarrow> read_unbuffered True ch | Plain \<Rightarrow> read_unbuffered False ch | Buffered \<Rightarrow> read_buffered ch)"

section \<open>Connections\<close>

text \<open>What a server writes in answer to what it was sent, and whether it then closes; an error of the write.\<close>

record peer =
  pe_bytes :: bytes
  pe_closes :: bool

text \<open>The flag of \<open>Dialed\<close> says whether the bytes go through TLS.\<close>

datatype dial = DialTimeout | DialError string | Dialed "string + unit" "bool \<Rightarrow> bytes \<Rightarrow> string + peer"

definition tcp_answer :: "bool \<Rightarrow> peer \<Rightarrow> bytes answer" where
  "tcp_answer capped p =
     (let stuck = (if pe_closes p then Returned (Inl (IoError ''early eof'')) else Blocked);
          b = pe_bytes p in
      if length b < 4 then stuck
      else
        (let n = of_be32 (take 4 b) in
         if capped \<and> max_response < n then Returned (Inl too_large)
         else if length b < 4 + n then stuck
         else Returned (Inr (take n (drop 4 b)))))"

definition tcp_exchange :: "bool \<Rightarrow> bool \<Rightarrow> dial \<Rightarrow> bytes res \<Rightarrow> bytes answer" where
  "tcp_exchange tls capped d encoded =
     (case d of
        DialTimeout \<Rightarrow> Returned (Inl (LambdaError ''Connection timeout''))
      | DialError e \<Rightarrow> Returned (Inl (LambdaError (''Connect failed: '' @ e)))
      | Dialed shake talk \<Rightarrow>
          (case (if tls then shake else Inr ()) of
             Inl e \<Rightarrow> Returned (Inl (LambdaError (''TLS handshake: '' @ e)))
           | Inr _ \<Rightarrow>
               (case res_bind encoded (\<lambda>buf. map_err IoError (talk tls (framed buf))) of
                  Inl e \<Rightarrow> Returned (Inl e)
                | Inr p \<Rightarrow> tcp_answer capped p)))"

section \<open>Requests and responses\<close>

datatype gateway_request =
    ReqWitness witness_request
  | ReqRedeem redeem_request
  | ReqAck ack_request
  | ReqInitGenesis string bytes nat "string list option" "bytes option"
  | ReqSetCarriers string "string list"
  | ReqVbcSign vbc_sign_request
  | ReqVbcCommit vbc_sign_commit
  | ReqSetAuthHash string bytes bytes
  | ReqFanOutDedup string bytes
  | ReqFanOutMark string bytes
  | ReqPeerAudit string string
  | ReqDispatchFailed string string string
  | ReqNotHeld string string
  | ReqPeerResponse string string
  | ReqQuery string bytes
  | ReqStatus string
  | ReqHealth string

datatype gateway_response =
    WitnessResult witness_reply
  | RedeemResult redeem_reply
  | AckResult bool "error_response option"
  | InitGenesisResult genesis_reply
  | SetCarriersAck nat
  | VbcSignResult "bool \<times> string option"
  | VbcCommitResult "bool \<times> string option"
  | SetAuthHashResult "bool \<times> string option"
  | FanOutDedupResult bool
  | FanOutMarkResult
  | PeerAuditResult peer_audit_reply
  | StateResult "bool \<times> stored_wallet option"
  | StatusResult "bytes list \<times> bytes"
  | ErrorResult error_response
  | OtherResult

record lambda_env =
  le_prog :: child_program
  le_dial :: "nat \<Rightarrow> dial"
  le_encode :: "gateway_request \<Rightarrow> string + bytes"
  le_decode :: "bytes \<Rightarrow> string + gateway_response"
  le_uuid :: "nat \<Rightarrow> string"

text \<open>How the client reaches Lambda; the last field of a connection is the name TLS checks, when it is configured.\<close>

datatype transport = TcpTo string nat "string option" | Piped

record lambda_client =
  lc_transport :: transport
  lc_child :: "child option"
  lc_locked :: bool
  lc_uris :: "string list option"
  lc_tick :: nat

definition ipc_encode :: "lambda_env \<Rightarrow> gateway_request \<Rightarrow> bytes res" where
  "ipc_encode env r = map_err (\<lambda>e. LambdaError (''CBOR encode error: '' @ e)) (le_encode env r)"

definition ipc_decode :: "lambda_env \<Rightarrow> bytes \<Rightarrow> gateway_response res" where
  "ipc_decode env b = map_err (\<lambda>e. LambdaError (''CBOR decode error: '' @ e)) (le_decode env b)"

text \<open>The response a call expects; an error frame is Lambda's verdict, anything else is reported under \<open>what\<close>.\<close>

definition expect :: "string \<Rightarrow> (gateway_response \<Rightarrow> 'a option) \<Rightarrow> gateway_response \<Rightarrow> 'a res" where
  "expect what pick r =
     (case pick r of
        Some a \<Rightarrow> Inr a
      | None \<Rightarrow> (case r of ErrorResult er \<Rightarrow> Inl (LambdaRejected er) | _ \<Rightarrow> Inl (LambdaError what)))"

section \<open>An exchange\<close>

text \<open>The lock of the child is held over the exchange, so a call that never returns blocks those behind it.\<close>

definition piped_exchange :: "lambda_env \<Rightarrow> reader \<Rightarrow> bytes res \<Rightarrow> lambda_client \<Rightarrow> bytes answer \<times> lambda_client" where
  "piped_exchange env r encoded lc =
     (if lc_locked lc then (Blocked, lc)
      else case lc_child lc of
          None \<Rightarrow> (Returned (Inl (LambdaError ''Lambda subprocess not running'')), lc)
        | Some ch \<Rightarrow>
            (case encoded of
               Inl e \<Rightarrow> (Returned (Inl e), lc)
             | Inr buf \<Rightarrow>
                 (case send_frame (le_prog env) buf ch of
                    (Inl e, c1) \<Rightarrow> (Returned (Inl e), lc\<lparr>lc_child := Some c1\<rparr>)
                  | (Inr _, c1) \<Rightarrow>
                      (case read_answer r c1 of
                         (a, c2) \<Rightarrow> (a, lc\<lparr>lc_child := Some c2, lc_locked := (a = Blocked)\<rparr>)))))"

text \<open>The exchanges over a connection: the witness call goes through TLS when it is configured, and the calls for genesis and
  acknowledgement do not bound the response.\<close>

definition send_request_framed :: "bool \<Rightarrow> dial \<Rightarrow> bytes res \<Rightarrow> bytes answer" where
  "send_request_framed tls d encoded = tcp_exchange tls True d encoded"

definition send_redeem_request_tcp :: "dial \<Rightarrow> bytes res \<Rightarrow> bytes answer" where
  "send_redeem_request_tcp d encoded = tcp_exchange False True d encoded"

definition send_genesis_request_tcp :: "dial \<Rightarrow> bytes res \<Rightarrow> bytes answer" where
  "send_genesis_request_tcp d encoded = tcp_exchange False False d encoded"

definition send_ack_request_tcp :: "dial \<Rightarrow> bytes res \<Rightarrow> bytes answer" where
  "send_ack_request_tcp d encoded = tcp_exchange False False d encoded"

text \<open>The witness call as it was before TLS, kept and not called.\<close>

definition send_witness_request_tcp :: "dial \<Rightarrow> bytes res \<Rightarrow> bytes answer" where
  "send_witness_request_tcp d encoded = tcp_exchange False True d encoded"

text \<open>The exchanges with the child.\<close>

definition send_witness_request_stdio :: "lambda_env \<Rightarrow> bytes res \<Rightarrow> lambda_client \<Rightarrow> bytes answer \<times> lambda_client" where
  "send_witness_request_stdio env encoded lc = piped_exchange env Plain encoded lc"

definition send_redeem_request_stdio :: "lambda_env \<Rightarrow> bytes res \<Rightarrow> lambda_client \<Rightarrow> bytes answer \<times> lambda_client" where
  "send_redeem_request_stdio env encoded lc = piped_exchange env Buffered encoded lc"

definition send_genesis_request_stdio :: "lambda_env \<Rightarrow> bytes res \<Rightarrow> lambda_client \<Rightarrow> bytes answer \<times> lambda_client" where
  "send_genesis_request_stdio env encoded lc = piped_exchange env Buffered encoded lc"

definition send_ack_request_stdio :: "lambda_env \<Rightarrow> bytes res \<Rightarrow> lambda_client \<Rightarrow> bytes answer \<times> lambda_client" where
  "send_ack_request_stdio env encoded lc = piped_exchange env Buffered encoded lc"

text \<open>The choice by the mode of the client.\<close>

definition exchange :: "lambda_env \<Rightarrow> (bool \<Rightarrow> dial \<Rightarrow> bytes answer) \<Rightarrow> (lambda_client \<Rightarrow> bytes answer \<times> lambda_client) \<Rightarrow>
    lambda_client \<Rightarrow> bytes answer \<times> lambda_client" where
  "exchange env over_tcp over_pipe lc =
     (case lc_transport lc of
        TcpTo address timeout sni \<Rightarrow> (over_tcp (sni \<noteq> None) (le_dial env (lc_tick lc)), lc\<lparr>lc_tick := lc_tick lc + 1\<rparr>)
      | Piped \<Rightarrow> over_pipe lc)"

lemmas exchange_defs = exchange_def send_request_framed_def send_redeem_request_tcp_def send_genesis_request_tcp_def
  send_ack_request_tcp_def send_witness_request_stdio_def send_redeem_request_stdio_def send_genesis_request_stdio_def
  send_ack_request_stdio_def

fun on_bytes :: "(bytes \<Rightarrow> 'a res) \<Rightarrow> bytes answer \<times> lambda_client \<Rightarrow> 'a answer \<times> lambda_client" where
  "on_bytes f (Returned r, lc) = (Returned (res_bind r f), lc)"
| "on_bytes f (Blocked, lc) = (Blocked, lc)"

definition send_raw_request :: "lambda_env \<Rightarrow> gateway_request \<Rightarrow> lambda_client \<Rightarrow> bytes answer \<times> lambda_client" where
  "send_raw_request env req lc =
     (case ipc_encode env req of
        Inl e \<Rightarrow> (Returned (Inl e), lc)
      | Inr buf \<Rightarrow> exchange env (\<lambda>_ d. tcp_exchange False True d (Inr buf)) (piped_exchange env Timed (Inr buf)) lc)"

definition send_expecting ::
  "lambda_env \<Rightarrow> string \<Rightarrow> (gateway_response \<Rightarrow> 'a option) \<Rightarrow> gateway_request \<Rightarrow> lambda_client \<Rightarrow> 'a answer \<times> lambda_client" where
  "send_expecting env what pick req lc =
     on_bytes (\<lambda>b. res_bind (ipc_decode env b) (expect what pick)) (send_raw_request env req lc)"

section \<open>The calls\<close>

definition parse_witness_response :: "lambda_env \<Rightarrow> bytes \<Rightarrow> witness_reply res" where
  "parse_witness_response env b =
     res_bind (ipc_decode env b) (expect ''Unexpected response type for witness'' (\<lambda>r. case r of WitnessResult w \<Rightarrow> Some w | _ \<Rightarrow> None))"

definition send_witness_request :: "lambda_env \<Rightarrow> witness_request \<Rightarrow> lambda_client \<Rightarrow> witness_reply answer \<times> lambda_client" where
  "send_witness_request env request lc =
     (let encoded = ipc_encode env (ReqWitness request) in
      on_bytes (parse_witness_response env)
        (exchange env (\<lambda>tls d. send_request_framed tls d encoded) (send_witness_request_stdio env encoded) lc))"

definition parse_redeem_response :: "lambda_env \<Rightarrow> bytes \<Rightarrow> redeem_reply res" where
  "parse_redeem_response env b =
     res_bind (ipc_decode env b) (expect ''Unexpected response type for redeem'' (\<lambda>r. case r of RedeemResult w \<Rightarrow> Some w | _ \<Rightarrow> None))"

definition send_redeem_request :: "lambda_env \<Rightarrow> redeem_request \<Rightarrow> lambda_client \<Rightarrow> redeem_reply answer \<times> lambda_client" where
  "send_redeem_request env request lc =
     (let encoded = ipc_encode env (ReqRedeem request) in
      on_bytes (parse_redeem_response env)
        (exchange env (\<lambda>_ d. send_redeem_request_tcp d encoded) (send_redeem_request_stdio env encoded) lc))"

definition parse_genesis_response :: "lambda_env \<Rightarrow> bytes \<Rightarrow> genesis_reply res" where
  "parse_genesis_response env b =
     res_bind (map_err (\<lambda>e. LambdaError (''Parse genesis response failed: '' @ display_error e)) (ipc_decode env b))
       (expect ''Unexpected response type for genesis'' (\<lambda>r. case r of InitGenesisResult g \<Rightarrow> Some g | _ \<Rightarrow> None))"

definition send_genesis_dev_request ::
  "lambda_env \<Rightarrow> string \<Rightarrow> bytes \<Rightarrow> nat \<Rightarrow> string list option \<Rightarrow> bytes option \<Rightarrow> lambda_client \<Rightarrow> genesis_reply answer \<times> lambda_client" where
  "send_genesis_dev_request env request_id public_key balance group_members auth_hash lc =
     (let encoded = ipc_encode env (ReqInitGenesis request_id public_key balance group_members auth_hash) in
      on_bytes (parse_genesis_response env)
        (exchange env (\<lambda>_ d. send_genesis_request_tcp d encoded) (send_genesis_request_stdio env encoded) lc))"

text \<open>An error frame becomes a reply that reports it.\<close>

definition parse_ack_response :: "lambda_env \<Rightarrow> bytes \<Rightarrow> (bool \<times> error_response option) res" where
  "parse_ack_response env b =
     res_bind (map_err (\<lambda>e. LambdaError (''Parse ACK response failed: '' @ display_error e)) (ipc_decode env b))
       (\<lambda>r. case r of
          AckResult ok er \<Rightarrow> Inr (ok, er)
        | ErrorResult er \<Rightarrow> Inr (False, Some er)
        | _ \<Rightarrow> Inl (LambdaError ''Unexpected response type for ACK''))"

definition send_ack_request :: "lambda_env \<Rightarrow> ack_request \<Rightarrow> lambda_client \<Rightarrow> (bool \<times> error_response option) answer \<times> lambda_client" where
  "send_ack_request env request lc =
     (let encoded = ipc_encode env (ReqAck request) in
      on_bytes (parse_ack_response env)
        (exchange env (\<lambda>_ d. send_ack_request_tcp d encoded) (send_ack_request_stdio env encoded) lc))"

text \<open>The list is remembered before it is sent.\<close>

definition send_set_carriers_request :: "lambda_env \<Rightarrow> string \<Rightarrow> string list \<Rightarrow> lambda_client \<Rightarrow> nat answer \<times> lambda_client" where
  "send_set_carriers_request env request_id carriers lc =
     send_expecting env ''Unexpected response type for set_carriers'' (\<lambda>r. case r of SetCarriersAck n \<Rightarrow> Some n | _ \<Rightarrow> None)
       (ReqSetCarriers request_id carriers) (lc\<lparr>lc_uris := Some carriers\<rparr>)"

definition send_vbc_sign_request :: "lambda_env \<Rightarrow> vbc_sign_request \<Rightarrow> lambda_client \<Rightarrow> (bool \<times> string option) answer \<times> lambda_client" where
  "send_vbc_sign_request env payload = send_expecting env ''Unexpected response type for vbc_sign_request''
     (\<lambda>r. case r of VbcSignResult v \<Rightarrow> Some v | _ \<Rightarrow> None) (ReqVbcSign payload)"

definition send_vbc_sign_commit :: "lambda_env \<Rightarrow> vbc_sign_commit \<Rightarrow> lambda_client \<Rightarrow> (bool \<times> string option) answer \<times> lambda_client" where
  "send_vbc_sign_commit env payload = send_expecting env ''Unexpected response type for vbc_sign_commit''
     (\<lambda>r. case r of VbcCommitResult v \<Rightarrow> Some v | _ \<Rightarrow> None) (ReqVbcCommit payload)"

definition send_set_auth_hash_request ::
  "lambda_env \<Rightarrow> string \<Rightarrow> bytes \<Rightarrow> bytes \<Rightarrow> lambda_client \<Rightarrow> (bool \<times> string option) answer \<times> lambda_client" where
  "send_set_auth_hash_request env request_id public_key auth_hash = send_expecting env
     ''Unexpected response type for set_auth_hash'' (\<lambda>r. case r of SetAuthHashResult v \<Rightarrow> Some v | _ \<Rightarrow> None)
     (ReqSetAuthHash request_id public_key auth_hash)"

definition send_fanout_dedup :: "lambda_env \<Rightarrow> bytes \<Rightarrow> lambda_client \<Rightarrow> bool answer \<times> lambda_client" where
  "send_fanout_dedup env diffusion_id = send_expecting env ''Unexpected response type for fanout_dedup''
     (\<lambda>r. case r of FanOutDedupResult b \<Rightarrow> Some b | _ \<Rightarrow> None)
     (ReqFanOutDedup (''dedup-'' @ hex_encode (take 8 diffusion_id)) diffusion_id)"

definition send_fanout_mark :: "lambda_env \<Rightarrow> bytes \<Rightarrow> lambda_client \<Rightarrow> unit answer \<times> lambda_client" where
  "send_fanout_mark env diffusion_id = send_expecting env ''Unexpected response for fanout_mark''
     (\<lambda>r. case r of FanOutMarkResult \<Rightarrow> Some () | _ \<Rightarrow> None)
     (ReqFanOutMark (''mark-'' @ hex_encode (take 8 diffusion_id)) diffusion_id)"

text \<open>Calls under a fresh id, drawn before the request is sent.\<close>

definition under_uuid :: "lambda_env \<Rightarrow> (string \<Rightarrow> lambda_client \<Rightarrow> 'a answer \<times> lambda_client) \<Rightarrow> lambda_client \<Rightarrow> 'a answer \<times> lambda_client" where
  "under_uuid env f lc = f (le_uuid env (lc_tick lc)) (lc\<lparr>lc_tick := lc_tick lc + 1\<rparr>)"

definition send_peer_audit_request :: "lambda_env \<Rightarrow> string \<Rightarrow> lambda_client \<Rightarrow> peer_audit_reply answer \<times> lambda_client" where
  "send_peer_audit_request env request = under_uuid env (\<lambda>i. send_expecting env
     ''Unexpected response type for peer_audit_request'' (\<lambda>r. case r of PeerAuditResult v \<Rightarrow> Some v | _ \<Rightarrow> None)
     (ReqPeerAudit i request))"

text \<open>A call whose response only has to decode.\<close>

definition tell :: "lambda_env \<Rightarrow> gateway_request \<Rightarrow> lambda_client \<Rightarrow> unit answer \<times> lambda_client" where
  "tell env req lc = on_bytes (\<lambda>b. res_bind (ipc_decode env b) (\<lambda>_. Inr ())) (send_raw_request env req lc)"

definition send_peer_audit_dispatch_failed :: "lambda_env \<Rightarrow> string \<Rightarrow> string \<Rightarrow> lambda_client \<Rightarrow> unit answer \<times> lambda_client" where
  "send_peer_audit_dispatch_failed env target err = under_uuid env (\<lambda>i. tell env (ReqDispatchFailed i target err))"

definition send_peer_audit_not_held :: "lambda_env \<Rightarrow> string \<Rightarrow> lambda_client \<Rightarrow> unit answer \<times> lambda_client" where
  "send_peer_audit_not_held env not_held = under_uuid env (\<lambda>i. tell env (ReqNotHeld i not_held))"

definition send_peer_audit_response :: "lambda_env \<Rightarrow> string \<Rightarrow> lambda_client \<Rightarrow> unit answer \<times> lambda_client" where
  "send_peer_audit_response env response = under_uuid env (\<lambda>i. tell env (ReqPeerResponse i response))"

definition send_query_request :: "lambda_env \<Rightarrow> bytes \<Rightarrow> lambda_client \<Rightarrow> (bool \<times> stored_wallet option) answer \<times> lambda_client" where
  "send_query_request env wallet_pk = under_uuid env (\<lambda>i. send_expecting env ''Unexpected response type for query''
     (\<lambda>r. case r of StateResult v \<Rightarrow> Some v | _ \<Rightarrow> None) (ReqQuery i wallet_pk))"

definition send_validator_status_request :: "lambda_env \<Rightarrow> string \<Rightarrow> lambda_client \<Rightarrow> (bytes list \<times> bytes) answer \<times> lambda_client" where
  "send_validator_status_request env request_id = send_expecting env ''Unexpected response type for VSP''
     (\<lambda>r. case r of StatusResult v \<Rightarrow> Some v | _ \<Rightarrow> None) (ReqStatus request_id)"

text \<open>The health check of a connection sends a request and reads the length of the response only, and waits without a timeout; of a child it asks
  whether there is one.\<close>

definition health_check :: "lambda_env \<Rightarrow> lambda_client \<Rightarrow> bool answer \<times> lambda_client" where
  "health_check env lc =
     (case lc_transport lc of
        TcpTo address timeout sni \<Rightarrow>
          (let lc1 = lc\<lparr>lc_tick := lc_tick lc + 1\<rparr> in
           case le_dial env (lc_tick lc) of
             DialTimeout \<Rightarrow> (Blocked, lc1)
           | DialError e \<Rightarrow> (Returned (Inl (LambdaError (''Connect failed: '' @ e))), lc1)
           | Dialed shake talk \<Rightarrow>
               (case res_bind (ipc_encode env (ReqHealth (''health-'' @ le_uuid env (lc_tick lc)))) (\<lambda>buf.
                    map_err IoError (talk False (framed buf))) of
                  Inl e \<Rightarrow> (Returned (Inl e), lc1)
                | Inr p \<Rightarrow>
                    (if 4 \<le> length (pe_bytes p) then (Returned (Inr True), lc1)
                     else if pe_closes p then (Returned (Inr False), lc1) else (Blocked, lc1))))
      | Piped \<Rightarrow> (if lc_locked lc then (Blocked, lc) else (Returned (Inr (lc_child lc \<noteq> None)), lc)))"

section \<open>Construction\<close>

definition with_mode :: "transport \<Rightarrow> lambda_client" where
  "with_mode t = \<lparr>lc_transport = t, lc_child = None, lc_locked = False, lc_uris = None, lc_tick = 0\<rparr>"

text \<open>\<open>roots\<close> loads the certificates of a file, \<open>name_ok\<close> checks a server name.\<close>

definition new_tcp_tls ::
  "(string \<Rightarrow> string + unit) \<Rightarrow> (string \<Rightarrow> string + unit) \<Rightarrow> string \<Rightarrow> nat \<Rightarrow> string \<Rightarrow> string option \<Rightarrow> lambda_client res" where
  "new_tcp_tls roots name_ok address timeout_secs server_name ca_cert_path =
     res_bind (case ca_cert_path of None \<Rightarrow> Inr () | Some p \<Rightarrow> map_err (\<lambda>e. ConfigError e) (roots p)) (\<lambda>_.
     res_bind (map_err (\<lambda>e. ConfigError (''TLS server name '' @ [CHR 0x27] @ server_name @ [CHR 0x27] @ '': '' @ e)) (name_ok server_name)) (\<lambda>_.
     Inr (with_mode (TcpTo address timeout_secs (Some server_name)))))"

definition new_tcp :: "string \<Rightarrow> nat \<Rightarrow> lambda_client" where
  "new_tcp address timeout_secs = with_mode (TcpTo address timeout_secs None)"

text \<open>The paths of the child are arguments of the steps that start it.\<close>

definition new_subprocess :: "string \<Rightarrow> string \<Rightarrow> lambda_client" where
  "new_subprocess binary_path config_path = with_mode Piped"

datatype lambda_connection_mode = ConnTcp string nat | ConnSubprocess string string

definition from_config :: "lambda_connection_mode \<Rightarrow> lambda_client" where
  "from_config mode =
     (case mode of
        ConnTcp address timeout_secs \<Rightarrow> new_tcp address timeout_secs
      | ConnSubprocess binary_path config_path \<Rightarrow> new_subprocess binary_path config_path)"

text \<open>How the gateway makes its client.\<close>

definition client_of_config :: "(string \<Rightarrow> string + unit) \<Rightarrow> (string \<Rightarrow> string + unit) \<Rightarrow> lambda_config \<Rightarrow> lambda_client res" where
  "client_of_config roots name_ok c =
     (case c of
        LcTcp address timeout_secs tls_server_name tls_ca \<Rightarrow>
          (case tls_server_name of
             Some server_name \<Rightarrow> new_tcp_tls roots name_ok address timeout_secs server_name tls_ca
           | None \<Rightarrow> Inr (new_tcp address timeout_secs))
      | LcSubprocess binary_path config_path \<Rightarrow> Inr (new_subprocess binary_path config_path))"

end
