(* ===== verification/Supervision.thy ===== *)
theory Supervision
  imports LambdaLink
begin

text \<open>
  The supervision of the Lambda child (\<open>supervision_loop\<close>, \<open>start\<close> and \<open>stop\<close> of \<open>antie/src/lambda_client.rs\<close>) as a step
  relation: the loop, a caller of \<open>stop\<close>, the child and the clock take their steps in any order; a step is what the
  code does between two points where others can run.
\<close>

section \<open>Starting and stopping\<close>

text \<open>What the system gives a spawn: the variable that names the log, opening the log for appending, duplicating its
  descriptor, and the spawn itself; the directory of the log is created best-effort.\<close>

record spawn_env =
  sp_log_var :: "string option"
  sp_open_log :: "string \<Rightarrow> string + unit"
  sp_clone_log :: "string + unit"
  sp_spawn :: "string \<Rightarrow> string \<Rightarrow> string + unit"

definition lambda_log_path :: "string option \<Rightarrow> string \<Rightarrow> string" where
  "lambda_log_path var config_path =
     (case var of
        Some p \<Rightarrow> p
      | None \<Rightarrow> (case Option.bind (path_parent config_path) path_parent of
            Some p \<Rightarrow> path_join (path_join p ''logs'') ''lambda.log''
          | None \<Rightarrow> ''lambda.log''))"

definition spawn_child_into :: "spawn_env \<Rightarrow> string \<Rightarrow> string \<Rightarrow> child option \<Rightarrow> unit res \<times> child option" where
  "spawn_child_into se binary_path config_path guard =
     (let log = lambda_log_path (sp_log_var se) config_path in
      case res_bind (map_err (\<lambda>e. LambdaError (''Failed to open Lambda log '' @ debug_str log @ '': '' @ e)) (sp_open_log se log)) (\<lambda>_.
           res_bind (map_err (\<lambda>e. LambdaError (''Failed to clone Lambda log fd: '' @ e)) (sp_clone_log se)) (\<lambda>_.
           map_err (\<lambda>e. LambdaError (''Failed to spawn Lambda: '' @ e)) (sp_spawn se binary_path config_path))) of
        Inl e \<Rightarrow> (Inl e, guard)
      | Inr _ \<Rightarrow> (Inr (), Some fresh_child))"

text \<open>\<open>start\<close> with the flag of the health endpoint; nothing happens for a connection or when the child runs.\<close>

definition start_lambda :: "spawn_env \<Rightarrow> string \<Rightarrow> string \<Rightarrow> lambda_client \<times> bool \<Rightarrow> unit res \<times> lambda_client \<times> bool" where
  "start_lambda se binary_path config_path = (\<lambda>(lc, alive).
     if lc_transport lc \<noteq> Piped \<or> lc_child lc \<noteq> None then (Inr (), lc, alive)
     else (case spawn_child_into se binary_path config_path (lc_child lc) of
         (Inl e, c) \<Rightarrow> (Inl e, lc\<lparr>lc_child := c\<rparr>, alive)
       | (Inr _, c) \<Rightarrow> (Inr (), lc\<lparr>lc_child := c\<rparr>, True)))"

text \<open>The result is the shutdown flag and the client.\<close>

definition stop_lambda :: "lambda_client \<Rightarrow> bool \<times> lambda_client" where
  "stop_lambda lc = (True, if lc_transport lc = Piped then lc\<lparr>lc_child := None\<rparr> else lc)"

section \<open>State and steps\<close>

datatype child_state = NoChild | Running | Exited

text \<open>Where the loop is: asleep for a poll or a back-off, awake, having looked at the child, past the second check of
  the shutdown flag, or returned.\<close>

datatype loop_pc = Asleep | Awake | Looked bool | BackingOff | Cleared | Gone

datatype stop_pc = NotAsked | Flagged | Stopped

record supervised =
  su_pc :: loop_pc
  su_child :: child_state
  su_alive :: bool
  su_down :: bool
  su_stop :: stop_pc
  su_backoff :: nat
  su_now :: nat
  su_last_spawn :: nat
  su_wake :: nat
  su_attempts :: "nat list"
  su_late :: nat
  su_uris :: bool
  su_pushes :: nat

definition respawn_poll_secs :: nat where "respawn_poll_secs = 2"
definition respawn_backoff_min_secs :: nat where "respawn_backoff_min_secs = 1"
definition respawn_backoff_max_secs :: nat where "respawn_backoff_max_secs = 60"
definition respawn_stable_secs :: nat where "respawn_stable_secs = 60"

definition rest_a_poll :: "supervised \<Rightarrow> supervised" where
  "rest_a_poll s = s\<lparr>su_pc := Asleep, su_wake := su_now s + respawn_poll_secs\<rparr>"

definition double_backoff :: "supervised \<Rightarrow> supervised" where
  "double_backoff s = s\<lparr>su_backoff := min (su_backoff s * 2) respawn_backoff_max_secs\<rparr>"

text \<open>The loop starts with the child that \<open>start\<close> has spawned.\<close>

definition loop_start :: "nat \<Rightarrow> bool \<Rightarrow> supervised" where
  "loop_start now uris = rest_a_poll \<lparr>su_pc = Asleep, su_child = Running, su_alive = True, su_down = False, su_stop = NotAsked,
     su_backoff = respawn_backoff_min_secs, su_now = now, su_last_spawn = now, su_wake = 0, su_attempts = [], su_late = 0,
     su_uris = uris, su_pushes = 0\<rparr>"

definition attempt :: "supervised \<Rightarrow> supervised" where
  "attempt s = s\<lparr>su_attempts := su_now s # su_attempts s, su_late := su_late s + (if su_down s then 1 else 0)\<rparr>"

inductive sup_step :: "supervised \<Rightarrow> supervised \<Rightarrow> bool" where
  clock: "sup_step s (s\<lparr>su_now := su_now s + 1\<rparr>)"
| dies: "su_child s = Running \<Longrightarrow> sup_step s (s\<lparr>su_child := Exited\<rparr>)"
| wakes: "su_pc s = Asleep \<Longrightarrow> su_wake s \<le> su_now s \<Longrightarrow> sup_step s (s\<lparr>su_pc := if su_down s then Gone else Awake\<rparr>)"
| finds_none: "su_pc s = Awake \<Longrightarrow> su_child s = NoChild \<Longrightarrow> sup_step s (s\<lparr>su_pc := Looked True\<rparr>)"
| reaps: "su_pc s = Awake \<Longrightarrow> su_child s = Exited \<Longrightarrow> sup_step s (s\<lparr>su_child := NoChild, su_pc := Looked True\<rparr>)"
| finds_running: "su_pc s = Awake \<Longrightarrow> su_child s = Running \<Longrightarrow> sup_step s (s\<lparr>su_pc := Looked False\<rparr>)"
| wait_fails: "su_pc s = Awake \<Longrightarrow> su_child s \<noteq> NoChild \<Longrightarrow> sup_step s (s\<lparr>su_pc := Looked False\<rparr>)"
| is_well: "su_pc s = Looked False \<Longrightarrow>
    sup_step s (rest_a_poll (s\<lparr>su_alive := True,
      su_backoff := if respawn_stable_secs \<le> su_now s - su_last_spawn s then respawn_backoff_min_secs else su_backoff s\<rparr>))"
| is_lost: "su_pc s = Looked True \<Longrightarrow>
    sup_step s (s\<lparr>su_alive := False, su_pc := BackingOff, su_wake := su_now s + su_backoff s\<rparr>)"
| backs_off: "su_pc s = BackingOff \<Longrightarrow> su_wake s \<le> su_now s \<Longrightarrow> sup_step s (s\<lparr>su_pc := if su_down s then Gone else Cleared\<rparr>)"
| respawns: "su_pc s = Cleared \<Longrightarrow> su_child s = NoChild \<Longrightarrow>
    sup_step s (rest_a_poll (double_backoff ((attempt s)\<lparr>su_child := Running, su_last_spawn := su_now s, su_alive := True,
      su_pushes := su_pushes s + (if su_uris s then 1 else 0)\<rparr>)))"
| respawn_fails: "su_pc s = Cleared \<Longrightarrow> su_child s = NoChild \<Longrightarrow> sup_step s (rest_a_poll (double_backoff (attempt s)))"
| finds_child: "su_pc s = Cleared \<Longrightarrow> su_child s \<noteq> NoChild \<Longrightarrow> sup_step s (rest_a_poll (double_backoff s))"
| stop_flags: "su_stop s = NotAsked \<Longrightarrow> sup_step s (s\<lparr>su_down := True, su_stop := Flagged\<rparr>)"
| stop_kills: "su_stop s = Flagged \<Longrightarrow> sup_step s (s\<lparr>su_child := NoChild, su_stop := Stopped\<rparr>)"

definition supervised_run :: "supervised \<Rightarrow> supervised \<Rightarrow> bool" where
  "supervised_run = sup_step\<^sup>*\<^sup>*"

inductive_cases sup_stepE: "sup_step s t"

lemmas sup_defs = rest_a_poll_def double_backoff_def attempt_def respawn_poll_secs_def respawn_backoff_min_secs_def
  respawn_backoff_max_secs_def respawn_stable_secs_def

lemma run_induct [consumes 1, case_names start step]:
  assumes "supervised_run (loop_start now uris) s" "P (loop_start now uris)" "\<And>s t. P s \<Longrightarrow> sup_step s t \<Longrightarrow> P t"
  shows "P s"
  using assms unfolding supervised_run_def by (induction rule: rtranclp_induct) auto

section \<open>Invariants\<close>

fun spaced_by :: "nat \<Rightarrow> nat list \<Rightarrow> bool" where
  "spaced_by d (a # b # rest) = (b + d \<le> a \<and> spaced_by d (b # rest))"
| "spaced_by d _ = True"

text \<open>Back-off and attempts: an attempt is preceded by a poll and a back-off.\<close>

definition rate_inv :: "supervised \<Rightarrow> bool" where
  "rate_inv s = (1 \<le> su_backoff s \<and> su_backoff s \<le> 60 \<and> spaced_by 3 (su_attempts s) \<and>
     (case su_attempts s of [] \<Rightarrow> True | a # _ \<Rightarrow> a \<le> su_now s \<and>
        (su_pc s = Asleep \<longrightarrow> a + 2 \<le> su_wake s) \<and>
        (su_pc s = Awake \<or> (\<exists>b. su_pc s = Looked b) \<longrightarrow> a + 2 \<le> su_now s) \<and>
        (su_pc s = BackingOff \<longrightarrow> a + 3 \<le> su_wake s) \<and>
        (su_pc s = Cleared \<longrightarrow> a + 3 \<le> su_now s)))"

lemma rate_inv_step: "rate_inv s \<Longrightarrow> sup_step s t \<Longrightarrow> rate_inv t"
  by (erule sup_stepE) (auto simp: rate_inv_def sup_defs split: list.splits)

text \<open>The shutdown: an attempt after the flag is possible only from beyond the second check, and so only once.\<close>

definition down_inv :: "supervised \<Rightarrow> bool" where
  "down_inv s = ((su_down s \<longleftrightarrow> su_stop s \<noteq> NotAsked) \<and> (su_pc s = Gone \<longrightarrow> su_down s) \<and>
     (su_late s = 0 \<or> su_late s = 1 \<and> su_down s \<and> su_pc s \<in> {Asleep, Gone}) \<and>
     (su_stop s = Stopped \<and> su_late s = 0 \<longrightarrow> su_child s = NoChild) \<and>
     (su_pc s \<in> {Looked True, BackingOff, Cleared} \<or> \<not> su_alive s \<longrightarrow> su_child s = NoChild))"

lemma down_inv_step: "down_inv s \<Longrightarrow> sup_step s t \<Longrightarrow> down_inv t"
  by (erule sup_stepE) (auto simp: down_inv_def sup_defs)

lemma reachable_inv:
  assumes "supervised_run (loop_start now uris) s"
  shows "rate_inv s \<and> down_inv s"
  using assms
proof (induction rule: run_induct)
  case start
  show ?case by (simp add: rate_inv_def down_inv_def loop_start_def sup_defs)
qed (auto intro: rate_inv_step down_inv_step)

section \<open>Properties\<close>


text \<open>Time alone.\<close>

fun ticks :: "nat \<Rightarrow> supervised \<Rightarrow> supervised" where
  "ticks 0 s = s"
| "ticks (Suc n) s = ticks n (s\<lparr>su_now := su_now s + 1\<rparr>)"

lemma run_ticks: "supervised_run s (ticks n s)"
proof (induction n arbitrary: s)
  case (Suc n)
  then show ?case
    using converse_rtranclp_into_rtranclp [of sup_step, OF sup_step.clock [of s]] by (simp add: supervised_run_def)
qed (simp add: supervised_run_def)

lemma run_step: "supervised_run r s \<Longrightarrow> sup_step s t \<Longrightarrow> supervised_run r t"
  unfolding supervised_run_def by (rule rtranclp.rtrancl_into_rtrancl)

lemma run_more: "supervised_run r s \<Longrightarrow> supervised_run r (ticks n s)"
  using run_ticks [of s n] by (auto simp: supervised_run_def)

text \<open>The child has died, the loop has backed off and passed the second check of the flag.\<close>

definition about_to_respawn :: supervised where
  "about_to_respawn = (let s = ticks 2 (loop_start 0 True)\<lparr>su_child := Exited\<rparr>;
       t = s\<lparr>su_pc := Awake\<rparr>; u = t\<lparr>su_child := NoChild, su_pc := Looked True\<rparr>;
       v = u\<lparr>su_alive := False, su_pc := BackingOff, su_wake := su_now u + su_backoff u\<rparr> in
     (ticks 1 v)\<lparr>su_pc := Cleared\<rparr>)"

lemma about_to_respawn_reachable: "supervised_run (loop_start 0 True) about_to_respawn"
proof -
  let ?s = "ticks 2 (loop_start 0 True)"
  note simps = loop_start_def sup_defs numeral_2_eq_2
  have 1: "supervised_run (loop_start 0 True) ?s" by (rule run_ticks)
  have 2: "supervised_run (loop_start 0 True) (?s\<lparr>su_child := Exited\<rparr>)"
    by (rule run_step [OF 1 sup_step.dies]) (simp add: simps)
  have 3: "supervised_run (loop_start 0 True) (?s\<lparr>su_child := Exited, su_pc := Awake\<rparr>)"
    using run_step [OF 2 sup_step.wakes] by (simp add: simps)
  have 4: "supervised_run (loop_start 0 True) (?s\<lparr>su_child := NoChild, su_pc := Looked True\<rparr>)"
    using run_step [OF 3 sup_step.reaps] by (simp add: simps)
  let ?v = "?s\<lparr>su_child := NoChild, su_alive := False, su_pc := BackingOff, su_wake := su_now ?s + su_backoff ?s\<rparr>"
  have 5: "supervised_run (loop_start 0 True) ?v"
    using run_step [OF 4 sup_step.is_lost] by (simp add: simps)
  have 6: "supervised_run (loop_start 0 True) (ticks 1 ?v)" by (rule run_more [OF 5])
  have 7: "supervised_run (loop_start 0 True) ((ticks 1 ?v)\<lparr>su_pc := Cleared\<rparr>)"
    using run_step [OF 6 sup_step.backs_off] by (simp add: simps)
  then show ?thesis by (simp add: about_to_respawn_def Let_def)
qed

text \<open>From there \<open>stop\<close> sets the flag and finds no child.\<close>

definition just_stopped :: supervised where
  "just_stopped = about_to_respawn\<lparr>su_down := True, su_child := NoChild, su_stop := Stopped\<rparr>"

lemma just_stopped_reachable: "supervised_run (loop_start 0 True) just_stopped"
proof -
  have "su_stop about_to_respawn = NotAsked"
    by (simp add: about_to_respawn_def Let_def loop_start_def sup_defs numeral_2_eq_2)
  then have "supervised_run (loop_start 0 True) (about_to_respawn\<lparr>su_down := True, su_stop := Flagged\<rparr>)"
    by (rule run_step [OF about_to_respawn_reachable sup_step.stop_flags])
  then show ?thesis
    using run_step [OF _ sup_step.stop_kills] by (fastforce simp: just_stopped_def)
qed

text \<open>After the flag nothing but the part of the loop behind the second check makes a child.\<close>

definition settled :: "nat \<Rightarrow> supervised \<Rightarrow> bool" where
  "settled n s = (su_down s \<and> su_stop s = Stopped \<and> su_pc s \<noteq> Cleared \<and> su_child s = NoChild \<and> su_late s = n)"

lemma settled_step: "settled n s \<Longrightarrow> sup_step s t \<Longrightarrow> settled n t"
  by (erule sup_stepE) (auto simp: settled_def sup_defs)

lemma settled_run: "supervised_run s t \<Longrightarrow> settled n s \<Longrightarrow> settled n t"
  unfolding supervised_run_def by (induction rule: rtranclp_induct) (auto intro: settled_step)

text \<open>C23. A stop is final but for one race.  Over any interleaving of the loop, the child and a caller of \<open>stop\<close>: once \<open>stop\<close> has returned there is no
  child, unless the loop had passed its second check of the flag before \<open>stop\<close> set it; then, and at most once, it
  spawns a child after the shutdown.  Where the loop is anywhere else, whatever runs from there on, there is no child and no
  attempt to make one ever again.\<close>

theorem stop_final:
  assumes "supervised_run (loop_start now uris) s" "su_stop s = Stopped"
  shows "su_late s \<le> 1 \<and> (su_late s = 0 \<longrightarrow> su_child s = NoChild) \<and>
    (su_pc s \<noteq> Cleared \<and> su_child s = NoChild \<and> supervised_run s t \<longrightarrow> su_child t = NoChild \<and> su_late t = su_late s)"
proof -
  have inv: "down_inv s" using reachable_inv [OF assms(1)] by blast
  then have "settled (su_late s) s" if "su_pc s \<noteq> Cleared" "su_child s = NoChild"
    using that assms(2) by (simp add: settled_def down_inv_def)
  then have "su_pc s \<noteq> Cleared \<and> su_child s = NoChild \<and> supervised_run s t \<longrightarrow> settled (su_late s) t"
    using settled_run by blast
  then show ?thesis using inv assms(2) by (auto simp: down_inv_def settled_def)
qed

text \<open>That race loses a child: there is a run in which \<open>stop\<close> has returned, the supervision loop has returned too, and a child of Lambda that
  nobody will ever reap or stop is running.\<close>

lemma orphan_possible:
  "\<exists>s. supervised_run (loop_start 0 True) s \<and> su_stop s = Stopped \<and> su_pc s = Gone \<and> su_child s = Running"
proof -
  have a: "su_pc just_stopped = Cleared" "su_child just_stopped = NoChild" "su_stop just_stopped = Stopped" "su_down just_stopped"
    by (simp_all add: just_stopped_def about_to_respawn_def Let_def)
  obtain d where d: "supervised_run (loop_start 0 True) d" "su_pc d = Asleep" "su_child d = Running" "su_stop d = Stopped" "su_down d"
    "su_wake d = su_now d + 2"
    using run_step [OF just_stopped_reachable sup_step.respawns] a by (simp add: sup_defs)
  let ?e = "ticks 2 d"
  have e: "su_pc ?e = Asleep" "su_child ?e = Running" "su_stop ?e = Stopped" "su_down ?e" "su_wake ?e \<le> su_now ?e"
    using d by (simp_all add: numeral_2_eq_2)
  have "supervised_run (loop_start 0 True) (?e\<lparr>su_pc := Gone\<rparr>)"
    using run_step [OF run_more [OF d(1), of 2] sup_step.wakes] e by simp
  then show ?thesis using e by fastforce
qed

lemma stop_final_witness: "su_late just_stopped \<le> 1 \<and> su_child just_stopped = NoChild"
proof -
  have "su_late just_stopped = 0" "su_stop just_stopped = Stopped"
    by (simp_all add: just_stopped_def about_to_respawn_def Let_def loop_start_def sup_defs numeral_2_eq_2)
  then show ?thesis using stop_final [OF just_stopped_reachable, THEN conjunct2, THEN conjunct1] by simp
qed


end
