(* ===== verification/Stats.thy ===== *)
theory Stats
  imports TextOps
begin

text \<open>
  The statistics of antie (\<open>antie/src/stats.rs\<close>): the counters, the heartbeats of the long-running loops,
  the gauges of the pull carriers and the status document.  Counters are unsigned 64-bit values whose
  additions and subtractions wrap, as the atomics of the source do.
\<close>

definition u64_max :: nat where
  "u64_max = 2 ^ 64 - 1"

definition u32_max :: nat where
  "u32_max = 2 ^ 32 - 1"

definition wadd :: "nat \<Rightarrow> nat \<Rightarrow> nat" where
  "wadd a b = (a + b) mod 2 ^ 64"

definition wsub :: "nat \<Rightarrow> nat \<Rightarrow> nat" where
  "wsub a b = (a + 2 ^ 64 - b) mod 2 ^ 64"

record heartbeat =
  hb_name :: string
  hb_max_silence_secs :: nat
  hb_last_beat :: nat

record heartbeat_snapshot =
  hs_name :: string
  hs_age_secs :: nat
  hs_max_silence_secs :: nat

record antie_stats =
  st_messages_received :: nat
  st_messages_processed :: nat
  st_messages_failed :: nat
  st_tcp_connections :: nat
  st_tcp_rate_limited :: nat
  st_lambda_requests :: nat
  st_lambda_errors :: nat
  st_emails_sent :: nat
  st_started_at :: nat
  st_active_carriers :: string
  st_avg_witness_ms :: nat
  st_lambda_stats_poll_failures :: nat
  st_lambda_stats_port :: nat
  st_busy_rejections :: nat
  st_rate_limited :: nat
  st_ban_rejected :: nat
  st_ban_list_unavailable :: nat
  st_fanout_relay_refused :: nat
  st_decrypt_fail :: nat
  st_parse_fail :: nat
  st_oversize_dropped :: nat
  st_core_version :: string
  st_skipped_dir_count :: nat
  st_care_of_verify_rejects :: nat
  st_care_of_deposits :: nat
  st_care_of_default_deliveries :: nat
  st_carrier_failures_total :: nat
  st_carriers_in_backoff :: nat
  st_carrier_consecutive_failures :: nat
  st_heartbeats :: "heartbeat list"
  st_last_inbox_write_unix :: nat
  st_last_round_served_unix :: nat
  st_inbox_oldest_mtime_unix :: nat
  st_inbox_scan_unix :: nat

definition new_stats :: "nat \<Rightarrow> antie_stats" where
  "new_stats unix_now = \<lparr>
     st_messages_received = 0, st_messages_processed = 0, st_messages_failed = 0,
     st_tcp_connections = 0, st_tcp_rate_limited = 0, st_lambda_requests = 0, st_lambda_errors = 0,
     st_emails_sent = 0, st_started_at = unix_now, st_active_carriers = [], st_avg_witness_ms = 0,
     st_lambda_stats_poll_failures = 0, st_lambda_stats_port = 0, st_busy_rejections = 0,
     st_rate_limited = 0, st_ban_rejected = 0, st_ban_list_unavailable = 0, st_fanout_relay_refused = 0,
     st_decrypt_fail = 0, st_parse_fail = 0, st_oversize_dropped = 0, st_core_version = [],
     st_skipped_dir_count = 0, st_care_of_verify_rejects = 0, st_care_of_deposits = 0,
     st_care_of_default_deliveries = 0, st_carrier_failures_total = 0, st_carriers_in_backoff = 0,
     st_carrier_consecutive_failures = 0, st_heartbeats = [], st_last_inbox_write_unix = 0,
     st_last_round_served_unix = 0, st_inbox_oldest_mtime_unix = 0, st_inbox_scan_unix = 0\<rparr>"

text \<open>\<open>clk\<close> is the reading of the monotonic heartbeat clock.  A registration returns the index of the
  heartbeat; a loop beats its own.\<close>

definition register_heartbeat :: "antie_stats \<Rightarrow> nat \<Rightarrow> string \<Rightarrow> nat \<Rightarrow> nat \<times> antie_stats" where
  "register_heartbeat s clk name max_silence =
     (length (st_heartbeats s),
      s\<lparr>st_heartbeats := st_heartbeats s @
        [\<lparr>hb_name = name, hb_max_silence_secs = max_silence, hb_last_beat = clk\<rparr>]\<rparr>)"

definition beat :: "antie_stats \<Rightarrow> nat \<Rightarrow> nat \<Rightarrow> antie_stats" where
  "beat s clk i = (if i < length (st_heartbeats s)
     then s\<lparr>st_heartbeats := (st_heartbeats s)[i := (st_heartbeats s ! i)\<lparr>hb_last_beat := clk\<rparr>]\<rparr>
     else s)"

definition snapshot_of :: "nat \<Rightarrow> heartbeat \<Rightarrow> heartbeat_snapshot" where
  "snapshot_of now h = \<lparr>hs_name = hb_name h, hs_age_secs = now - hb_last_beat h,
     hs_max_silence_secs = hb_max_silence_secs h\<rparr>"

definition heartbeat_snapshots :: "antie_stats \<Rightarrow> nat \<Rightarrow> heartbeat_snapshot list" where
  "heartbeat_snapshots s now = map (\<lambda>h. snapshot_of now h) (st_heartbeats s)"

definition note_inbox_write :: "nat \<Rightarrow> antie_stats \<Rightarrow> antie_stats" where
  "note_inbox_write unix_now s = s\<lparr>st_last_inbox_write_unix := unix_now\<rparr>"

definition note_round_served :: "nat \<Rightarrow> antie_stats \<Rightarrow> antie_stats" where
  "note_round_served unix_now s = s\<lparr>st_last_round_served_unix := unix_now\<rparr>"

text \<open>One attempt of a pull carrier; \<open>failures\<close> is the loop's own streak, returned updated.\<close>

definition note_carrier_attempt :: "antie_stats \<Rightarrow> nat \<Rightarrow> bool \<Rightarrow> nat \<times> antie_stats" where
  "note_carrier_attempt s failures reached =
     (if reached then
        (if 0 < failures then
           (let old = st_carriers_in_backoff s;
                s1 = s\<lparr>st_carriers_in_backoff := wsub old 1\<rparr> in
            (0, if old = 1 then s1\<lparr>st_carrier_consecutive_failures := 0\<rparr> else s1))
         else (failures, s))
      else
        (let s1 = (if failures = 0 then s\<lparr>st_carriers_in_backoff := wadd (st_carriers_in_backoff s) 1\<rparr> else s);
             failures' = min (failures + 1) u32_max in
         (failures', s1\<lparr>st_carrier_failures_total := wadd (st_carrier_failures_total s1) 1,
            st_carrier_consecutive_failures := max (st_carrier_consecutive_failures s1) failures'\<rparr>)))"

text \<open>The status document; \<open>eof\<close> is the process-wide count of broken carrier responses.\<close>

definition quoted :: "string \<Rightarrow> string" where
  "quoted s = [CHR 0x22] @ s @ [CHR 0x22]"

definition json_num :: "string \<times> nat \<Rightarrow> string" where
  "json_num f = quoted (fst f) @ '':'' @ dec (snd f)"

definition json_str :: "string \<times> string \<Rightarrow> string" where
  "json_str f = quoted (fst f) @ '':'' @ quoted (snd f)"

definition stats_to_json :: "antie_stats \<Rightarrow> nat \<Rightarrow> nat \<Rightarrow> string" where
  "stats_to_json s unix_now eof =
     ''{'' @ join_str '',''
       (map json_num [
         (''uptime_secs'', unix_now - st_started_at s),
         (''messages_received'', st_messages_received s),
         (''messages_processed'', st_messages_processed s),
         (''messages_failed'', st_messages_failed s),
         (''tcp_connections'', st_tcp_connections s),
         (''tcp_rate_limited'', st_tcp_rate_limited s),
         (''lambda_requests'', st_lambda_requests s),
         (''lambda_errors'', st_lambda_errors s),
         (''emails_sent'', st_emails_sent s)]
       @ [json_str (''active_carriers'', st_active_carriers s)]
       @ map json_num [
         (''avg_witness_ms'', st_avg_witness_ms s),
         (''lambda_stats_poll_failures'', st_lambda_stats_poll_failures s),
         (''lambda_stats_port'', st_lambda_stats_port s),
         (''busy_rejections'', st_busy_rejections s),
         (''wallet_rate_limited'', st_rate_limited s),
         (''ban_rejected'', st_ban_rejected s),
         (''ban_list_unavailable'', st_ban_list_unavailable s),
         (''fanout_relay_refused'', st_fanout_relay_refused s),
         (''decrypt_fail'', st_decrypt_fail s),
         (''parse_fail'', st_parse_fail s),
         (''oversize_dropped'', st_oversize_dropped s)]
       @ [json_str (''core_version'', st_core_version s)]
       @ map json_num [
         (''skipped_dir_count'', st_skipped_dir_count s),
         (''care_of_verify_rejects'', st_care_of_verify_rejects s),
         (''care_of_deposits'', st_care_of_deposits s),
         (''care_of_default_deliveries'', st_care_of_default_deliveries s),
         (''carrier_failures_total'', st_carrier_failures_total s),
         (''carriers_in_backoff'', st_carriers_in_backoff s),
         (''carrier_consecutive_failures'', st_carrier_consecutive_failures s),
         (''carrier_eof_mid_response'', eof),
         (''last_inbox_write_unix'', st_last_inbox_write_unix s),
         (''last_round_served_unix'', st_last_round_served_unix s),
         (''inbox_oldest_unprocessed_age_secs'',
            if st_inbox_oldest_mtime_unix s = 0 then 0 else unix_now - st_inbox_oldest_mtime_unix s),
         (''inbox_scan_unix'', st_inbox_scan_unix s)])
     @ ''}''"

section \<open>The gauges agree with the loops\<close>

text \<open>Several pull loops share the gauges: \<open>fs\<close> are their streaks, and an attempt is an index and
  whether the server was reached.\<close>

fun run_attempts :: "antie_stats \<Rightarrow> nat list \<Rightarrow> (nat \<times> bool) list \<Rightarrow> nat list \<times> antie_stats" where
  "run_attempts s fs [] = (fs, s)"
| "run_attempts s fs ((i, reached) # as) =
     (if i < length fs then
        (let (f', s') = note_carrier_attempt s (fs ! i) reached in run_attempts s' (fs[i := f']) as)
      else run_attempts s fs as)"

definition failing :: "nat list \<Rightarrow> nat" where
  "failing fs = length (filter (\<lambda>f. 0 < f) fs)"

definition gauges_ok :: "nat list \<Rightarrow> antie_stats \<Rightarrow> bool" where
  "gauges_ok fs s = (st_carriers_in_backoff s = failing fs \<and>
     list_all (\<lambda>f. f \<le> st_carrier_consecutive_failures s) fs \<and>
     (failing fs = 0 \<longrightarrow> st_carrier_consecutive_failures s = 0))"

lemma failing_le: "failing fs \<le> length fs"
  by (simp add: failing_def)

lemma failing_update:
  assumes "i < length fs"
  shows "failing (fs[i := f]) + (if 0 < fs ! i then 1 else 0) = failing fs + (if 0 < f then 1 else 0)"
proof -
  have fs: "fs = take i fs @ fs ! i # drop (Suc i) fs" using assms by (rule id_take_nth_drop)
  have upd: "fs[i := f] = take i fs @ f # drop (Suc i) fs" using assms by (rule upd_conv_take_nth_drop)
  have "failing fs = failing (take i fs) + (if 0 < fs ! i then 1 else 0) + failing (drop (Suc i) fs)"
    by (subst fs) (simp add: failing_def)
  moreover have "failing (fs[i := f]) = failing (take i fs) + (if 0 < f then 1 else 0) + failing (drop (Suc i) fs)"
    by (simp add: upd failing_def)
  ultimately show ?thesis by simp
qed

lemma failing_zero: "failing fs = 0 \<longleftrightarrow> list_all (\<lambda>f. f = 0) fs"
  by (auto simp: failing_def filter_empty_conv list_all_iff)

lemma note_carrier_attempt_gauges:
  assumes ok: "gauges_ok fs s" and i: "i < length fs" and small: "length fs < 2 ^ 64"
    and step: "note_carrier_attempt s (fs ! i) reached = (f', s')"
  shows "gauges_ok (fs[i := f']) s'"
proof -
  have bounds: "failing fs < 2 ^ 64" "failing (fs[i := f']) < 2 ^ 64"
    using failing_le [of fs] failing_le [of "fs[i := f']"] small by simp_all
  have sub: "0 < n \<Longrightarrow> n < 2 ^ 64 \<Longrightarrow> wsub n 1 = n - 1" for n
    unfolding wsub_def by (simp add: le_mod_geq)
  have le: "f \<le> m" if "f \<in> set (fs[i := g])" "g \<le> m" "list_all (\<lambda>f. f \<le> m) fs" for f g m
    using that set_update_subset_insert [of fs i g] by (auto simp: list_all_iff)
  have mem: "f' \<in> set (fs[i := f'])" using i by (simp add: set_update_memI)
  have max0: "0 < f' \<Longrightarrow> failing (fs[i := f']) \<noteq> 0"
    using mem by (auto simp: failing_zero list_all_iff)
  note upd = failing_update [OF i, of f']
  show ?thesis
  proof (cases reached)
    case True
    show ?thesis
    proof (cases "0 < fs ! i")
      case pos: True
      then have "\<not> list_all (\<lambda>f. f = 0) fs" using i by (auto simp: list_all_length)
      then have n: "0 < failing fs" using failing_zero [of fs] by simp
      have "f' = 0" and st: "st_carriers_in_backoff s' = failing fs - 1"
        "st_carrier_consecutive_failures s' =
          (if failing fs = 1 then 0 else st_carrier_consecutive_failures s)"
        using step True pos ok n bounds sub by (auto simp: note_carrier_attempt_def Let_def gauges_ok_def)
      moreover have "failing (fs[i := f']) = failing fs - 1" using upd pos \<open>f' = 0\<close> n by simp
      moreover have "failing fs = 1 \<Longrightarrow> list_all (\<lambda>f. f = 0) (fs[i := f'])"
        using calculation by (simp add: failing_zero [symmetric])
      ultimately show ?thesis using ok le [of _ f']
        by (auto simp: gauges_ok_def list_all_iff)
    next
      case False
      then have "f' = fs ! i" "s' = s" using step True by (auto simp: note_carrier_attempt_def)
      then show ?thesis using ok by simp
    qed
  next
    case False
    then have f': "f' = min (fs ! i + 1) u32_max" "0 < f'"
      and cf: "st_carrier_consecutive_failures s' = max (st_carrier_consecutive_failures s) f'"
      and bo: "st_carriers_in_backoff s' = (if fs ! i = 0 then wadd (failing fs) 1 else failing fs)"
      using step ok by (auto simp: note_carrier_attempt_def Let_def gauges_ok_def u32_max_def)
    have "st_carriers_in_backoff s' = failing (fs[i := f'])"
      using upd f'(2) bo bounds by (auto simp: wadd_def)
    moreover have "list_all (\<lambda>f. f \<le> st_carrier_consecutive_failures s') (fs[i := f'])"
    proof -
      have "list_all (\<lambda>f. f \<le> st_carrier_consecutive_failures s') fs"
        using ok cf by (auto simp: gauges_ok_def list_all_iff)
      then show ?thesis using le [of _ f' "st_carrier_consecutive_failures s'"] cf
        by (auto simp: list_all_iff)
    qed
    ultimately show ?thesis using max0 f'(2) by (simp add: gauges_ok_def)
  qed
qed

lemma run_attempts_gauges:
  "gauges_ok fs s \<Longrightarrow> length fs < 2 ^ 64 \<Longrightarrow> run_attempts s fs as = (fs', s') \<Longrightarrow>
   gauges_ok fs' s' \<and> length fs' = length fs"
proof (induction s fs as rule: run_attempts.induct)
  case (2 s fs i reached as)
  show ?case
  proof (cases "i < length fs")
    case True
    obtain f1 s1 where n: "note_carrier_attempt s (fs ! i) reached = (f1, s1)"
      by (cases "note_carrier_attempt s (fs ! i) reached")
    have "gauges_ok (fs[i := f1]) s1"
      by (rule note_carrier_attempt_gauges [OF 2(3) True 2(4) n])
    then show ?thesis using 2(1) [OF True n [symmetric] refl] 2(4,5) True n by simp
  next
    case False
    then show ?thesis using 2 by simp
  qed
qed simp

section \<open>Properties\<close>

text \<open>The carrier gauges tell the truth about every pull loop at once: starting from fresh
  statistics, after any interleaving of attempts of any number of loops, the backoff gauge is exactly the
  number of loops whose last attempt failed, the streak gauge is at least every current streak, and both
  are zero when every loop reached its server last.\<close>

lemma carrier_gauges:
  assumes "length fs < 2 ^ 64" "list_all (\<lambda>f. f = 0) fs"
    and "run_attempts (new_stats t) fs as = (fs', s')"
  shows "st_carriers_in_backoff s' = length (filter (\<lambda>f. 0 < f) fs') \<and>
    (\<forall>f \<in> set fs'. f \<le> st_carrier_consecutive_failures s') \<and>
    ((\<forall>f \<in> set fs'. f = 0) \<longrightarrow> st_carriers_in_backoff s' = 0 \<and> st_carrier_consecutive_failures s' = 0)"
proof -
  have "gauges_ok fs (new_stats t)"
    using assms(2) failing_zero [of fs] by (simp add: gauges_ok_def new_stats_def list_all_iff)
  from run_attempts_gauges [OF this assms(1,3)] have ok: "gauges_ok fs' s'" by simp
  then show ?thesis using failing_zero [of fs']
    by (auto simp: gauges_ok_def failing_def list_all_iff)
qed

lemma carrier_gauges_witness:
  "let (fs', s') = run_attempts (new_stats 0) [0, 0] [(0, False), (1, False), (0, False), (1, True)] in
   st_carriers_in_backoff s' = length (filter (\<lambda>f. 0 < f) fs') \<and>
    (\<forall>f \<in> set fs'. f \<le> st_carrier_consecutive_failures s') \<and>
    ((\<forall>f \<in> set fs'. f = 0) \<longrightarrow> st_carriers_in_backoff s' = 0 \<and> st_carrier_consecutive_failures s' = 0)"
  using carrier_gauges [of "[0, 0]" 0 "[(0, False), (1, False), (0, False), (1, True)]"]
  by (simp split: prod.splits)

end
