(* ===== verification/Admission.thy ===== *)
theory Admission
  imports Stats "HOL-Library.AList"
begin

text \<open>
  The cheap checks of \<open>antie/src/gateway.rs\<close> that run before Lambda and Core: the per-wallet rate limiter, the
  backpressure estimate, the reading of Lambda's load figure and the keys of the ban file.
\<close>

section \<open>The rate limiter\<close>

text \<open>The last admitted request of each wallet, as milliseconds of the monotonic clock.\<close>

type_synonym limiter = "(string \<times> nat) list"

definition check_and_record :: "nat \<Rightarrow> nat \<Rightarrow> string \<Rightarrow> limiter \<Rightarrow> bool \<times> limiter" where
  "check_and_record cooldown now wallet lim =
     (case map_of lim wallet of
        Some prev \<Rightarrow> if now - prev < cooldown then (False, lim) else (True, AList.update wallet now lim)
      | None \<Rightarrow> (True, AList.update wallet now lim))"

text \<open>The cutoff may lie before the start of the clock.\<close>

definition evict_stale :: "nat \<Rightarrow> nat \<Rightarrow> limiter \<Rightarrow> limiter" where
  "evict_stale cooldown now lim = filter (\<lambda>e. int now - 2 * int cooldown < int (snd e)) lim"

text \<open>The gate as \<open>handle_witness_request\<close> applies it; the eviction reads the clock again.\<close>

definition rate_gate :: "nat \<Rightarrow> nat \<Rightarrow> nat \<Rightarrow> string \<Rightarrow> limiter \<Rightarrow> bool \<times> limiter" where
  "rate_gate cooldown now later wallet lim =
     (case check_and_record cooldown now wallet lim of
        (False, l) \<Rightarrow> (False, l)
      | (True, l) \<Rightarrow> (True, if 100 < length l then evict_stale cooldown later l else l))"

definition default_cooldown_ms :: nat where
  "default_cooldown_ms = 2000"

section \<open>Backpressure\<close>

text \<open>\<open>u64\<close> arithmetic: the product wraps in a release build.\<close>

definition busy_estimate_exceeds :: "nat \<Rightarrow> nat \<Rightarrow> nat \<Rightarrow> bool" where
  "busy_estimate_exceeds queue_depth avg_ms threshold_ms = (threshold_ms < (queue_depth * avg_ms) mod 2 ^ 64)"

definition should_reject_busy :: "nat \<Rightarrow> antie_stats \<Rightarrow> nat \<Rightarrow> bool" where
  "should_reject_busy threshold s queue_depth =
     (if threshold = 0 then False
      else if st_avg_witness_ms s = 0 then False
      else busy_estimate_exceeds queue_depth (st_avg_witness_ms s) threshold)"

definition parse_avg_witness_ms :: "string \<Rightarrow> nat option" where
  "parse_avg_witness_ms body =
     (case split_str ([CHR 0x22] @ ''avg_witness_ms'' @ [CHR 0x22] @ '':'') body of
        None \<Rightarrow> None
      | Some (_, after) \<Rightarrow>
          (if list_ex (\<lambda>c. c = CHR '','' \<or> c = CHR ''}'') after
           then parse_uint 64 (trim (takeWhile (\<lambda>c. c \<noteq> CHR '','' \<and> c \<noteq> CHR ''}'') after))
           else None))"

text \<open>The result is the reason to warn about.\<close>

definition record_stats_poll :: "antie_stats \<Rightarrow> string + nat \<Rightarrow> string option \<times> antie_stats" where
  "record_stats_poll s outcome =
     (case outcome of
        Inr v \<Rightarrow> (None, s\<lparr>st_avg_witness_ms := v\<rparr>)
      | Inl reason \<Rightarrow>
          (let n = wadd (st_lambda_stats_poll_failures s) 1 in
           (if n = 1 \<or> n mod 100 = 0 then Some reason else None, s\<lparr>st_lambda_stats_poll_failures := n\<rparr>)))"

text \<open>One answer of the admin endpoint: unreachable, or a status with its text and a body that may be unreadable.\<close>

datatype http_answer = Unreachable string | Answered string bool "string + string"

definition stats_outcome :: "http_answer \<Rightarrow> string + nat" where
  "stats_outcome a =
     (case a of
        Unreachable e \<Rightarrow> Inl (''unreachable: '' @ e)
      | Answered status success body \<Rightarrow>
          (case body of
             Inl e \<Rightarrow> Inl (''HTTP '' @ status @ '', body unreadable: '' @ e)
           | Inr text \<Rightarrow>
               (if success then
                  (case parse_avg_witness_ms text of
                     Some v \<Rightarrow> Inr v
                   | None \<Rightarrow> Inl (''HTTP '' @ status @ '' without avg_witness_ms''))
                else Inl (''HTTP '' @ status))))"

text \<open>The poller over the successive readings of the running flag and the answers it got.\<close>

fun poll_lambda_stats :: "(bool \<times> http_answer) list \<Rightarrow> antie_stats \<Rightarrow> antie_stats" where
  "poll_lambda_stats [] s = s"
| "poll_lambda_stats ((running, answer) # rounds) s =
     (if \<not> running then s else poll_lambda_stats rounds (snd (record_stats_poll s (stats_outcome answer))))"

definition stats_url :: "nat \<Rightarrow> string option \<Rightarrow> string" where
  "stats_url admin_port admin_token =
     (let url = ''http://127.0.0.1:'' @ dec admin_port @ ''/stats'' in
      case admin_token of Some token \<Rightarrow> url @ ''?token='' @ token | None \<Rightarrow> url)"

section \<open>Peer audit and ban keys\<close>

definition answers_out_of_band :: "string \<Rightarrow> bool" where
  "answers_out_of_band message_type = (message_type = ''peer_audit_request'' \<or> message_type = ''peer_audit_response'')"

definition peer_audit_reply_address :: "string option \<Rightarrow> string \<Rightarrow> string option" where
  "peer_audit_reply_address hint_email envelope_from =
     (case hint_email of
        Some e \<Rightarrow> Some e
      | None \<Rightarrow> if trim envelope_from \<noteq> [] then Some (trim envelope_from) else None)"

text \<open>\<open>tier\<close> reads the security level of a wallet id, \<open>bucket\<close> is the SMT bucket of a key at a level; both
  belong to the core crate.\<close>

definition nabla_ban_keys :: "(string \<Rightarrow> nat option) \<Rightarrow> (bytes \<Rightarrow> nat \<Rightarrow> bytes) \<Rightarrow> bytes \<Rightarrow> string \<Rightarrow> string list" where
  "nabla_ban_keys tier bucket client_pk sender_wallet_id =
     (if length client_pk \<noteq> 32 then []
      else
        (let k_tier = (case tier sender_wallet_id of Some k \<Rightarrow> k | None \<Rightarrow> 3);
             b = bucket client_pk k_tier in
         hex_encode client_pk # (if b \<noteq> client_pk then [hex_encode b] else [])))"

text \<open>\<open>contents\<close> is what reading the configured file gave; \<open>None\<close> without a configured path.\<close>

definition nabla_ban_file_lists :: "(string + bytes) option \<Rightarrow> string list \<Rightarrow> antie_stats \<Rightarrow> bool \<times> antie_stats" where
  "nabla_ban_file_lists contents keys s =
     (case contents of
        Some (Inr c) \<Rightarrow>
          (if utf8_valid c then (list_ex (\<lambda>line. line \<in> set keys) (map trim (str_lines c)), s)
           else (False, s\<lparr>st_ban_list_unavailable := wadd (st_ban_list_unavailable s) 1\<rparr>))
      | _ \<Rightarrow> (False, s\<lparr>st_ban_list_unavailable := wadd (st_ban_list_unavailable s) 1\<rparr>))"

text \<open>The oldest file: what each entry's metadata gave, its modification time in seconds, for a regular file with
  a readable time not before the epoch.\<close>

definition oldest_mtime_unix :: "nat option list option \<Rightarrow> nat option" where
  "oldest_mtime_unix entries =
     (case entries of
        None \<Rightarrow> None
      | Some ts \<Rightarrow> (case List.map_filter id ts of [] \<Rightarrow> None | x # xs \<Rightarrow> Some (fold min xs x)))"

section \<open>Any number of requests\<close>

text \<open>A request: the wallet, the clock at the check and the clock at the eviction.  The result lists the requests
  that were admitted.\<close>

fun rate_run :: "nat \<Rightarrow> (string \<times> nat \<times> nat) list \<Rightarrow> limiter \<Rightarrow> (string \<times> nat) list \<times> limiter" where
  "rate_run cooldown [] lim = ([], lim)"
| "rate_run cooldown ((wallet, now, later) # rs) lim =
     (case rate_gate cooldown now later wallet lim of
        (ok, l) \<Rightarrow> (case rate_run cooldown rs l of
           (adm, l') \<Rightarrow> ((if ok then [(wallet, now)] else []) @ adm, l')))"

fun clock_ok :: "nat \<Rightarrow> (string \<times> nat \<times> nat) list \<Rightarrow> bool" where
  "clock_ok t [] = True"
| "clock_ok t ((w, now, later) # rs) = (t \<le> now \<and> now \<le> later \<and> clock_ok later rs)"

lemma map_of_filter_evict:
  assumes "distinct (map fst lim)" "map_of lim w = Some x"
  shows "map_of (evict_stale cooldown t lim) w = (if int t - 2 * int cooldown < int x then Some x else None)"
proof -
  have f: "map_of (filter (\<lambda>e. P (snd e)) lim) w = (if P x then Some x else None)" for P
    using assms by (induction lim) (auto split: if_splits dest: map_of_SomeD simp: rev_image_eqI map_of_eq_None_iff)
  show ?thesis using f [of "\<lambda>x. int t - 2 * int cooldown < int x"] by (simp add: evict_stale_def)
qed

lemma distinct_evict: "distinct (map fst lim) \<Longrightarrow> distinct (map fst (evict_stale cooldown t lim))"
  by (simp add: evict_stale_def distinct_map_filter)

lemma rate_gate_distinct:
  "distinct (map fst lim) \<Longrightarrow> distinct (map fst (snd (rate_gate cooldown now later w lim)))"
  by (auto simp: rate_gate_def check_and_record_def distinct_update distinct_evict split: option.splits)

section \<open>The limiter without a table that forgets\<close>

text \<open>The contract: the last admission of every wallet is known for ever, and a request is admitted a cooldown after it.\<close>

definition cooled :: "nat \<Rightarrow> nat \<Rightarrow> nat option \<Rightarrow> bool" where
  "cooled cooldown now previous = (case previous of None \<Rightarrow> True | Some a \<Rightarrow> a + cooldown \<le> now)"

fun admissions :: "nat \<Rightarrow> (string \<times> nat \<times> nat) list \<Rightarrow> (string \<rightharpoonup> nat) \<Rightarrow> (string \<times> nat) list" where
  "admissions cooldown [] known = []"
| "admissions cooldown ((wallet, now, later) # rs) known =
     (if cooled cooldown now (known wallet)
      then (wallet, now) # admissions cooldown rs (known(wallet \<mapsto> now))
      else admissions cooldown rs known)"

text \<open>At time \<open>t\<close> the table agrees with what is known, but for wallets whose cooldown is over.\<close>

definition recalls :: "nat \<Rightarrow> nat \<Rightarrow> limiter \<Rightarrow> (string \<rightharpoonup> nat) \<Rightarrow> bool" where
  "recalls cooldown t lim known = (distinct (map fst lim) \<and>
     (\<forall>w x. map_of lim w = Some x \<longrightarrow> known w = Some x \<and> x \<le> t) \<and>
     (\<forall>w. map_of lim w = None \<longrightarrow> cooled cooldown t (known w)))"

lemma cooled_later: "cooled cooldown t p \<Longrightarrow> t \<le> now \<Longrightarrow> cooled cooldown now p"
  by (auto simp: cooled_def split: option.splits)

lemma recalls_cooled: "recalls cooldown t lim known \<Longrightarrow> map_of lim w = None \<Longrightarrow> cooled cooldown t (known w)"
  unfolding recalls_def by blast

lemma recalls_known: "recalls cooldown t lim known \<Longrightarrow> map_of lim w = Some x \<Longrightarrow> known w = Some x \<and> x \<le> t"
  unfolding recalls_def by blast

lemma recalls_later: "recalls cooldown t lim known \<Longrightarrow> t \<le> now \<Longrightarrow> recalls cooldown now lim known"
  unfolding recalls_def by (meson cooled_later order.trans)

lemma recalls_update:
  "recalls cooldown now lim known \<Longrightarrow> recalls cooldown now (AList.update w now lim) (known(w \<mapsto> now))"
  unfolding recalls_def by (simp add: distinct_update update_conv')

lemma recalls_evict: "recalls cooldown t lim known \<Longrightarrow> recalls cooldown t (evict_stale cooldown t lim) known"
proof -
  assume r: "recalls cooldown t lim known"
  then have d: "distinct (map fst lim)" by (simp add: recalls_def)
  have "(map_of (evict_stale cooldown t lim) w = Some x \<longrightarrow> known w = Some x \<and> x \<le> t) \<and>
      (map_of (evict_stale cooldown t lim) w = None \<longrightarrow> cooled cooldown t (known w))" for w x
  proof (cases "map_of lim w")
    case None
    then have "map_of (evict_stale cooldown t lim) w = None"
      by (auto simp: map_of_eq_None_iff evict_stale_def)
    then show ?thesis using recalls_cooled [OF r None] by simp
  next
    case (Some y)
    then show ?thesis
      using map_of_filter_evict [OF d Some, of cooldown t] recalls_known [OF r Some] by (auto simp: cooled_def)
  qed
  then show ?thesis using d by (simp add: recalls_def distinct_evict)
qed

text \<open>One request: the gate decides as the contract does, and the table stays in step.\<close>

lemma rate_gate_step:
  assumes "recalls cooldown t lim known" "t \<le> now" "now \<le> later"
  shows "fst (rate_gate cooldown now later w lim) = cooled cooldown now (known w)"
    and "recalls cooldown later (snd (rate_gate cooldown now later w lim))
      (if cooled cooldown now (known w) then known(w \<mapsto> now) else known)"
proof -
  have now: "recalls cooldown now lim known" using recalls_later [OF assms(1,2)] .
  have ok: "check_and_record cooldown now w lim =
      (if cooled cooldown now (known w) then (True, AList.update w now lim) else (False, lim))"
  proof (cases "map_of lim w")
    case None
    then show ?thesis using recalls_cooled [OF now None] by (simp add: check_and_record_def)
  next
    case (Some x)
    then show ?thesis using recalls_known [OF now Some] by (auto simp: check_and_record_def cooled_def)
  qed
  then show "fst (rate_gate cooldown now later w lim) = cooled cooldown now (known w)"
    by (simp add: rate_gate_def)
  show "recalls cooldown later (snd (rate_gate cooldown now later w lim))
      (if cooled cooldown now (known w) then known(w \<mapsto> now) else known)"
    using ok now recalls_later [OF now assms(3)] recalls_later [OF recalls_update [OF now] assms(3), of w]
      recalls_evict [OF recalls_later [OF recalls_update [OF now] assms(3), of w]]
    by (simp add: rate_gate_def)
qed

lemma rate_run_admissions:
  "recalls cooldown t lim known \<Longrightarrow> clock_ok t rs \<Longrightarrow> fst (rate_run cooldown rs lim) = admissions cooldown rs known"
proof (induction rs arbitrary: t lim known)
  case (Cons r rs)
  obtain w now later where r: "r = (w, now, later)" by (cases r)
  have t: "t \<le> now" "now \<le> later" "clock_ok later rs" using Cons.prems(2) r by auto
  show ?case
    using rate_gate_step(1) [OF Cons.prems(1) t(1,2), of w] Cons.IH [OF rate_gate_step(2) [OF Cons.prems(1) t(1,2)] t(3), of w]
    by (auto simp: r case_prod_beta)
qed simp

lemma recalls_none [simp]: "recalls cooldown t [] Map.empty"
  by (simp add: recalls_def cooled_def)

text \<open>Admissions of the contract: in order of time, and a cooldown after what was known.\<close>

lemma admissions_spaced:
  assumes "clock_ok t rs"
  shows "\<forall>a. known w = Some a \<longrightarrow> list_all (\<lambda>(v, b). v = w \<longrightarrow> a + cooldown \<le> b) (admissions cooldown rs known)"
  using assms
proof (induction rs arbitrary: t known)
  case (Cons r rs)
  obtain v now later where r: "r = (v, now, later)" by (cases r)
  have c: "clock_ok later rs" using Cons.prems r by simp
  show ?case
  proof (cases "v = w \<and> cooled cooldown now (known v)")
    case True
    have "list_all (\<lambda>(u, b). u = w \<longrightarrow> now + cooldown \<le> b) (admissions cooldown rs (known(v \<mapsto> now)))"
      using Cons.IH [OF c, rule_format, of "known(v \<mapsto> now)" now] True by simp
    moreover have "a + cooldown \<le> now" if "known w = Some a" for a using True that by (auto simp: cooled_def)
    ultimately show ?thesis using True by (auto simp: r list_all_iff simp del: fun_upd_apply)
  next
    case False
    have "list_all (\<lambda>(u, b). u = w \<longrightarrow> a + cooldown \<le> b) (admissions cooldown rs (known(v \<mapsto> now)))"
      if "known w = Some a" "v \<noteq> w" for a
      using Cons.IH [OF c, rule_format, of "known(v \<mapsto> now)" a] that by simp
    then show ?thesis
      using Cons.IH [OF c, rule_format, of known] False by (auto simp: r simp del: fun_upd_apply)
  qed
qed simp

fun spaced :: "nat \<Rightarrow> (string \<times> nat) list \<Rightarrow> bool" where
  "spaced cooldown [] = True"
| "spaced cooldown ((w, a) # rest) = (list_all (\<lambda>(v, b). v = w \<longrightarrow> a + cooldown \<le> b) rest \<and> spaced cooldown rest)"

lemma spaced_admissions: "clock_ok t rs \<Longrightarrow> spaced cooldown (admissions cooldown rs known)"
proof (induction rs arbitrary: t known)
  case (Cons r rs)
  obtain v now later where r: "r = (v, now, later)" by (cases r)
  then have c: "clock_ok later rs" using Cons.prems by simp
  show ?case using Cons.IH [OF c] admissions_spaced [OF c, of "known(v \<mapsto> now)" v cooldown] r by simp
qed simp

section \<open>Properties\<close>

text \<open>The rate limiter keeps its promise over any traffic, evictions included: starting with no history, any two
  admitted requests of one wallet are at least the cooldown apart, whatever other wallets do in between.\<close>

lemma limiter_spacing:
  assumes "clock_ok t rs" "rate_run cooldown rs [] = (adm, lim)"
    and "i < j" "j < length adm" "fst (adm ! i) = fst (adm ! j)"
  shows "snd (adm ! i) + cooldown \<le> snd (adm ! j)"
proof -
  have "fst (rate_run cooldown rs []) = admissions cooldown rs Map.empty"
    by (rule rate_run_admissions [OF recalls_none assms(1)])
  then have "spaced cooldown adm" using spaced_admissions [OF assms(1)] assms(2) by simp
  then show ?thesis using assms(3-5)
  proof (induction adm arbitrary: i j)
    case (Cons wa adm)
    obtain w a where wa: "wa = (w, a)" by (cases wa)
    obtain j' where j: "j = Suc j'" using Cons.prems(2) by (cases j) auto
    show ?case
    proof (cases i)
      case 0
      have "list_all (\<lambda>(v, b). v = w \<longrightarrow> a + cooldown \<le> b) adm" using Cons.prems(1) wa by simp
      then have "case adm ! j' of (v, b) \<Rightarrow> v = w \<longrightarrow> a + cooldown \<le> b"
        using Cons.prems(3) j by (simp add: list_all_length)
      then show ?thesis using 0 j wa Cons.prems(4) by (auto simp: case_prod_beta)
    next
      case (Suc i')
      have "spaced cooldown adm" using Cons.prems(1) wa by simp
      then show ?thesis using Cons.IH [of i' j'] Suc j Cons.prems(2-4) by simp
    qed
  qed simp
qed

lemma limiter_spacing_witness:
  "let adm = fst (rate_run 2000 [(''w'', 0, 1), (''w'', 1500, 1500), (''v'', 1600, 1600), (''w'', 2100, 2100)] []) in
   adm = [(''w'', 0), (''v'', 1600), (''w'', 2100)] \<and> snd (adm ! 0) + 2000 \<le> snd (adm ! 2)"
proof -
  have r: "rate_run 2000 [(''w'', 0, 1), (''w'', 1500, 1500), (''v'', 1600, 1600), (''w'', 2100, 2100)] [] =
      ([(''w'', 0), (''v'', 1600), (''w'', 2100)], [(''w'', 2100), (''v'', 1600)])"
    by (simp add: rate_gate_def check_and_record_def)
  show ?thesis using limiter_spacing [OF _ r, of 0 0 2] r by simp
qed

text \<open>C20. The limiter forgets and still decides as if it never did: over any traffic in the order of the clock it admits
  exactly the requests that a limiter with an unbounded memory of the last admission of every wallet admits, although
  it stores rejected requests nowhere and drops entries whenever more than a hundred wallets are in the table.\<close>

theorem limiter_forgets_safely:
  assumes "clock_ok t rs"
  shows "fst (rate_run cooldown rs []) = admissions cooldown rs Map.empty"
  by (rule rate_run_admissions [OF recalls_none assms])

lemma limiter_forgets_safely_witness:
  "fst (rate_run 2000 [(''w'', 0, 1), (''w'', 1500, 1500), (''v'', 1600, 1600), (''w'', 2100, 2100)] []) =
     [(''w'', 0), (''v'', 1600), (''w'', 2100)]"
  using limiter_forgets_safely [of 0 "[(''w'', 0, 1), (''w'', 1500, 1500), (''v'', 1600, 1600), (''w'', 2100, 2100)]" 2000]
  by (simp add: cooled_def)

text \<open>The end of a run, and a table of which every entry beyond a hundred was needed at the last admission.\<close>

fun end_time :: "nat \<Rightarrow> (string \<times> nat \<times> nat) list \<Rightarrow> nat" where
  "end_time t [] = t"
| "end_time t ((w, now, later) # rs) = end_time later rs"

definition trimmed :: "nat \<Rightarrow> nat \<Rightarrow> limiter \<Rightarrow> bool" where
  "trimmed cooldown now lim = (length lim \<le> 100 \<or> list_all (\<lambda>(w, a). now < a + 2 * cooldown) lim)"

lemma gate_trims:
  assumes "rate_gate cooldown now later w lim = (True, l)" "now \<le> later"
  shows "trimmed cooldown now l"
  using assms by (fastforce simp: rate_gate_def trimmed_def evict_stale_def list_all_iff split: prod.splits bool.splits if_splits)

lemma gate_refuses: "rate_gate cooldown now later w lim = (False, l) \<Longrightarrow> l = lim"
  by (auto simp: rate_gate_def check_and_record_def split: prod.splits bool.splits option.splits if_splits)

lemma rate_run_recalls:
  "recalls cooldown t lim known \<Longrightarrow> clock_ok t rs \<Longrightarrow> rate_run cooldown rs lim = (adm, lim') \<Longrightarrow>
     recalls cooldown (end_time t rs) lim' (known ++ map_of (rev adm)) \<and>
     (if adm = [] then lim' = lim else trimmed cooldown (snd (last adm)) lim')"
proof (induction rs arbitrary: t lim known adm)
  case (Cons r rs)
  obtain w now later where r: "r = (w, now, later)" by (cases r)
  have t: "t \<le> now" "now \<le> later" "clock_ok later rs" using Cons.prems(2) r by auto
  obtain ok l where g: "rate_gate cooldown now later w lim = (ok, l)" by fastforce
  obtain adm1 where a: "rate_run cooldown rs l = (adm1, lim')" "adm = (if ok then [(w, now)] else []) @ adm1"
    using Cons.prems(3) r g by (auto split: prod.splits)
  note step = rate_gate_step [OF Cons.prems(1) t(1,2), of w, unfolded g fst_conv snd_conv]
  note ih = Cons.IH [OF step(2) t(3) a(1)]
  show ?case
  proof (cases ok)
    case True
    then have "known(w \<mapsto> now) ++ map_of (rev adm1) = known ++ map_of (rev adm)" by (simp add: a(2) map_add_assoc [symmetric])
    then show ?thesis using ih True step(1) gate_trims [of cooldown now later w lim l] g t(2) a(2) r by (auto simp del: fun_upd_apply)
  next
    case False
    then show ?thesis using ih step(1) gate_refuses [of cooldown now later w lim l] g a(2) r by auto
  qed
qed (simp add: map_add_def)

text \<open>C37. What the limiter's table is.  After any traffic in the order of the clock it is a map: no wallet has two entries; an entry is the wallet's
  last admission, so no refused request is in it; a wallet without one has been admitted never or is past its cooldown; and
  if more than a hundred wallets are in it, each of them was admitted within two cooldowns of the last admission.\<close>

theorem limiter_table_exact:
  assumes "clock_ok t rs" "rate_run cooldown rs [] = (adm, lim)"
  shows "distinct (map fst lim) \<and>
    (\<forall>w a. map_of lim w = Some a \<longrightarrow> map_of (rev adm) w = Some a) \<and>
    (\<forall>w. map_of lim w = None \<longrightarrow> cooled cooldown (end_time t rs) (map_of (rev adm) w)) \<and>
    (100 < length lim \<longrightarrow> list_all (\<lambda>(w, a). snd (last adm) < a + 2 * cooldown) lim)"
  using rate_run_recalls [OF recalls_none assms] by (auto simp: recalls_def trimmed_def split: if_splits)

lemma limiter_table_exact_witness:
  "case rate_run 2000 [(''w'', 0, 1), (''w'', 1500, 1500), (''v'', 1600, 1600), (''w'', 2100, 2100)] [] of
     (adm, lim) \<Rightarrow> map_of lim ''w'' = Some 2100 \<and> map_of lim ''u'' = None \<and> map_of (rev adm) ''w'' = Some 2100"
proof -
  let ?rs = "[(''w'', 0, 1), (''w'', 1500, 1500), (''v'', 1600, 1600), (''w'', 2100, 2100)]"
  have r: "rate_run 2000 ?rs [] = ([(''w'', 0), (''v'', 1600), (''w'', 2100)], [(''w'', 2100), (''v'', 1600)])"
    by (simp add: rate_gate_def check_and_record_def)
  have "clock_ok 0 ?rs" by simp
  from limiter_table_exact [OF this r] show ?thesis unfolding r by simp
qed

text \<open>Backpressure sheds a backlog and nothing else: a message with nothing queued behind it is never refused, a
  node without load data refuses nothing, and while the estimate fits 64 bits a message is refused exactly when
  the messages queued behind it, at the average time of a round, exceed the threshold.\<close>

lemma busy_exact:
  assumes "queue_depth * st_avg_witness_ms s < 2 ^ 64"
  shows "(should_reject_busy threshold s queue_depth \<longleftrightarrow>
      threshold \<noteq> 0 \<and> threshold < queue_depth * st_avg_witness_ms s) \<and>
    \<not> should_reject_busy threshold s' 0 \<and>
    \<not> should_reject_busy threshold (s'\<lparr>st_avg_witness_ms := 0\<rparr>) d"
  using assms by (auto simp: should_reject_busy_def busy_estimate_exceeds_def)

lemma busy_exact_witness:
  "should_reject_busy 15000 ((new_stats 0)\<lparr>st_avg_witness_ms := 8000\<rparr>) 2 \<and>
   \<not> should_reject_busy 15000 ((new_stats 0)\<lparr>st_avg_witness_ms := 8000\<rparr>) 1"
  using busy_exact [of 2 "(new_stats 0)\<lparr>st_avg_witness_ms := 8000\<rparr>" 15000]
    busy_exact [of 1 "(new_stats 0)\<lparr>st_avg_witness_ms := 8000\<rparr>" 15000] by simp

text \<open>Beyond 64 bits the product wraps, and a longer queue is let through.\<close>

lemma busy_estimate_wraps: "\<not> busy_estimate_exceeds (2 ^ 32) (2 ^ 32) 15000"
  by (simp add: busy_estimate_exceeds_def)

end
