(* ===== verification/Deposits.thy ===== *)
theory Deposits
  imports FileSys
begin

text \<open>
  The six routines that hand a file to another process by writing it under a hidden name and renaming
  it: \<open>custody::deposit\<close>, \<open>care_of::deposit_atomic\<close>, \<open>SkipList::write_skipped\<close>, \<open>UncleSink::tee\<close>,
  \<open>Maildir::write_message\<close> (all of antie) and \<open>Inbox::deliver\<close> of tot, together with the rest of the
  two maildir modules.  Each is an interpretation of \<open>atomic_publish\<close>; only the two that sync the file
  before the rename are durable.  Values the operating system supplies (clock, process id, a fresh
  UUID) are arguments.
\<close>

section \<open>custody.rs\<close>

definition custody_name_ok :: "string \<Rightarrow> bool" where
  "custody_name_ok name =
     (\<not> (name = [] \<or> contains_str ''/'' name \<or> contains_str [CHR 0x5C] name \<or> contains_str ''..'' name))"

definition custody_deposit :: "string \<Rightarrow> string \<Rightarrow> bytes \<Rightarrow> string io" where
  "custody_deposit dir name bytes =
     (if \<not> custody_name_ok name
      then io_fail (''custody: refusing unsafe deposit name '' @ debug_str name)
      else
        (let tmp_dir = path_join dir ''tmp'';
             tmp_path = path_join tmp_dir name;
             final_path = path_join dir name in
         io_bind (create_dir_all tmp_dir) (\<lambda>_.
         io_bind (create_file tmp_path) (\<lambda>_.
         io_bind (write_all tmp_path bytes) (\<lambda>_.
         io_bind (sync_file tmp_path) (\<lambda>_.
         io_bind (rename_file tmp_path final_path) (\<lambda>_.
         io_bind (io_ignore (sync_dir dir)) (\<lambda>_.
         io_return final_path))))))))"

section \<open>care\_of.rs, the deposit\<close>

definition deposit_atomic :: "string \<Rightarrow> string \<Rightarrow> string \<Rightarrow> bytes \<Rightarrow> string io" where
  "deposit_atomic base domain filename bytes =
     (let dir = path_join base domain;
          tmp_dir = path_join dir ''tmp'';
          new_dir = path_join dir ''new'';
          tmp = path_join tmp_dir filename;
          dst = path_join new_dir filename in
      io_bind (create_dir_all tmp_dir) (\<lambda>_.
      io_bind (create_dir_all new_dir) (\<lambda>_.
      io_bind (fs_write tmp bytes) (\<lambda>_.
      io_bind (rename_file tmp dst) (\<lambda>_.
      io_return dst)))))"

section \<open>skip\_list.rs, the write\<close>

definition write_skipped :: "string \<Rightarrow> string \<Rightarrow> bytes \<Rightarrow> string io" where
  "write_skipped skipped_dir filename_hint content =
     (let tmp = path_join skipped_dir (''.tmp.'' @ filename_hint);
          dest = path_join skipped_dir filename_hint in
      io_match (fs_write tmp content)
        (\<lambda>e. io_fail (''write skipped tmp '' @ tmp @ '': '' @ e)) (\<lambda>_.
      io_match (rename_file tmp dest)
        (\<lambda>e. io_bind (io_ignore (remove_file tmp)) (\<lambda>_.
             io_fail (''rename '' @ tmp @ '' -> '' @ dest @ '': '' @ e)))
        (\<lambda>_. io_return dest)))"

section \<open>uncle\_sink.rs\<close>

definition uncle_tee :: "string \<Rightarrow> nat \<Rightarrow> nat \<Rightarrow> bytes \<Rightarrow> bytes \<Rightarrow> string option io" where
  "uncle_tee outbox pid nanos txid bytes =
     (let filename = hex_encode txid @ ''.cbor'';
          dest = path_join outbox filename;
          tmp = path_join outbox (''.uncle_tee.tmp.'' @ dec pid @ ''.'' @ dec nanos) in
      io_match (fs_write tmp bytes)
        (\<lambda>e. io_return None)
        (\<lambda>_. io_match (rename_file tmp dest)
          (\<lambda>e. io_bind (io_ignore (remove_file tmp)) (\<lambda>_. io_return None))
          (\<lambda>_. io_return (Some dest))))"

section \<open>maildir.rs of antie\<close>

definition maildir_open :: "string \<Rightarrow> unit io" where
  "maildir_open base =
     io_bind (create_dir_all (path_join base ''new'')) (\<lambda>_.
     io_bind (create_dir_all (path_join base ''cur'')) (\<lambda>_.
     create_dir_all (path_join base ''tmp'')))"

text \<open>\<open>list_new\<close> on the entries of \<open>new/\<close>, each a path and whether it is a regular file; the error of
  the directory read, or of one entry, is passed on.\<close>

fun maildir_list_new :: "(string + string \<times> bool) list \<Rightarrow> string + string list" where
  "maildir_list_new [] = Inr []"
| "maildir_list_new (Inl e # es) = Inl e"
| "maildir_list_new (Inr (path, is_file) # es) =
     res_bind (maildir_list_new es) (\<lambda>ps. Inr (if is_file then path # ps else ps))"

definition maildir_read_message :: "string \<Rightarrow> bytes io" where
  "maildir_read_message path w =
     (case (case faults w of [] \<Rightarrow> None | x # _ \<Rightarrow> x) of
        Some e \<Rightarrow> (Inl e, w\<lparr>faults := tl (faults w)\<rparr>)
      | None \<Rightarrow> (case files w path of
          None \<Rightarrow> (Inl ''ENOENT'', w\<lparr>faults := tl (faults w)\<rparr>)
        | Some s \<Rightarrow> (Inr s, w\<lparr>faults := tl (faults w)\<rparr>)))"

text \<open>\<open>Path::file\_name\<close>: the last component, none for a path that ends in \<open>..\<close>.\<close>

definition path_file_name :: "string \<Rightarrow> string option" where
  "path_file_name p = (case rev (path_parts p) of [] \<Rightarrow> None | c # _ \<Rightarrow> if c = ''..'' then None else Some c)"

definition maildir_mark_processed :: "string \<Rightarrow> string \<Rightarrow> string io" where
  "maildir_mark_processed base path =
     (case path_file_name path of
        None \<Rightarrow> io_fail ''Invalid filename''
      | Some filename \<Rightarrow>
          (let dest = path_join (path_join base ''cur'') (filename @ '':2,S'') in
           io_bind (rename_file path dest) (\<lambda>_. io_return dest)))"

definition maildir_filename :: "nat \<Rightarrow> nat \<Rightarrow> string \<Rightarrow> string" where
  "maildir_filename timestamp pid unique =
     dec timestamp @ ''.'' @ dec pid @ ''.'' @ ''localhost'' @ ''.'' @ unique"

definition maildir_write_message :: "string \<Rightarrow> nat \<Rightarrow> nat \<Rightarrow> string \<Rightarrow> bytes \<Rightarrow> string io" where
  "maildir_write_message base timestamp pid unique content =
     (let filename = maildir_filename timestamp pid unique;
          tmp_path = path_join (path_join base ''tmp'') filename;
          new_path = path_join (path_join base ''new'') filename in
      io_bind (fs_write tmp_path content) (\<lambda>_.
      io_bind (rename_file tmp_path new_path) (\<lambda>_.
      io_return new_path)))"

section \<open>maildir.rs of tot\<close>

definition inbox_open :: "string \<Rightarrow> (string \<times> string) io" where
  "inbox_open inbox_dir =
     (let t = path_join inbox_dir ''tmp''; n = path_join inbox_dir ''new''; c = path_join inbox_dir ''cur'' in
      io_bind (create_dir_all t) (\<lambda>_.
      io_bind (create_dir_all n) (\<lambda>_.
      io_bind (create_dir_all c) (\<lambda>_.
      io_return (t, n)))))"

definition unique_name :: "nat \<Rightarrow> nat \<Rightarrow> nat \<Rightarrow> nat \<Rightarrow> string" where
  "unique_name secs nanos seq pid =
     dec secs @ ''.'' @ dec nanos @ ''.M'' @ dec seq @ ''P'' @ dec pid @ ''.tot''"

definition inbox_deliver :: "string \<times> string \<Rightarrow> string \<Rightarrow> bytes \<Rightarrow> unit io" where
  "inbox_deliver inbox name bytes =
     (let tmp_path = path_join (fst inbox) name;
          new_path = path_join (snd inbox) name in
      io_bind (create_file tmp_path) (\<lambda>_.
      io_bind (write_all tmp_path bytes) (\<lambda>_.
      io_bind (sync_file tmp_path) (\<lambda>_.
      io_match (rename_file tmp_path new_path)
        (\<lambda>e. io_bind (io_ignore (remove_file tmp_path)) (\<lambda>_. io_fail e))
        (\<lambda>_. sync_dir (snd inbox))))))"

section \<open>Lengths and names\<close>

lemma contains_slash: "contains_str ''/'' s \<longleftrightarrow> CHR ''/'' \<in> set s"
  using contains_str_char [of "CHR ''/''" s] by simp

lemma custody_name_okD:
  "custody_name_ok name \<Longrightarrow> name \<noteq> [] \<and> CHR ''/'' \<notin> set name \<and> name \<noteq> ''..''"
proof -
  assume ok: "custody_name_ok name"
  have "contains_str ''..'' ''..''" by (simp add: contains_str_def)
  with ok show ?thesis by (auto simp: custody_name_ok_def contains_slash)
qed

lemma length_join_relative:
  "CHR ''/'' \<notin> set name \<Longrightarrow> base \<noteq> [] \<Longrightarrow> length base + length name \<le> length (path_join base name)"
  by (simp add: path_join_relative)

lemma path_join_not_Nil [simp]: "name \<noteq> [] \<Longrightarrow> path_join base name \<noteq> []"
  by (auto simp: path_join_def)

lemma join_sub_longer:
  assumes "CHR ''/'' \<notin> set sub" "CHR ''/'' \<notin> set name" "sub \<noteq> []" "name \<noteq> []"
  shows "path_join (path_join dir sub) name \<noteq> path_join dir name"
proof
  assume eq: "path_join (path_join dir sub) name = path_join dir name"
  have "length (path_join dir name) \<le> length dir + 1 + length name"
    using assms(2) by (simp add: path_join_relative)
  moreover have "length (path_join (path_join dir sub) name) \<ge> length (path_join dir sub) + length name"
    using assms by (intro length_join_relative) auto
  moreover have "length (path_join dir sub) \<ge> length dir + length sub"
    using assms(1) by (simp add: path_join_relative)
  moreover have "length sub \<ge> 1" using assms(3) by (cases sub) auto
  ultimately have short: "length (path_join (path_join dir sub) name) = length (path_join dir sub) + length name"
    using eq by simp
  have "last (path_join dir sub) = last sub" "path_join dir sub \<noteq> []"
    using assms(1,3) by (auto simp: path_join_relative)
  then have "length (path_join (path_join dir sub) name) = length (path_join dir sub) + 1 + length name"
    using assms(1-3) by (simp add: path_join_relative)
     (metis last_in_set)
  with short show False by simp
qed

lemma tmp_new_differ:
  assumes "\<not> starts_with ''/'' name"
  shows "path_join (path_join dir ''tmp'') name \<noteq> path_join (path_join dir ''new'') name"
proof -
  have "path_join (path_join dir x) name = path_join dir x @ ''/'' @ name"
    if "CHR ''/'' \<notin> set x" "x \<noteq> []" for x
  proof -
    have "last (path_join dir x) = last x" "path_join dir x \<noteq> []"
      using that by (auto simp: path_join_relative)
    moreover have "last x \<noteq> CHR ''/''" using that by (metis last_in_set)
    ultimately show ?thesis using assms by (simp add: path_join_def)
  qed
  from this [of "''tmp''"] this [of "''new''"] show ?thesis
    by (simp add: path_join_inject)
qed

lemma dec_no_slash: "CHR ''/'' \<notin> set (dec n)"
  using dec_digits [of "CHR ''/''" n] by (auto simp: is_digit_def byte_val_def)

lemma hex_no_slash: "CHR ''/'' \<notin> set (hex_encode s)"
  using hex_encode_digits [of "CHR ''/''" s] by (auto simp: is_hex_digit_def is_digit_def byte_val_def)

lemma starts_with_slash: "starts_with ''/'' s \<longleftrightarrow> s \<noteq> [] \<and> hd s = CHR ''/''"
  by (cases s) auto

lemma dec_app_not_absolute: "\<not> starts_with ''/'' (dec n @ s)"
proof -
  have "hd (dec n) \<in> set (dec n)" by simp
  then have "hd (dec n) \<noteq> CHR ''/''" using dec_no_slash [of n] by metis
  then show ?thesis by (simp add: starts_with_slash)
qed

section \<open>Every routine publishes\<close>

lemma write_sync_done:
  "io_bind (create_file t) (\<lambda>_. io_bind (write_all t b) (\<lambda>_. sync_file t)) w = (Inr (), w') \<Longrightarrow>
   files w' t = Some b \<and> \<not> unsynced w' t"
  using create_file_Inr write_all_Inr sync_file_Inr by (fastforce simp: io_bind_Inr)

lemma confined_write_sync:
  "confined t (io_bind (create_file t) (\<lambda>_. io_bind (write_all t b) (\<lambda>_. sync_file t)))"
  by auto

lemma custody_publishes:
  assumes "custody_name_ok name"
  shows "publishes True (path_join (path_join dir ''tmp'') name) (path_join dir name) b
    (custody_deposit dir name b)"
proof -
  let ?t = "path_join (path_join dir ''tmp'') name" and ?q = "path_join dir name"
  have tq: "?t \<noteq> ?q" using custody_name_okD [OF assms] by (intro join_sub_longer) auto
  have run: "custody_deposit dir name b = io_bind (create_dir_all (path_join dir ''tmp'')) (\<lambda>_.
      io_bind (io_bind (create_file ?t) (\<lambda>_. io_bind (write_all ?t b) (\<lambda>_. sync_file ?t)))
        (\<lambda>_. io_bind (rename_file ?t ?q) (\<lambda>_.
          io_bind (io_ignore (sync_dir dir)) (\<lambda>_. io_return ?q))))"
    using assms by (simp add: custody_deposit_def Let_def io_bind_assoc)
  show ?thesis unfolding run
    by (intro publishes_before publishes_plain confined_prims confined_write_sync tq
        confined_bind confined_ignore confined_return) (auto dest: write_sync_done)
qed

lemma deposit_atomic_publishes:
  assumes "\<not> starts_with ''/'' name"
  shows "publishes False (path_join (path_join (path_join base domain) ''tmp'') name)
    (path_join (path_join (path_join base domain) ''new'') name) b (deposit_atomic base domain name b)"
  unfolding deposit_atomic_def Let_def
  by (intro publishes_before publishes_plain confined_prims confined_fs_write
      tmp_new_differ [OF assms] confined_return) (auto dest: fs_write_Inr)

lemma maildir_name_relative: "\<not> starts_with ''/'' (maildir_filename ts pid u)"
  by (simp add: maildir_filename_def dec_app_not_absolute)

lemma custody_tmp_differ:
  "path_join (path_join dir ''tmp'') name = path_join dir name \<Longrightarrow> \<not> custody_name_ok name"
  using join_sub_longer [of "''tmp''" name dir] custody_name_okD [of name] by auto

lemma maildir_write_publishes:
  "publishes False (path_join (path_join base ''tmp'') (maildir_filename ts pid u))
    (path_join (path_join base ''new'') (maildir_filename ts pid u)) b
    (maildir_write_message base ts pid u b)"
proof -
  have "\<not> starts_with ''/'' (maildir_filename ts pid u)"
    by (simp add: maildir_filename_def dec_app_not_absolute)
  then show ?thesis unfolding maildir_write_message_def Let_def
    by (intro publishes_plain confined_fs_write tmp_new_differ confined_return)
      (auto dest: fs_write_Inr)
qed

lemma inbox_publishes:
  assumes "path_join t name \<noteq> path_join n name"
  shows "publishes True (path_join t name) (path_join n name) b (inbox_deliver (t, n) name b)"
proof -
  let ?t = "path_join t name" and ?q = "path_join n name"
  have run: "inbox_deliver (t, n) name b =
      io_bind (io_bind (create_file ?t) (\<lambda>_. io_bind (write_all ?t b) (\<lambda>_. sync_file ?t)))
        (\<lambda>_. io_match (rename_file ?t ?q)
          (\<lambda>e. io_bind (io_ignore (remove_file ?t)) (\<lambda>_. io_fail e)) (\<lambda>_. sync_dir n))"
    by (simp add: inbox_deliver_def Let_def io_bind_assoc)
  show ?thesis unfolding run
  proof (rule publishes_rename [OF confined_write_sync _ assms])
    show "\<not> is_ok (fst (io_bind (io_ignore (remove_file ?t)) (\<lambda>_. io_fail e) w))"
      for e w by (simp add: io_bind_def io_ignore_def io_fail_def)
  qed (auto dest: write_sync_done)
qed

lemma skip_tmp_differ: "path_join dir (''.tmp.'' @ name) \<noteq> path_join dir name"
proof
  assume eq: "path_join dir (''.tmp.'' @ name) = path_join dir name"
  have "length (path_join dir name) \<le> (if starts_with ''/'' name then length name
      else length (path_join dir (''.tmp.'' @ name)) - 5)"
    by (simp add: path_join_def)
  moreover have "length (path_join dir (''.tmp.'' @ name)) \<ge> 5 + length name"
    by (simp add: path_join_def)
  ultimately show False using eq by (auto split: if_splits)
qed

lemma write_skipped_publishes:
  "publishes False (path_join dir (''.tmp.'' @ name)) (path_join dir name) b (write_skipped dir name b)"
proof -
  let ?t = "path_join dir (''.tmp.'' @ name)" and ?q = "path_join dir name"
  let ?wr = "io_match (fs_write ?t b) (\<lambda>e. io_fail (''write skipped tmp '' @ ?t @ '': '' @ e)) (\<lambda>u. io_return u)"
  let ?err = "\<lambda>e. io_bind (io_ignore (remove_file ?t)) (\<lambda>_. io_fail (''rename '' @ ?t @ '' -> '' @ ?q @ '': '' @ e))"
  have run: "write_skipped dir name b =
      io_bind ?wr (\<lambda>_. io_match (rename_file ?t ?q) ?err (\<lambda>_. io_return ?q))"
    by (rule ext) (simp add: write_skipped_def Let_def io_bind_def io_match_def io_fail_def io_return_def
        split: prod.splits sum.splits)
  show ?thesis unfolding run
  proof (rule publishes_rename)
    show "confined ?t ?wr" by blast
    show "?t \<noteq> ?q" by (rule skip_tmp_differ)
    show "files w' ?t = Some b \<and> (False \<longrightarrow> \<not> unsynced w' ?t)" if "?wr w = (Inr (), w')" for w w'
      using that fs_write_Inr
      by (auto simp: io_match_def io_fail_def io_return_def split: prod.splits sum.splits)
    show "\<not> is_ok (fst (?err e w))" for e w
      by (simp add: io_bind_def io_ignore_def io_fail_def)
  qed auto
qed

text \<open>The tee reports a failure as \<open>None\<close>.\<close>

definition some_or_fail :: "'a option io \<Rightarrow> 'a io" where
  "some_or_fail m = io_bind m (\<lambda>x. case x of None \<Rightarrow> io_fail [] | Some a \<Rightarrow> io_return a)"

lemma uncle_tee_publishes:
  "publishes False (path_join dir (''.uncle_tee.tmp.'' @ dec pid @ ''.'' @ dec ns))
    (path_join dir (hex_encode txid @ ''.cbor'')) b (some_or_fail (uncle_tee dir pid ns txid b))"
proof -
  let ?t = "path_join dir (''.uncle_tee.tmp.'' @ dec pid @ ''.'' @ dec ns)"
  let ?q = "path_join dir (hex_encode txid @ ''.cbor'')"
  let ?wr = "io_match (fs_write ?t b) (\<lambda>e. io_fail []) (\<lambda>u. io_return u)"
  let ?err = "\<lambda>e. io_bind (io_ignore (remove_file ?t)) (\<lambda>_. io_fail [])"
  have run: "some_or_fail (uncle_tee dir pid ns txid b) =
      io_bind ?wr (\<lambda>_. io_match (rename_file ?t ?q) ?err (\<lambda>_. io_return ?q))"
    by (rule ext) (simp add: some_or_fail_def uncle_tee_def Let_def io_bind_def io_match_def io_fail_def
        io_return_def io_ignore_def split: prod.splits sum.splits)
  have "''.uncle_tee.tmp.'' @ dec pid @ ''.'' @ dec ns \<noteq> hex_encode txid @ ''.cbor''"
    using hex_encode_digits [of "CHR ''.''" txid]
    by (cases "hex_encode txid") (auto simp: is_hex_digit_def is_digit_def byte_val_def)
  then have tq: "?t \<noteq> ?q"
    using dec_no_slash hex_no_slash by (subst path_join_inject) auto
  show ?thesis unfolding run
  proof (rule publishes_rename)
    show "confined ?t ?wr" by blast
    show "?t \<noteq> ?q" by (rule tq)
    show "files w' ?t = Some b \<and> (False \<longrightarrow> \<not> unsynced w' ?t)" if "?wr w = (Inr (), w')" for w w'
      using that fs_write_Inr
      by (auto simp: io_match_def io_fail_def io_return_def split: prod.splits sum.splits)
    show "\<not> is_ok (fst (?err e w))" for e w
      by (simp add: io_bind_def io_ignore_def io_fail_def)
  qed auto
qed

section \<open>The interpretations\<close>

interpretation custody: atomic_publish
  "\<lambda>(dir, name) b. custody_deposit dir name b"
  "\<lambda>(dir, name). path_join (path_join dir ''tmp'') name" "\<lambda>(dir, name). path_join dir name"
  True "\<lambda>(dir, name). custody_name_ok name"
  by unfold_locales
    (auto intro: custody_publishes dest: custody_tmp_differ)

interpretation careof: atomic_publish
  "\<lambda>(base, domain, name) b. deposit_atomic base domain name b"
  "\<lambda>(base, domain, name). path_join (path_join (path_join base domain) ''tmp'') name"
  "\<lambda>(base, domain, name). path_join (path_join (path_join base domain) ''new'') name"
  False "\<lambda>(base, domain, name). \<not> starts_with ''/'' name"
  by unfold_locales (auto intro: deposit_atomic_publishes simp: tmp_new_differ)

interpretation skipped: atomic_publish
  "\<lambda>(dir, name) b. write_skipped dir name b"
  "\<lambda>(dir, name). path_join dir (''.tmp.'' @ name)" "\<lambda>(dir, name). path_join dir name"
  False "\<lambda>_. True"
  by unfold_locales (auto intro: write_skipped_publishes [simplified] simp: skip_tmp_differ [simplified])

interpretation uncle: atomic_publish
  "\<lambda>(dir, pid, ns, txid) b. some_or_fail (uncle_tee dir pid ns txid b)"
  "\<lambda>(dir, pid, ns, txid). path_join dir (''.uncle_tee.tmp.'' @ dec pid @ ''.'' @ dec ns)"
  "\<lambda>(dir, pid, ns, txid). path_join dir (hex_encode txid @ ''.cbor'')"
  False "\<lambda>(dir, pid, ns, txid). path_join dir (''.uncle_tee.tmp.'' @ dec pid @ ''.'' @ dec ns) \<noteq>
      path_join dir (hex_encode txid @ ''.cbor'')"
  by unfold_locales (auto intro: uncle_tee_publishes [simplified])

interpretation maildir: atomic_publish
  "\<lambda>(base, ts, pid, u) b. maildir_write_message base ts pid u b"
  "\<lambda>(base, ts, pid, u). path_join (path_join base ''tmp'') (maildir_filename ts pid u)"
  "\<lambda>(base, ts, pid, u). path_join (path_join base ''new'') (maildir_filename ts pid u)"
  False "\<lambda>_. True"
  by unfold_locales
    (auto intro: maildir_write_publishes simp: tmp_new_differ maildir_name_relative)

interpretation inbox: atomic_publish
  "\<lambda>(base, secs, ns, seq, pid) b. inbox_deliver (path_join base ''tmp'', path_join base ''new'')
     (unique_name secs ns seq pid) b"
  "\<lambda>(base, secs, ns, seq, pid). path_join (path_join base ''tmp'') (unique_name secs ns seq pid)"
  "\<lambda>(base, secs, ns, seq, pid). path_join (path_join base ''new'') (unique_name secs ns seq pid)"
  True "\<lambda>_. True"
  by unfold_locales
    (auto intro!: inbox_publishes simp: tmp_new_differ unique_name_def dec_app_not_absolute)

section \<open>Put there, or not at all\<close>

text \<open>A place is a temporary name and a final one.  Putting \<open>b\<close> there leaves every other file as it was; when it fails the final
  name, too, holds what it held before, and it fails only when a step of the disk does.\<close>

definition put_or_not :: "(string \<times> string) option \<Rightarrow> bytes \<Rightarrow> bool \<Rightarrow> world \<Rightarrow> world \<Rightarrow> bool" where
  "put_or_not place b put w w' =
     (case place of
        None \<Rightarrow> \<not> put \<and> w' = w
      | Some (tmp, dst) \<Rightarrow>
          (\<forall>p. p \<noteq> tmp \<and> p \<noteq> dst \<longrightarrow> files w' p = files w p) \<and>
          (if put then files w' dst = Some b else files w' dst = files w dst \<and> faults w \<noteq> []))"

lemma write_all_quiet:
  "faults w = [] \<Longrightarrow> files w p \<noteq> None \<Longrightarrow> \<exists>w'. write_all p b w = (Inr (), w') \<and> faults w' = [] \<and> files w' p \<noteq> None"
proof (induction b arbitrary: w)
  case (Cons c cs)
  then obtain w1 where "append_byte p c w = (Inr (), w1)" "faults w1 = []" "files w1 p \<noteq> None"
    by (auto simp: append_byte_def prim_def observed_def Let_def)
  then show ?case using Cons.IH [of w1] by (simp add: io_bind_def)
qed (simp add: io_return_def)

lemma fs_write_quiet: "faults w = [] \<Longrightarrow> \<exists>w'. fs_write p b w = (Inr (), w') \<and> faults w' = [] \<and> files w' p \<noteq> None"
proof -
  assume w: "faults w = []"
  define w1 where "w1 = snd (create_file p w)"
  have "create_file p w = (Inr (), w1)" "faults w1 = []" "files w1 p \<noteq> None"
    using w by (simp_all add: w1_def create_file_def prim_def observed_def Let_def)
  then show ?thesis using write_all_quiet [of w1 p b] by (simp add: fs_write_def io_bind_def)
qed

lemma rename_quiet: "faults w = [] \<Longrightarrow> files w p \<noteq> None \<Longrightarrow> \<exists>w'. rename_file p q w = (Inr (), w')"
  by (auto simp: rename_file_def prim_def observed_def Let_def)

lemma mkdir_quiet: "faults w = [] \<Longrightarrow> \<exists>w'. create_dir_all p w = (Inr (), w') \<and> faults w' = []"
  by (simp add: create_dir_all_def prim_def observed_def Let_def)

text \<open>A routine whose last step is the rename: when it fails, nothing but the temporary file may have changed.\<close>

lemma rename_last_fails:
  assumes "confined t pre" "\<And>e. confined t (h e)" "t \<noteq> q"
    and "io_bind pre (\<lambda>_. io_match (rename_file t q) h (\<lambda>_. io_return x)) w = (Inl e, w')"
  shows "agree_but t w w'"
proof -
  obtain r1 w1 where 1: "pre w = (r1, w1)" by fastforce
  then have a1: "agree_but t w w1" using confinedD [OF assms(1)] by blast
  show ?thesis
  proof (cases r1)
    case (Inl f)
    then show ?thesis using assms(4) 1 a1 by (simp add: io_bind_def)
  next
    case (Inr u)
    obtain r2 w2 where 2: "rename_file t q w1 = (r2, w2)" by fastforce
    then obtain f where f: "r2 = Inl f" using assms(4) 1 Inr by (cases r2) (auto simp: io_bind_def io_match_def io_return_def)
    have "agree_but t w1 w2" using rename_file_cases [OF 2 assms(3)] f by auto
    moreover have "h f w2 = (Inl e, w')" using assms(4) 1 2 Inr f by (simp add: io_bind_def io_match_def)
    then have "agree_but t w2 w'" using confinedD [OF assms(2)] by blast
    ultimately show ?thesis using a1 agree_but_trans by blast
  qed
qed

lemma agree_files: "agree_but t w w' \<Longrightarrow> p \<noteq> t \<Longrightarrow> files w' p = files w p"
  by (simp add: agree_but_def same_but_def snap_def)

lemma hex_name_relative: "\<not> starts_with ''/'' (hex_encode txid @ CHR ''.'' # s)"
  using hex_no_slash [of txid] by (cases "hex_encode txid") auto

lemma deposit_puts:
  assumes "\<not> starts_with ''/'' name" "deposit_atomic base domain name b w = (r, w')"
  shows "put_or_not (Some (path_join (path_join (path_join base domain) ''tmp'') name, path_join (path_join (path_join base domain) ''new'') name))
    b (is_ok r) w w'"
proof -
  let ?dir = "path_join base domain"
  let ?t = "path_join (path_join ?dir ''tmp'') name" and ?q = "path_join (path_join ?dir ''new'') name"
  let ?pre = "io_bind (create_dir_all (path_join ?dir ''tmp'')) (\<lambda>_. io_bind (create_dir_all (path_join ?dir ''new'')) (\<lambda>_. fs_write ?t b))"
  have tq: "?t \<noteq> ?q" by (rule tmp_new_differ [OF assms(1)])
  have run: "deposit_atomic base domain name b = io_bind ?pre (\<lambda>_. io_match (rename_file ?t ?q) io_fail (\<lambda>_. io_return ?q))"
    by (simp add: deposit_atomic_def Let_def io_bind_assoc flip: io_bind_match)
  have frame: "files w' p = files w p" if "p \<noteq> ?t" "p \<noteq> ?q" for p
    using careof.put_frame [of "(base, domain, name)" b w r w' p] assms that by simp
  show ?thesis
  proof (cases r)
    case (Inr x)
    then show ?thesis using careof.put_done [of "(base, domain, name)" b w x w'] assms frame by (simp add: put_or_not_def)
  next
    case (Inl e)
    have "agree_but ?t w w'"
      using assms(2) Inl unfolding run by (intro rename_last_fails [where pre = ?pre and h = io_fail and q = ?q and x = ?q and w = w and e = e, OF _ _ tq]) auto
    moreover have "faults w \<noteq> []"
    proof
      assume "faults w = []"
      then obtain w1 w2 w3 w4 where "create_dir_all (path_join ?dir ''tmp'') w = (Inr (), w1)"
        "create_dir_all (path_join ?dir ''new'') w1 = (Inr (), w2)" "fs_write ?t b w2 = (Inr (), w3)" "rename_file ?t ?q w3 = (Inr (), w4)"
        by (metis mkdir_quiet fs_write_quiet rename_quiet)
      then show False using assms(2) Inl by (simp add: deposit_atomic_def Let_def io_bind_def io_return_def)
    qed
    ultimately show ?thesis using Inl frame tq by (simp add: put_or_not_def agree_files)
  qed
qed

lemma skipped_puts:
  assumes "write_skipped dir name b w = (r, w')"
  shows "put_or_not (Some (path_join dir (''.tmp.'' @ name), path_join dir name)) b (is_ok r) w w'"
proof -
  let ?t = "path_join dir (''.tmp.'' @ name)" and ?q = "path_join dir name"
  let ?wr = "io_match (fs_write ?t b) (\<lambda>e. io_fail (''write skipped tmp '' @ ?t @ '': '' @ e)) (\<lambda>u. io_return u)"
  let ?err = "\<lambda>e. io_bind (io_ignore (remove_file ?t)) (\<lambda>_. io_fail (''rename '' @ ?t @ '' -> '' @ ?q @ '': '' @ e))"
  have run: "write_skipped dir name b = io_bind ?wr (\<lambda>_. io_match (rename_file ?t ?q) ?err (\<lambda>_. io_return ?q))"
    by (rule ext) (simp add: write_skipped_def Let_def io_bind_def io_match_def io_fail_def io_return_def
        split: prod.splits sum.splits)
  have tq: "?t \<noteq> ?q" by (rule skip_tmp_differ)
  have frame: "files w' p = files w p" if "p \<noteq> ?t" "p \<noteq> ?q" for p
    using skipped.put_frame [of "(dir, name)" b w r w' p] assms that by simp
  show ?thesis
  proof (cases r)
    case (Inr x)
    then show ?thesis using skipped.put_done [of "(dir, name)" b w x w'] assms frame by (simp add: put_or_not_def)
  next
    case (Inl e)
    have c: "confined ?t ?wr" "confined ?t (?err f)" for f by blast+
    have "agree_but ?t w w'"
      using assms Inl unfolding run by (intro rename_last_fails [OF c tq, where x = ?q and w = w and e = e]) simp
    moreover have "faults w \<noteq> []"
    proof
      assume "faults w = []"
      then obtain w1 w2 where "fs_write ?t b w = (Inr (), w1)" "rename_file ?t ?q w1 = (Inr (), w2)"
        by (metis fs_write_quiet rename_quiet)
      then show False using assms Inl by (simp add: write_skipped_def Let_def io_match_def io_return_def)
    qed
    ultimately show ?thesis using Inl frame tq by (simp add: put_or_not_def agree_files)
  qed
qed

section \<open>Properties\<close>

text \<open>C14. A custody reply survives a power loss whole or not at all: at every moment of a deposit,
  whatever step fails and whatever unsynced content the machine then loses, the reply's final name
  holds what it held before or the complete reply.\<close>

theorem custody_power_loss:
  assumes "custody_deposit dir name reply w = (r, w')" "h \<in> set (hist w')" "h \<notin> set (hist w)"
    and "\<not> unsynced w (path_join dir name)" "after_crash h (path_join dir name) c"
  shows "c = files w (path_join dir name) \<or> c = Some reply"
proof (cases "custody_name_ok name")
  case True
  show ?thesis
    using custody.put_power_loss [of "(dir, name)" reply w r w' h c] True assms by simp
next
  case False
  then have "w' = w" using assms(1) by (simp add: custody_deposit_def io_fail_def)
  then show ?thesis using assms(2,3) by simp
qed

lemma custody_power_loss_witness:
  "let w' = snd (custody_deposit ''o/s'' ''r.cbor'' ''xy'' no_files);
       h = last (hist w') in
   fst h ''o/s/r.cbor'' = files no_files ''o/s/r.cbor'' \<or> fst h ''o/s/r.cbor'' = Some ''xy''"
proof -
  let ?w = "snd (custody_deposit ''o/s'' ''r.cbor'' ''xy'' no_files)"
  have p: "path_join ''o/s'' ''r.cbor'' = ''o/s/r.cbor''" by code_simp
  have "0 < length (hist ?w)" by code_simp
  then have "last (hist ?w) \<in> set (hist ?w)" by simp
  then show ?thesis
    using custody_power_loss [of "''o/s''" "''r.cbor''" "''xy''" no_files _ ?w "last (hist ?w)"
        "fst (last (hist ?w)) ''o/s/r.cbor''"]
    unfolding Let_def p by (cases "custody_deposit ''o/s'' ''r.cbor'' ''xy'' no_files")
      (simp add: no_files_def after_crash_def)
qed

text \<open>A custody deposit cannot leave its session directory: a name with a separator, a backslash, a
  parent step or no character at all is refused without touching any file, and an accepted deposit
  changes only the reply itself, as a direct entry of the directory, and its temporary file below
  \<open>tmp\<close>.\<close>

lemma custody_stays_inside:
  assumes "custody_deposit dir name reply w = (r, w')"
  shows "(\<not> custody_name_ok name \<longrightarrow> w' = w \<and> \<not> is_ok r) \<and>
    (custody_name_ok name \<longrightarrow> (\<forall>q. files w' q \<noteq> files w q \<longrightarrow>
       q = path_join dir name \<or> q = path_join (path_join dir ''tmp'') name) \<and>
       path_parts (path_join dir name) = path_parts dir @ (if name = ''.'' then [] else [name]) \<and>
       name \<noteq> ''..'') \<and>
    (is_ok r \<longrightarrow> files w' (path_join dir name) = Some reply)"
proof (cases "custody_name_ok name")
  case True
  note ok = custody_name_okD [OF True]
  have "files w' q \<noteq> files w q \<longrightarrow> q = path_join dir name \<or> q = path_join (path_join dir ''tmp'') name" for q
    using custody.put_frame [of "(dir, name)" reply w r w' q] True assms by auto
  moreover have "is_ok r \<longrightarrow> files w' (path_join dir name) = Some reply"
    using custody.put_done [of "(dir, name)" reply w _ w'] True assms by (auto simp: is_ok_iff)
  ultimately show ?thesis using True ok path_parts_join [of name dir] by simp
next
  case False
  then show ?thesis using assms by (auto simp: custody_deposit_def io_fail_def)
qed

lemma custody_stays_inside_witness:
  "let out = custody_deposit ''o'' ''../x'' ''xy'' no_files in
   (\<not> custody_name_ok ''../x'' \<longrightarrow> snd out = no_files \<and> \<not> is_ok (fst out)) \<and>
   (custody_name_ok ''../x'' \<longrightarrow> (\<forall>q. files (snd out) q \<noteq> files no_files q \<longrightarrow>
       q = path_join ''o'' ''../x'' \<or> q = path_join (path_join ''o'' ''tmp'') ''../x'') \<and>
       path_parts (path_join ''o'' ''../x'') = path_parts ''o'' @ (if ''../x'' = ''.'' then [] else [''../x'']) \<and>
       ''../x'' \<noteq> ''..'') \<and>
   (is_ok (fst out) \<longrightarrow> files (snd out) (path_join ''o'' ''../x'') = Some ''xy'')"
  unfolding Let_def by (rule custody_stays_inside) simp

lemma maildir_write_unsynced:
  "\<exists>w'. maildir_write_message base ts pid u content no_files =
      (Inr (path_join (path_join base ''new'') (maildir_filename ts pid u)), w') \<and>
    after_crash (snap w') (path_join (path_join base ''new'') (maildir_filename ts pid u)) (Some [])"
proof -
  let ?t = "path_join (path_join base ''tmp'') (maildir_filename ts pid u)"
  let ?q = "path_join (path_join base ''new'') (maildir_filename ts pid u)"
  have tq: "?t \<noteq> ?q" by (rule tmp_new_differ [OF maildir_name_relative])
  have w: "\<exists>w'. write_all p b w = (Inr (), w') \<and> faults w' = [] \<and> unsynced w' p \<and>
      files w' p = Some (s @ b)"
    if "files w p = Some s" "faults w = []" "unsynced w p" for w p s and b
    using that
  proof (induction b arbitrary: w s)
    case Nil
    then show ?case by (simp add: io_return_def)
  next
    case (Cons c b)
    let ?w1 = "observed (w\<lparr>faults := [], files := (files w)(p \<mapsto> s @ [c]), unsynced := (unsynced w)(p := True)\<rparr>)"
    have "append_byte p c w = (Inr (), ?w1)"
      using Cons.prems by (simp add: append_byte_def prim_def Let_def)
    then show ?case
      using Cons.IH [of ?w1 "s @ [c]"] by (simp add: io_bind_def observed_def)
  qed
  let ?w1 = "observed (no_files\<lparr>files := [?t \<mapsto> []], unsynced := (\<lambda>_. False)(?t := True)\<rparr>)"
  have "create_file ?t no_files = (Inr (), ?w1)"
    by (simp add: create_file_def prim_def no_files_def)
  moreover obtain w2 where "write_all ?t content ?w1 = (Inr (), w2)" "faults w2 = []" "unsynced w2 ?t"
      "files w2 ?t = Some content"
    using w [of ?w1 ?t "[]" content] by (auto simp: observed_def no_files_def)
  ultimately show ?thesis using tq
    by (simp add: maildir_write_message_def Let_def fs_write_def io_bind_def rename_file_def prim_def
        io_return_def observed_def snap_def after_crash_def) force
qed

text \<open>The Maildir writer of antie renames without syncing, so a message it reports as delivered can
  still be lost: the sequence of steps leaves a state from which a power loss keeps the name in \<open>new\<close>
  with empty content.  (A carrier deletes the message from the mail server after this call.)\<close>

lemma maildir_write_not_durable:
  "\<exists>w'. maildir_write_message base ts pid u content no_files =
      (Inr (path_join (path_join base ''new'') (maildir_filename ts pid u)), w') \<and>
    after_crash (snap w') (path_join (path_join base ''new'') (maildir_filename ts pid u)) (Some [])"
  by (rule maildir_write_unsynced)

end
