(* ===== verification/Streams.thy ===== *)
theory Streams
  imports TextOps Errors
begin

text \<open>
  The sessions of the mail carriers with their servers (\<open>antie/src/carrier.rs\<close>, module \<open>carrier_io\<close>): what
  the socket yields read by read, the buffered line and byte readers with their end-of-input rule, writing
  and connecting.  The server is a record of functions over a state of its own, so a session is a function
  of the server and nothing else.
\<close>

section \<open>Sockets\<close>

text \<open>One read of the socket: some bytes, an error, or nothing until the time limit.  The end of the list is
  the end of the input, and so is a read of no bytes.\<close>

datatype rd = Data bytes | ReadErr string | Stalled

text \<open>Why a step that may block did not succeed.\<close>

datatype io_fault = HitEof | HitErr string | HitStall

text \<open>What a write brings: the bytes the server sends on account of it, or a failure.\<close>

datatype wr = Written "rd list" | WriteErr string | WriteStall

text \<open>A server: TCP connect, keepalive option, TLS set-up, TLS handshake, the bytes it sends on its own when
  connected, its reaction to a write, and the close of the connection.  \<open>HitEof\<close> does not occur in the
  connecting functions; \<open>HitErr\<close> and \<open>HitStall\<close> are a failure and the time-out.\<close>

record 's server =
  sv_tcp :: "'s \<Rightarrow> 's \<times> io_fault option"
  sv_keepalive :: "'s \<Rightarrow> string option"
  sv_tls_init :: "'s \<Rightarrow> string option"
  sv_tls :: "'s \<Rightarrow> 's \<times> io_fault option"
  sv_hello :: "'s \<Rightarrow> rd list"
  sv_write :: "'s \<Rightarrow> bytes \<Rightarrow> 's \<times> wr"
  sv_close :: "'s \<Rightarrow> 's"

text \<open>The carrier's end: the server's state, what is still to be read, the process-wide count of ends of
  input in the middle of a response, the tag counter of the IMAP carrier, and everything written so far.\<close>

record 's link =
  lk_server :: 's
  lk_in :: "rd list"
  lk_eofs :: nat
  lk_tag :: nat
  lk_sent :: "bytes list"

type_synonym ('s, 'a) session = "'s link \<Rightarrow> 'a res \<times> 's link"

definition se_return :: "'a \<Rightarrow> ('s, 'a) session" where
  "se_return a l = (Inr a, l)"

definition se_fail :: "antie_error \<Rightarrow> ('s, 'a) session" where
  "se_fail e l = (Inl e, l)"

definition se_bind :: "('s, 'a) session \<Rightarrow> ('a \<Rightarrow> ('s, 'b) session) \<Rightarrow> ('s, 'b) session" where
  "se_bind m f l = (case m l of (Inl e, l') \<Rightarrow> (Inl e, l') | (Inr a, l') \<Rightarrow> f a l')"

definition se_ignore :: "('s, 'a) session \<Rightarrow> ('s, unit) session" where
  "se_ignore m l = (Inr (), snd (m l))"

definition se_res :: "'a res \<Rightarrow> ('s, 'a) session" where
  "se_res r l = (r, l)"

fun se_map :: "('a \<Rightarrow> ('s, 'b) session) \<Rightarrow> 'a list \<Rightarrow> ('s, 'b list) session" where
  "se_map f [] = se_return []"
| "se_map f (a # as) = se_bind (f a) (\<lambda>b. se_bind (se_map f as) (\<lambda>bs. se_return (b # bs)))"

section \<open>The buffered reader\<close>

text \<open>A reader: the bytes in its buffer and the link.  Its buffer holds 8192 bytes, tokio's default.\<close>

type_synonym 's reader = "bytes \<times> 's link"

definition buffer_size :: nat where
  "buffer_size = 8192"

text \<open>One read of the socket into a buffer with room for \<open>n\<close> bytes.\<close>

fun take_read :: "nat \<Rightarrow> rd list \<Rightarrow> (io_fault + bytes) \<times> rd list" where
  "take_read n [] = (Inl HitEof, [])"
| "take_read n (Data d # ins) =
     (if d = [] then (Inl HitEof, Data d # ins)
      else (Inr (take n d), if length d \<le> n then ins else Data (drop n d) # ins))"
| "take_read n (ReadErr e # ins) = (Inl (HitErr e), ins)"
| "take_read n (Stalled # ins) = (Inl HitStall, ins)"

definition rd_size :: "rd list \<Rightarrow> nat" where
  "rd_size ins = sum_list (map (\<lambda>r. case r of Data d \<Rightarrow> Suc (length d) | _ \<Rightarrow> 1) ins)"

lemma rd_size_simps [simp]:
  "rd_size [] = 0" "rd_size (Data d # ins) = Suc (length d) + rd_size ins"
  "rd_size (ReadErr e # ins) = Suc (rd_size ins)" "rd_size (Stalled # ins) = Suc (rd_size ins)"
  by (simp_all add: rd_size_def)

lemma take_read_Inr:
  "take_read n ins = (Inr d, r) \<Longrightarrow> 0 < n \<Longrightarrow>
   d \<noteq> [] \<and> rd_size r < rd_size ins \<and> length d + rd_size r \<le> rd_size ins"
  by (cases "(n, ins)" rule: take_read.cases) (auto split: if_splits)

lemma take_read_back:
  "(Inr d, r) = take_read n ins \<Longrightarrow> 0 < n \<Longrightarrow> (\<exists>c e. d = c # e) \<and> rd_size r < rd_size ins"
  using take_read_Inr [of n ins d r] by (cases d) auto

lemma take_read_Inl: "take_read n ins = (Inl e, r) \<Longrightarrow> rd_size r \<le> rd_size ins"
  by (cases "(n, ins)" rule: take_read.cases) (auto split: if_splits)

lemma take_read_stall: "take_read n ins = (Inl HitStall, r) \<Longrightarrow> rd_size r < rd_size ins"
  by (cases "(n, ins)" rule: take_read.cases) (auto split: if_splits)

text \<open>\<open>read_line\<close> of tokio: up to and including the next line feed, or to the end of the input.\<close>

function raw_line :: "bytes \<Rightarrow> bytes \<Rightarrow> rd list \<Rightarrow> (io_fault + bytes) \<times> bytes \<times> rd list" where
  "raw_line acc buf ins =
     (case split_once CHR 0x0A buf of
        Some (a, b) \<Rightarrow> (Inr (acc @ a @ [CHR 0x0A]), b, ins)
      | None \<Rightarrow> (case take_read buffer_size ins of
            (Inr d, r) \<Rightarrow> raw_line (acc @ buf) d r
          | (Inl HitEof, r) \<Rightarrow> (Inr (acc @ buf), [], r)
          | (Inl e, r) \<Rightarrow> (Inl e, [], r)))"
  by auto
termination
  by (relation "measure (\<lambda>(acc, buf, ins). rd_size ins)") (auto dest!: take_read_back simp: buffer_size_def)

declare raw_line.simps [simp del]

text \<open>The carrier's reader: the end of the input is an error, never an empty line.\<close>

definition io_read_line :: "string \<Rightarrow> 's reader \<Rightarrow> bytes res \<times> 's reader" where
  "io_read_line what rdr =
     (case raw_line [] (fst rdr) (lk_in (snd rdr)) of
        (r, b, ins) \<Rightarrow>
          (let l = (snd rdr)\<lparr>lk_in := ins\<rparr> in
           case r of
             Inr [] \<Rightarrow> (Inl (ConfigError (what @ '': connection closed by server mid-response'')),
                        (b, l\<lparr>lk_eofs := lk_eofs l + 1\<rparr>))
           | Inr (c # line) \<Rightarrow>
               (if utf8_valid (c # line) then (Inr (c # line), (b, l))
                else (Inl (ConfigError (what @ '' read: stream did not contain valid UTF-8'')), (b, l)))
           | Inl (HitErr e) \<Rightarrow> (Inl (ConfigError (what @ '' read: '' @ e)), (b, l))
           | Inl _ \<Rightarrow> (Inl (ConfigError (what @ '' read: no data for 60s'')), (b, l))))"

text \<open>\<open>read_exact\<close>: \<open>n\<close> more bytes.  A request of at least the buffer's size bypasses an empty buffer.\<close>

function raw_exact :: "bytes \<Rightarrow> nat \<Rightarrow> bytes \<Rightarrow> rd list \<Rightarrow> (io_fault \<times> nat + bytes) \<times> bytes \<times> rd list" where
  "raw_exact acc n buf ins =
     (if n = 0 then (Inr acc, buf, ins)
      else if buf \<noteq> [] then raw_exact (acc @ take n buf) (n - length (take n buf)) (drop n buf) ins
      else if buffer_size \<le> n then (case take_read n ins of
            (Inr d, r) \<Rightarrow> raw_exact (acc @ d) (n - length d) [] r
          | (Inl e, r) \<Rightarrow> (Inl (e, n), [], r))
      else (case take_read buffer_size ins of
            (Inr d, r) \<Rightarrow> raw_exact acc n d r
          | (Inl e, r) \<Rightarrow> (Inl (e, n), [], r)))"
  by auto
termination
  by (relation "measure (\<lambda>(acc, n, buf, ins). 2 * n + (if buf = [] then 1 else 0))")
    (auto dest!: take_read_back simp: buffer_size_def neq_Nil_conv)

declare raw_exact.simps [simp del]

definition io_read_exact :: "nat \<Rightarrow> string \<Rightarrow> string \<Rightarrow> 's reader \<Rightarrow> bytes res \<times> 's reader" where
  "io_read_exact n what detail rdr =
     (case raw_exact [] n (fst rdr) (lk_in (snd rdr)) of
        (r, b, ins) \<Rightarrow>
          (let l = (snd rdr)\<lparr>lk_in := ins\<rparr> in
           case r of
             Inr d \<Rightarrow> (Inr d, (b, l))
           | Inl (HitEof, k) \<Rightarrow> (Inl (ConfigError (what @ '': connection closed by server mid-response '' @ detail @
               '' (literal '' @ dec k @ '' bytes short)'')), (b, l\<lparr>lk_eofs := lk_eofs l + 1\<rparr>))
           | Inl (HitErr e, k) \<Rightarrow> (Inl (ConfigError (what @ '' read '' @ detail @ '': '' @ e)), (b, l))
           | Inl (HitStall, k) \<Rightarrow> (Inl (ConfigError (what @ '' read '' @ detail @ '': no data for 60s ('' @
               dec k @ '' bytes short)'')), (b, l))))"

text \<open>A reader made for one step and dropped with whatever its buffer still holds.\<close>

definition with_reader :: "('s reader \<Rightarrow> 'a res \<times> 's reader) \<Rightarrow> ('s, 'a) session" where
  "with_reader f l = (case f ([], l) of (r, _, l') \<Rightarrow> (r, l'))"

section \<open>Writing, connecting, closing\<close>

definition io_write :: "'s server \<Rightarrow> bytes \<Rightarrow> string \<Rightarrow> ('s, unit) session" where
  "io_write sv b what l =
     (case sv_write sv (lk_server l) b of
        (s, Written ins) \<Rightarrow>
          (Inr (), l\<lparr>lk_server := s, lk_in := lk_in l @ ins, lk_sent := lk_sent l @ [b]\<rparr>)
      | (s, WriteErr e) \<Rightarrow> (Inl (ConfigError (what @ '' write: '' @ e)), l\<lparr>lk_server := s\<rparr>)
      | (s, WriteStall) \<Rightarrow> (Inl (ConfigError (what @ '' write: stalled for 60s'')), l\<lparr>lk_server := s\<rparr>))"

definition io_connect :: "'s server \<Rightarrow> string \<Rightarrow> string \<Rightarrow> nat \<Rightarrow> bool \<Rightarrow> ('s, unit) session" where
  "io_connect sv proto server port use_tls l =
     (let at = server @ '':'' @ dec port;
          up = (\<lambda>l. (Inr (), l\<lparr>lk_in := sv_hello sv (lk_server l)\<rparr>)) in
      case sv_tcp sv (lk_server l) of
        (s, Some HitStall) \<Rightarrow> (Inl (ConfigError (proto @ '' connect '' @ at @ '': timed out after 30s'')), l\<lparr>lk_server := s\<rparr>)
      | (s, Some (HitErr e)) \<Rightarrow> (Inl (ConfigError (proto @ '' connect '' @ at @ '': '' @ e)), l\<lparr>lk_server := s\<rparr>)
      | (s, Some HitEof) \<Rightarrow> (Inl (ConfigError (proto @ '' connect '' @ at @ '': '')), l\<lparr>lk_server := s\<rparr>)
      | (s, None) \<Rightarrow>
          (case sv_keepalive sv s of
             Some e \<Rightarrow> (Inl (ConfigError (proto @ '' keepalive: '' @ e)), l\<lparr>lk_server := s\<rparr>)
           | None \<Rightarrow>
               (if \<not> use_tls then up (l\<lparr>lk_server := s\<rparr>)
                else case sv_tls_init sv s of
                    Some e \<Rightarrow> (Inl (ConfigError (''TLS init: '' @ e)), l\<lparr>lk_server := s\<rparr>)
                  | None \<Rightarrow>
                      (case sv_tls sv s of
                         (s', Some HitStall) \<Rightarrow> (Inl (ConfigError (proto @ '' TLS handshake '' @ at @
                           '': timed out after 30s'')), l\<lparr>lk_server := s'\<rparr>)
                       | (s', Some (HitErr e)) \<Rightarrow> (Inl (ConfigError (proto @ '' TLS handshake: '' @ e)), l\<lparr>lk_server := s'\<rparr>)
                       | (s', Some HitEof) \<Rightarrow> (Inl (ConfigError (proto @ '' TLS handshake: '')), l\<lparr>lk_server := s'\<rparr>)
                       | (s', None) \<Rightarrow> up (l\<lparr>lk_server := s'\<rparr>)))))"

text \<open>The connection is dropped when the function that opened it returns, on every path.\<close>

definition closing :: "'s server \<Rightarrow> ('s, 'a) session \<Rightarrow> ('s, 'a) session" where
  "closing sv m l = (case m l of (r, l') \<Rightarrow> (r, l'\<lparr>lk_server := sv_close sv (lk_server l'), lk_in := []\<rparr>))"

section \<open>Progress\<close>

text \<open>A measure every successful read decreases: it is what makes the loops over responses end.\<close>

definition pending :: "'s reader \<Rightarrow> nat" where
  "pending rdr = length (fst rdr) + rd_size (lk_in (snd rdr))"

lemma raw_line_progress:
  "raw_line acc buf ins = (Inr line, b, r) \<Longrightarrow> length acc + length buf + rd_size ins \<ge> length line + length b + rd_size r"
proof (induction acc buf ins rule: raw_line.induct)
  case (1 acc buf ins)
  show ?case
  proof (cases "split_once CHR 0x0A buf")
    case (Some ab)
    then show ?thesis using 1(2) by (auto simp: raw_line.simps [of acc buf ins] split_once_Some split: prod.splits)
  next
    case None
    obtain x q where x: "take_read buffer_size ins = (x, q)" by fastforce
    show ?thesis
    proof (cases x)
      case (Inl f)
      then show ?thesis using 1(2) None x take_read_Inl [of buffer_size ins f q]
        by (cases f) (auto simp: raw_line.simps [of acc buf ins])
    next
      case (Inr d)
      with 1(2) None x have "raw_line (acc @ buf) d q = (Inr line, b, r)"
        by (simp add: raw_line.simps [of acc buf ins])
      from 1(1) [OF None x [symmetric] Inr this]
      show ?thesis using take_read_Inr [of buffer_size ins d q] x Inr by (simp add: buffer_size_def)
    qed
  qed
qed

lemma io_read_line_iff:
  "io_read_line what rdr = (Inr line, rdr') \<longleftrightarrow>
   (\<exists>b q. raw_line [] (fst rdr) (lk_in (snd rdr)) = (Inr line, b, q) \<and> line \<noteq> [] \<and> utf8_valid line \<and>
      rdr' = (b, (snd rdr)\<lparr>lk_in := q\<rparr>))"
proof -
  obtain x b q where x: "raw_line [] (fst rdr) (lk_in (snd rdr)) = (x, b, q)" by (metis prod_cases3)
  show ?thesis
    unfolding io_read_line_def Let_def x prod.case
    by (auto split: sum.splits list.splits io_fault.splits)
qed

lemma io_read_line_Inr:
  "io_read_line what rdr = (Inr line, rdr') \<Longrightarrow> line \<noteq> [] \<and> length line + pending rdr' \<le> pending rdr"
  unfolding io_read_line_iff pending_def by (auto dest!: raw_line_progress)

lemma io_read_line_smaller:
  "io_read_line what rdr = (Inr line, rdr') \<Longrightarrow> pending rdr' < pending rdr"
  using io_read_line_Inr [of what rdr line rdr'] by (cases line) auto

lemma raw_exact_progress:
  "raw_exact acc n buf ins = (x, b, r) \<Longrightarrow> length b + rd_size r \<le> length buf + rd_size ins"
proof (induction acc n buf ins rule: raw_exact.induct)
  case (1 acc n buf ins)
  note e = 1(4) [unfolded raw_exact.simps [of acc n buf ins]]
  show ?case
  proof (cases "n = 0")
    case True then show ?thesis using e by simp
  next
    case n: False
    show ?thesis
    proof (cases "buf \<noteq> []")
      case True
      have "length b + rd_size r \<le> length (drop n buf) + rd_size ins"
        using e n True by (intro 1(1) [OF n True]) simp
      then show ?thesis by simp
    next
      case buf: False
      define m where "m = (if buffer_size \<le> n then n else buffer_size)"
      have m: "0 < m" using n by (simp add: m_def buffer_size_def)
      obtain y q where y: "take_read m ins = (y, q)" by fastforce
      show ?thesis
      proof (cases y)
        case (Inl f)
        then show ?thesis using e n buf y take_read_Inl [of m ins f q]
          by (auto simp: m_def split: if_splits)
      next
        case (Inr d)
        note d = take_read_Inr [OF y [unfolded Inr] m]
        show ?thesis
        proof (cases "buffer_size \<le> n")
          case True
          have "length b + rd_size r \<le> length ([] :: bytes) + rd_size q"
            using e n buf y True Inr by (intro 1(2) [OF n buf True _ Inr]) (simp_all add: m_def)
          then show ?thesis using d by simp
        next
          case False
          have "length b + rd_size r \<le> length d + rd_size q"
            using e n buf y False Inr by (intro 1(3) [OF n buf False _ Inr]) (simp_all add: m_def)
          then show ?thesis using d by simp
        qed
      qed
    qed
  qed
qed

lemma io_read_exact_iff:
  "io_read_exact n what detail rdr = (Inr d, rdr') \<longleftrightarrow>
   (\<exists>b q. raw_exact [] n (fst rdr) (lk_in (snd rdr)) = (Inr d, b, q) \<and> rdr' = (b, (snd rdr)\<lparr>lk_in := q\<rparr>))"
proof -
  obtain x b q where x: "raw_exact [] n (fst rdr) (lk_in (snd rdr)) = (x, b, q)" by (metis prod_cases3)
  show ?thesis
    unfolding io_read_exact_def Let_def x prod.case
    by (auto split: sum.splits io_fault.splits)
qed

lemma io_read_exact_Inr:
  "io_read_exact n what detail rdr = (Inr d, rdr') \<Longrightarrow> pending rdr' \<le> pending rdr"
  unfolding io_read_exact_iff pending_def by (auto dest!: raw_exact_progress)

section \<open>Independence of the way the bytes arrive\<close>

text \<open>The text still to be read before \<open>rest\<close>, however it is cut into reads and buffered.\<close>

fun in_text :: "rd list \<Rightarrow> bytes" where
  "in_text [] = []"
| "in_text (Data d # ins) = d @ in_text ins"
| "in_text (_ # ins) = in_text ins"

definition solid :: "rd list \<Rightarrow> bool" where
  "solid ins = list_all (\<lambda>r. case r of Data d \<Rightarrow> d \<noteq> [] | _ \<Rightarrow> False) ins"

definition holds :: "bytes \<Rightarrow> rd list \<Rightarrow> 's reader \<Rightarrow> bool" where
  "holds s rest rdr = (\<exists>ins. lk_in (snd rdr) = ins @ rest \<and> solid ins \<and> fst rdr @ in_text ins = s)"

lemma solid_simps [simp]:
  "solid []" "solid (Data d # ins) \<longleftrightarrow> d \<noteq> [] \<and> solid ins" "\<not> solid (ReadErr e # ins)" "\<not> solid (Stalled # ins)"
  by (simp_all add: solid_def)

lemma in_text_append: "in_text (a @ b) = in_text a @ in_text b"
  by (induction a rule: in_text.induct) simp_all

lemma take_read_solid:
  assumes "solid ins" "in_text ins \<noteq> []" "0 < n"
  shows "\<exists>d ins'. take_read n (ins @ rest) = (Inr d, ins' @ rest) \<and> solid ins' \<and> in_text ins = d @ in_text ins' \<and>
    d \<noteq> [] \<and> length d \<le> n"
proof (cases ins)
  case (Cons r ins')
  with assms obtain d where r: "r = Data d" "d \<noteq> []" "solid ins'" by (cases r) auto
  show ?thesis
  proof (cases "length d \<le> n")
    case True
    then show ?thesis using r Cons by auto
  next
    case False
    then show ?thesis using r Cons assms(3)
      by (intro exI [of _ "take n d"] exI [of _ "Data (drop n d) # ins'"]) auto
  qed
qed (use assms in simp)

lemma split_once_append2:
  "split_once c a = None \<Longrightarrow> split_once c (a @ b) = (case split_once c b of None \<Rightarrow> None | Some (x, y) \<Rightarrow> Some (a @ x, y))"
  by (induction a) (auto split: if_splits option.splits)

lemma split_once_append1:
  "split_once c a = Some (x, y) \<Longrightarrow> split_once c (a @ b) = Some (x, y @ b)"
  by (auto simp: split_once_Some)

lemma raw_line_text:
  "solid ins \<Longrightarrow> split_once CHR 0x0A (buf @ in_text ins) = Some (a, b) \<Longrightarrow>
   \<exists>buf' ins'. raw_line acc buf (ins @ rest) = (Inr (acc @ a @ [CHR 0x0A]), buf', ins' @ rest) \<and> solid ins' \<and>
     buf' @ in_text ins' = b"
proof (induction "rd_size ins" arbitrary: acc buf ins a rule: less_induct)
  case less
  show ?case
  proof (cases "split_once CHR 0x0A buf")
    case (Some xy)
    obtain x y where xy: "xy = (x, y)" by (cases xy)
    with Some less(3) have "a = x" "b = y @ in_text ins"
      using split_once_append1 [of "CHR 0x0A" buf x y "in_text ins"] by auto
    then show ?thesis using Some xy less(2) by (auto simp: raw_line.simps [of acc buf])
  next
    case None
    from less(3) None obtain a' where a': "split_once CHR 0x0A (in_text ins) = Some (a', b)" "a = buf @ a'"
      by (auto simp: split_once_append2 split: option.splits)
    then have ne: "in_text ins \<noteq> []" by auto
    obtain d ins' where d: "take_read buffer_size (ins @ rest) = (Inr d, ins' @ rest)" "solid ins'"
      "in_text ins = d @ in_text ins'" "d \<noteq> []"
      using take_read_solid [OF less(2) ne, of buffer_size rest] by (auto simp: buffer_size_def)
    have smaller: "rd_size ins' < rd_size ins"
    proof -
      have "rd_size (ins' @ rest) < rd_size (ins @ rest)"
        using take_read_Inr [OF d(1)] by (simp add: buffer_size_def)
      then show ?thesis by (simp add: rd_size_def)
    qed
    have "raw_line acc buf (ins @ rest) = raw_line (acc @ buf) d (ins' @ rest)"
      using None d(1) by (simp add: raw_line.simps [of acc buf])
    then show ?thesis using less(1) [OF smaller d(2), of d a' "acc @ buf"] a' d(3) by simp
  qed
qed

lemma io_read_line_holds:
  assumes "holds (a @ CHR 0x0A # b) rest rdr" "CHR 0x0A \<notin> set a" "utf8_valid (a @ [CHR 0x0A])"
  shows "\<exists>rdr'. io_read_line what rdr = (Inr (a @ [CHR 0x0A]), rdr') \<and> holds b rest rdr' \<and>
    lk_eofs (snd rdr') = lk_eofs (snd rdr) \<and> lk_server (snd rdr') = lk_server (snd rdr) \<and>
    lk_tag (snd rdr') = lk_tag (snd rdr) \<and> lk_sent (snd rdr') = lk_sent (snd rdr)"
proof -
  from assms(1) obtain ins where i: "lk_in (snd rdr) = ins @ rest" "solid ins"
    "fst rdr @ in_text ins = a @ CHR 0x0A # b" by (auto simp: holds_def)
  then have "split_once CHR 0x0A (fst rdr @ in_text ins) = Some (a, b)" using assms(2) by (simp add: split_once_Some)
  from raw_line_text [OF i(2) this, of "[]" rest] obtain buf' ins' where
    "raw_line [] (fst rdr) (lk_in (snd rdr)) = (Inr (a @ [CHR 0x0A]), buf', ins' @ rest)" "solid ins'"
    "buf' @ in_text ins' = b" using i(1) by auto
  then show ?thesis unfolding io_read_line_iff using assms(3)
    by (intro exI [of _ "(buf', (snd rdr)\<lparr>lk_in := ins' @ rest\<rparr>)"]) (auto simp: holds_def)
qed

lemma raw_exact_text:
  "solid ins \<Longrightarrow> buf @ in_text ins = a @ b \<Longrightarrow> length a = n \<Longrightarrow>
   \<exists>buf' ins'. raw_exact acc n buf (ins @ rest) = (Inr (acc @ a), buf', ins' @ rest) \<and> solid ins' \<and>
     buf' @ in_text ins' = b"
proof (induction "2 * n + (if buf = [] then 1 else 0 :: nat)" arbitrary: acc n buf ins a rule: less_induct)
  case less
  note unf = raw_exact.simps [of acc n buf "ins @ rest"]
  consider "n = 0" | "n \<noteq> 0" "buf \<noteq> []" | "n \<noteq> 0" "buf = []" by blast
  then show ?case
  proof cases
    case 1
    then show ?thesis using less(2-4) by (subst unf) auto
  next
    case 2
    define k where "k = length (take n buf)"
    have k: "0 < k" "k \<le> n" using 2 by (simp_all add: k_def min_def)
    have "take n buf = take k a" "drop n buf @ in_text ins = drop k a @ b"
    proof -
      have "take k (buf @ in_text ins) = take k a" using less(3,4) k by simp
      then show "take n buf = take k a" by (simp add: k_def min_def split: if_splits)
      have "drop k (buf @ in_text ins) = drop k a @ b" using less(3,4) k by simp
      then show "drop n buf @ in_text ins = drop k a @ b" by (simp add: k_def min_def split: if_splits)
    qed
    note s = this
    have step: "raw_exact acc n buf (ins @ rest) = raw_exact (acc @ take k a) (n - k) (drop n buf) (ins @ rest)"
      by (subst unf) (use 2 s(1) k less(4) in \<open>simp add: min_absorb2\<close>)
    have m: "2 * (n - k) + (if drop n buf = [] then 1 else 0) < 2 * n + (if buf = [] then 1 else 0)"
    proof -
      have "Suc (2 * (n - k)) < 2 * n" using k by arith
      then show ?thesis using 2 by simp
    qed
    from less(1) [OF m less(2) s(2), of "acc @ take k a"] less(4) step show ?thesis by simp
  next
    case 3
    define m where "m = (if buffer_size \<le> n then n else buffer_size)"
    have m: "0 < m" using 3 by (simp add: m_def buffer_size_def)
    have ne: "in_text ins \<noteq> []" using less(3,4) 3 by auto
    obtain d ins' where d: "take_read m (ins @ rest) = (Inr d, ins' @ rest)" "solid ins'"
      "in_text ins = d @ in_text ins'" "d \<noteq> []" "length d \<le> m"
      using take_read_solid [OF less(2) ne m, of rest] by auto
    show ?thesis
    proof (cases "buffer_size \<le> n")
      case True
      have l: "length d \<le> n" using d(5) True by (simp add: m_def)
      have s: "d = take (length d) a" "[] @ in_text ins' = drop (length d) a @ b"
        using d(3) less(3,4) 3 l by (auto simp: append_eq_append_conv_if)
      have step: "raw_exact acc n buf (ins @ rest) = raw_exact (acc @ d) (n - length d) [] (ins' @ rest)"
        by (subst unf) (use 3 True d(1) in \<open>simp add: m_def\<close>)
      have "2 * (n - length d) + (if [] = [] then 1 else 0) < 2 * n + (if buf = [] then 1 else 0)"
        using d(4) 3 by (cases d) auto
      from less(1) [OF this d(2) s(2), of "acc @ d"] less(4) step show ?thesis using s(1)
        by (metis append_assoc append_take_drop_id length_drop)
    next
      case False
      have step: "raw_exact acc n buf (ins @ rest) = raw_exact acc n d (ins' @ rest)"
        by (subst unf) (use 3 False d(1) in \<open>simp add: m_def\<close>)
      have "2 * n + (if d = [] then 1 else 0) < 2 * n + (if buf = [] then 1 else 0)" using d(4) 3 by simp
      from less(1) [OF this d(2), of a acc] d(3) less(3,4) 3 step show ?thesis by simp
    qed
  qed
qed

lemma io_read_exact_holds:
  assumes "holds (a @ b) rest rdr" "length a = n"
  shows "\<exists>rdr'. io_read_exact n what detail rdr = (Inr a, rdr') \<and> holds b rest rdr' \<and>
    lk_eofs (snd rdr') = lk_eofs (snd rdr) \<and> lk_server (snd rdr') = lk_server (snd rdr) \<and>
    lk_tag (snd rdr') = lk_tag (snd rdr) \<and> lk_sent (snd rdr') = lk_sent (snd rdr)"
proof -
  from assms(1) obtain ins where i: "lk_in (snd rdr) = ins @ rest" "solid ins"
    "fst rdr @ in_text ins = a @ b" by (auto simp: holds_def)
  from raw_exact_text [OF i(2,3) assms(2), of "[]" rest] obtain buf' ins' where
    "raw_exact [] n (fst rdr) (lk_in (snd rdr)) = (Inr a, buf', ins' @ rest)" "solid ins'"
    "buf' @ in_text ins' = b" using i(1) by auto
  then show ?thesis unfolding io_read_exact_iff
    by (intro exI [of _ "(buf', (snd rdr)\<lparr>lk_in := ins' @ rest\<rparr>)"]) (auto simp: holds_def)
qed

section \<open>What is read and what is written\<close>

text \<open>A successful read takes its result off the front of the text that is there.\<close>

lemma take_read_content: "take_read n ins = (Inr d, r) \<Longrightarrow> in_text ins = d @ in_text r"
  by (cases "(n, ins)" rule: take_read.cases) (auto split: if_splits)

lemma take_read_eof: "take_read n ins = (Inl HitEof, r) \<Longrightarrow> in_text r = in_text ins"
  by (cases "(n, ins)" rule: take_read.cases) (auto split: if_splits)

lemma raw_line_content:
  "raw_line acc buf ins = (Inr line, b, r) \<Longrightarrow> acc @ buf @ in_text ins = line @ b @ in_text r"
proof (induction acc buf ins rule: raw_line.induct)
  case (1 acc buf ins)
  show ?case
  proof (cases "split_once CHR 0x0A buf")
    case (Some ab)
    then show ?thesis using 1(2) by (auto simp: raw_line.simps [of acc buf ins] split_once_Some split: prod.splits)
  next
    case None
    obtain x q where x: "take_read buffer_size ins = (x, q)" by fastforce
    show ?thesis
    proof (cases x)
      case (Inl f)
      then show ?thesis using 1(2) None x take_read_eof [of buffer_size ins q]
        by (cases f) (auto simp: raw_line.simps [of acc buf ins])
    next
      case (Inr d)
      with 1(2) None x have "raw_line (acc @ buf) d q = (Inr line, b, r)"
        by (simp add: raw_line.simps [of acc buf ins])
      from 1(1) [OF None x [symmetric] Inr this] take_read_content [of buffer_size ins d q] x Inr
      show ?thesis by simp
    qed
  qed
qed

lemma raw_exact_content:
  "raw_exact acc n buf ins = (Inr d, b, r) \<Longrightarrow> acc @ buf @ in_text ins = d @ b @ in_text r"
proof (induction acc n buf ins rule: raw_exact.induct)
  case (1 acc n buf ins)
  note e = 1(4) [unfolded raw_exact.simps [of acc n buf ins]]
  show ?case
  proof (cases "n = 0")
    case True then show ?thesis using e by simp
  next
    case n: False
    show ?thesis
    proof (cases "buf \<noteq> []")
      case True
      then have "(acc @ take n buf) @ drop n buf @ in_text ins = d @ b @ in_text r"
        using e n by (intro 1(1) [OF n True]) simp
      then show ?thesis by (metis append_assoc append_take_drop_id)
    next
      case buf: False
      define m where "m = (if buffer_size \<le> n then n else buffer_size)"
      obtain y q where y: "take_read m ins = (y, q)" by fastforce
      show ?thesis
      proof (cases y)
        case (Inl f)
        then show ?thesis using e n buf y by (auto simp: m_def split: if_splits)
      next
        case (Inr c)
        note c = take_read_content [OF y [unfolded Inr]]
        show ?thesis
        proof (cases "buffer_size \<le> n")
          case True
          have "(acc @ c) @ [] @ in_text q = d @ b @ in_text r"
            using e n buf y True Inr by (intro 1(2) [OF n buf True _ Inr]) (simp_all add: m_def)
          then show ?thesis using c buf by simp
        next
          case False
          have "acc @ c @ in_text q = d @ b @ in_text r"
            using e n buf y False Inr by (intro 1(3) [OF n buf False _ Inr]) (simp_all add: m_def)
          then show ?thesis using c buf by simp
        qed
      qed
    qed
  qed
qed

definition left :: "'s reader \<Rightarrow> bytes" where
  "left rdr = fst rdr @ in_text (lk_in (snd rdr))"

lemma io_read_line_left: "io_read_line what rdr = (Inr line, r) \<Longrightarrow> left rdr = line @ left r"
  unfolding io_read_line_iff left_def by (auto dest!: raw_line_content)

lemma io_read_exact_left: "io_read_exact n what detail rdr = (Inr d, r) \<Longrightarrow> left rdr = d @ left r"
  unfolding io_read_exact_iff left_def by (auto dest!: raw_exact_content)

text \<open>Everything a session writes satisfies \<open>P\<close>.\<close>

definition sends :: "(bytes \<Rightarrow> bool) \<Rightarrow> ('s, 'a) session \<Rightarrow> bool" where
  "sends P m = (\<forall>l. \<exists>bs. lk_sent (snd (m l)) = lk_sent l @ bs \<and> list_all P bs)"

named_theorems sends_intros \<open>rules for what a session writes\<close>

lemma sends_quiet: "(\<And>l. lk_sent (snd (m l)) = lk_sent l) \<Longrightarrow> sends P m"
  by (auto simp: sends_def)

lemma sends_return [sends_intros]: "sends P (se_return a)"
  by (rule sends_quiet) (simp add: se_return_def)

lemma sends_fail [sends_intros]: "sends P (se_fail e)"
  by (rule sends_quiet) (simp add: se_fail_def)

lemma sends_res: "sends P (se_res r)"
  by (rule sends_quiet) (simp add: se_res_def)

lemma sends_bind [sends_intros]:
  assumes "sends P m" "\<And>a. sends P (f a)"
  shows "sends P (se_bind m f)"
  unfolding sends_def
proof
  fix l
  obtain r l' where m: "m l = (r, l')" by fastforce
  from assms(1) obtain bs where bs: "lk_sent l' = lk_sent l @ bs" "list_all P bs"
    unfolding sends_def by (metis m snd_conv)
  show "\<exists>bs. lk_sent (snd (se_bind m f l)) = lk_sent l @ bs \<and> list_all P bs"
  proof (cases r)
    case (Inl e)
    then show ?thesis using m bs by (simp add: se_bind_def)
  next
    case (Inr a)
    from assms(2) [of a] obtain cs where "lk_sent (snd (f a l')) = lk_sent l' @ cs" "list_all P cs"
      unfolding sends_def by blast
    then show ?thesis using m bs Inr by (auto simp: se_bind_def)
  qed
qed

lemma sends_bind_res:
  "(\<And>a. r = Inr a \<Longrightarrow> sends P (f a)) \<Longrightarrow> sends P (se_bind (se_res r) f)"
  by (cases r) (auto simp: sends_def se_bind_def se_res_def)

lemma sends_ignore [sends_intros]: "sends P m \<Longrightarrow> sends P (se_ignore m)"
  by (auto simp: sends_def se_ignore_def)

lemma sends_map [sends_intros]: "(\<And>a. sends P (f a)) \<Longrightarrow> sends P (se_map f as)"
  by (induction as) (auto intro!: sends_intros)

lemma sends_map_in: "(\<And>a. a \<in> set as \<Longrightarrow> sends P (f a)) \<Longrightarrow> sends P (se_map f as)"
  by (induction as) (auto intro!: sends_return sends_bind)

lemma sends_write [sends_intros]: "P b \<Longrightarrow> sends P (io_write (sv :: 's server) b what)"
  unfolding sends_def
proof
  fix l :: "'s link" assume b: "P b"
  obtain s w where "sv_write sv (lk_server l) b = (s, w)" by fastforce
  then show "\<exists>bs. lk_sent (snd (io_write sv b what l)) = lk_sent l @ bs \<and> list_all P bs"
    using b by (cases w) (auto simp: io_write_def)
qed

lemma io_read_line_sent: "lk_sent (snd (snd (io_read_line what rdr))) = lk_sent (snd rdr)"
  by (auto simp: io_read_line_def Let_def split: prod.splits sum.splits list.splits io_fault.splits)

lemma io_read_exact_sent: "lk_sent (snd (snd (io_read_exact n what detail rdr))) = lk_sent (snd rdr)"
  by (auto simp: io_read_exact_def Let_def split: prod.splits sum.splits io_fault.splits)

lemma sends_reader:
  "(\<And>rdr. lk_sent (snd (snd (f rdr))) = lk_sent (snd rdr)) \<Longrightarrow> sends P (with_reader f)"
proof (rule sends_quiet)
  fix l assume f: "\<And>rdr. lk_sent (snd (snd (f rdr))) = lk_sent (snd rdr)"
  obtain r b l' where x: "f ([], l) = (r, b, l')" by (metis prod_cases3)
  then show "lk_sent (snd (with_reader f l)) = lk_sent l" using f [of "([], l)"] by (simp add: with_reader_def)
qed

lemma sends_connect [sends_intros]: "sends P (io_connect (sv :: 's server) proto server port use_tls)"
proof (rule sends_quiet)
  fix l :: "'s link"
  obtain s x where x: "sv_tcp sv (lk_server l) = (s, x)" by fastforce
  obtain s' y where y: "sv_tls sv s = (s', y)" by fastforce
  show "lk_sent (snd (io_connect sv proto server port use_tls l)) = lk_sent l"
    unfolding io_connect_def Let_def x prod.case y
    by (simp split: option.splits io_fault.splits)
qed

lemma sends_closing [sends_intros]: "sends P m \<Longrightarrow> sends P (closing sv m)"
  by (simp add: sends_def closing_def case_prod_beta)

section \<open>Trimming a line of text\<close>

definition graphic :: "char \<Rightarrow> bool" where
  "graphic c = (33 \<le> byte_val c \<and> byte_val c \<le> 126)"

lemma ws_not_graphic: "w \<in> set ws_encodings \<Longrightarrow> w \<noteq> [] \<and> \<not> graphic (hd w) \<and> \<not> graphic (last w)"
proof -
  have "list_all (\<lambda>w. w \<noteq> [] \<and> \<not> graphic (hd w) \<and> \<not> graphic (last w)) ws_encodings"
    by (simp add: ws_encodings_def byte_str_def graphic_def upt_rec)
  then show "w \<in> set ws_encodings \<Longrightarrow> w \<noteq> [] \<and> \<not> graphic (hd w) \<and> \<not> graphic (last w)"
    by (auto simp: list_all_iff)
qed

lemma strip_one_graphic: "graphic c \<Longrightarrow> strip_one ws_encodings (c # s) = None"
  using ws_not_graphic by (fastforce simp: strip_one_None starts_with_iff Cons_eq_append_conv)

lemma strip_one_rev_graphic: "graphic c \<Longrightarrow> strip_one (map rev ws_encodings) (c # s) = None"
proof -
  assume c: "graphic c"
  have "\<not> starts_with (rev w) (c # s)" if w: "w \<in> set ws_encodings" for w
  proof
    assume "starts_with (rev w) (c # s)"
    then obtain t where t: "c # s = rev w @ t" by (auto simp: starts_with_iff)
    have "rev w \<noteq> []" "hd (rev w) = last w" using ws_not_graphic [OF w] by (simp_all add: hd_rev)
    then have "last w = c" using t by (cases "rev w") auto
    then show False using ws_not_graphic [OF w] c by simp
  qed
  then show ?thesis by (auto simp: strip_one_None)
qed

lemma strip_front_graphic [simp]:
  "graphic c \<Longrightarrow> strip_front ws_encodings (c # s) = c # s"
  "graphic c \<Longrightarrow> strip_front (map rev ws_encodings) (c # s) = c # s"
  by (simp_all add: strip_front_id strip_one_graphic strip_one_rev_graphic)

lemma strip_front_crlf:
  "strip_front (map rev ws_encodings) (CHR 0x0A # s) = strip_front (map rev ws_encodings) s"
  "strip_front (map rev ws_encodings) (CHR 0x0D # s) = strip_front (map rev ws_encodings) s"
proof -
  have "strip_one (map rev ws_encodings) (CHR 0x0A # s) = Some s" "strip_one (map rev ws_encodings) (CHR 0x0D # s) = Some s"
    by (simp_all add: strip_one_def ws_encodings_def byte_str_def char_of_def bit_0)
  then show
    "strip_front (map rev ws_encodings) (CHR 0x0A # s) = strip_front (map rev ws_encodings) s"
    "strip_front (map rev ws_encodings) (CHR 0x0D # s) = strip_front (map rev ws_encodings) s"
    by (simp_all add: strip_front.simps [of _ "_ # s"])
qed

lemma trim_line: "s \<noteq> [] \<Longrightarrow> graphic (hd s) \<Longrightarrow> graphic (last s) \<Longrightarrow> trim (s @ [CHR 0x0D, CHR 0x0A]) = s"
proof -
  assume s: "s \<noteq> []" "graphic (hd s)" "graphic (last s)"
  obtain c t where c: "s = c # t" using s by (cases s) auto
  obtain u d where d: "s = u @ [d]" using s(1) by (cases s rule: rev_cases) auto
  then have g: "graphic d" using s(3) by simp
  have "trim_end (s @ [CHR 0x0D, CHR 0x0A]) = rev (strip_front (map rev ws_encodings) (d # rev u))"
    unfolding trim_end_def d by (simp add: strip_front_crlf)
  then have "trim_end (s @ [CHR 0x0D, CHR 0x0A]) = s" using g d by simp
  moreover have "trim_start (s @ [CHR 0x0D, CHR 0x0A]) = s @ [CHR 0x0D, CHR 0x0A]"
    using s(2) c by (simp add: trim_start_def)
  ultimately show ?thesis by (simp add: trim_def)
qed

lemma trim_infix: "\<exists>p q. s = p @ trim s @ q"
proof -
  have e: "\<exists>q. x = trim_end x @ q" for x
    using strip_front_suffix [of "rev x" "map rev ws_encodings"] unfolding trim_end_def
    by (metis rev_append rev_rev_ident)
  have "\<exists>p. x = p @ trim_start x" for x
    unfolding trim_start_def by (rule strip_front_suffix)
  with e show ?thesis unfolding trim_def by (metis append_assoc)
qed

lemma solid_nothing: "solid ins \<Longrightarrow> in_text ins = [] \<Longrightarrow> ins = []"
  by (cases ins rule: in_text.cases) auto

section \<open>Beats\<close>

text \<open>Moments in descending order, no two neighbours further apart than \<open>d\<close>.\<close>

fun gaps_within :: "nat \<Rightarrow> nat list \<Rightarrow> bool" where
  "gaps_within d (b # a # rest) = (a \<le> b \<and> b - a \<le> d \<and> gaps_within d (a # rest))"
| "gaps_within d xs = True"

lemma gaps_within_snoc: "gaps_within d (xs @ [b]) \<Longrightarrow> a \<le> b \<Longrightarrow> b \<le> a + d \<Longrightarrow> gaps_within d (xs @ [b, a])"
proof (induction xs)
  case (Cons x xs)
  then show ?case by (cases xs) auto
qed auto

end
