(* ===== verification/Imap.thy ===== *)
theory Imap
  imports Streams Config
begin

text \<open>
  The IMAP carrier (\<open>antie/src/carrier.rs\<close>, module \<open>imap_carrier\<close>): commands and their tagged completion,
  the byte-exact fetch of a literal, the IDLE wait, and the two operations of the inbound carrier.  The
  loops over a response are total functions: every turn consumes input.
\<close>

section \<open>Messages and commands\<close>

record incoming_message =
  inc_id :: string
  inc_raw :: bytes
  inc_source :: string

record imap_carrier =
  ik_server :: string
  ik_port :: nat
  ik_username :: string
  ik_password :: string
  ik_use_tls :: bool
  ik_inbox_folder :: string

definition imap_carrier_of :: "imap_config \<Rightarrow> imap_carrier" where
  "imap_carrier_of c = \<lparr>ik_server = im_server c, ik_port = im_port c, ik_username = im_username c,
     ik_password = im_password c, ik_use_tls = im_use_tls c, ik_inbox_folder = im_inbox_folder c\<rparr>"

definition crlf :: string where
  "crlf = [CHR 0x0D, CHR 0x0A]"

definition pad4 :: "string \<Rightarrow> string" where
  "pad4 s = replicate (4 - length s) CHR ''0'' @ s"

definition next_tag :: "('s, string) session" where
  "next_tag l = (Inr (''A'' @ pad4 (dec (lk_tag l))), l\<lparr>lk_tag := (lk_tag l + 1) mod 2 ^ 32\<rparr>)"

definition replace_char :: "char \<Rightarrow> string \<Rightarrow> string \<Rightarrow> string" where
  "replace_char c t s = concat (map (\<lambda>x. if x = c then t else [x]) s)"

definition imap_quote :: "string \<Rightarrow> string res" where
  "imap_quote s =
     (if CHR 0x0D \<in> set s \<or> CHR 0x0A \<in> set s then
        Inl (ConfigError (''IMAP argument contains CR/LF '' @ [CHR 0xE2, CHR 0x80, CHR 0x94] @
          '' refusing (command injection)''))
      else Inr ([CHR 0x22] @ replace_char CHR 0x22 [CHR 0x5C, CHR 0x22] (replace_char CHR 0x5C [CHR 0x5C, CHR 0x5C] s) @
        [CHR 0x22]))"

text \<open>Lines up to the one that starts with the tag and a space.\<close>

function command_lines :: "string \<Rightarrow> string list \<Rightarrow> 's reader \<Rightarrow> string list res \<times> 's reader" where
  "command_lines tag acc rdr =
     (case io_read_line ''IMAP'' rdr of
        (Inl e, r) \<Rightarrow> (Inl e, r)
      | (Inr line, r) \<Rightarrow>
          (case Option.bind (strip_prefix tag (trim line)) (\<lambda>rest. strip_prefix '' '' rest) of
             Some status \<Rightarrow>
               (if starts_with ''OK'' status then Inr (acc @ [trim line])
                else Inl (ConfigError (''IMAP: '' @ trim line)), r)
           | None \<Rightarrow> command_lines tag (acc @ [trim line]) r))"
  by auto
termination
  by (relation "measure (\<lambda>(tag, acc, rdr). pending rdr)") (auto dest: io_read_line_smaller [OF sym])

declare command_lines.simps [simp del]

definition imap_command :: "'s server \<Rightarrow> string \<Rightarrow> string \<Rightarrow> ('s, string list) session" where
  "imap_command sv tag cmd =
     se_bind (io_write sv (tag @ '' '' @ cmd @ crlf) ''IMAP'') (\<lambda>_. with_reader (command_lines tag []))"

definition read_greeting :: "('s, unit) session" where
  "read_greeting = with_reader (\<lambda>rdr. case io_read_line ''IMAP greeting'' rdr of
      (Inl e, r) \<Rightarrow> (Inl e, r)
    | (Inr line, r) \<Rightarrow> (if \<not> contains_str ''OK'' line then Inl (ConfigError (''IMAP bad greeting: '' @ trim line))
                       else Inr (), r))"

text \<open>The size a line announces at its end, as \<open>{SIZE}\<close>.\<close>

definition literal_size :: "string \<Rightarrow> nat option" where
  "literal_size trimmed =
     (if ends_with ''}'' trimmed then
        (case rsplit_once CHR ''{'' trimmed of
           Some (_, t) \<Rightarrow> parse_uint 64 (butlast t)
         | None \<Rightarrow> None)
      else None)"

function fetch_loop :: "string \<Rightarrow> string \<Rightarrow> bytes \<Rightarrow> 's reader \<Rightarrow> bytes res \<times> 's reader" where
  "fetch_loop tag detail data rdr =
     (case io_read_line (''IMAP FETCH '' @ detail) rdr of
        (Inl e, r) \<Rightarrow> (Inl e, r)
      | (Inr line, r) \<Rightarrow>
          (if starts_with tag (trim line) then (Inr data, r)
           else case literal_size (trim line) of
               None \<Rightarrow> fetch_loop tag detail data r
             | Some sz \<Rightarrow>
                 (case io_read_exact sz ''IMAP FETCH'' detail r of
                    (Inl e, r') \<Rightarrow> (Inl e, r')
                  | (Inr lit, r') \<Rightarrow> fetch_loop tag detail (data @ lit) r')))"
  by auto
termination
  by (relation "measure (\<lambda>(tag, detail, data, rdr). pending rdr)")
    (auto dest!: io_read_line_smaller [OF sym] io_read_exact_Inr [OF sym])

declare fetch_loop.simps [simp del]

definition fetch_message :: "'s server \<Rightarrow> string \<Rightarrow> string \<Rightarrow> ('s, bytes) session" where
  "fetch_message sv tag uid =
     se_bind (io_write sv (tag @ '' UID FETCH '' @ uid @ '' BODY.PEEK[]'' @ crlf) ''IMAP'')
       (\<lambda>_. with_reader (fetch_loop tag (''uid='' @ uid) []))"

section \<open>Sessions\<close>

definition imap_connect :: "'s server \<Rightarrow> imap_carrier \<Rightarrow> ('s, unit) session" where
  "imap_connect sv c = io_connect sv ''IMAP'' (ik_server c) (ik_port c) (ik_use_tls c)"

definition open_session :: "'s server \<Rightarrow> imap_carrier \<Rightarrow> ('s, unit) session" where
  "open_session sv c =
     se_bind read_greeting (\<lambda>_.
     se_bind next_tag (\<lambda>tag.
     se_bind (se_res (imap_quote (ik_username c))) (\<lambda>u.
     se_bind (se_res (imap_quote (ik_password c))) (\<lambda>p.
     se_bind (imap_command sv tag (''LOGIN '' @ u @ '' '' @ p)) (\<lambda>_.
     se_bind next_tag (\<lambda>tag.
     se_bind (se_res (imap_quote (ik_inbox_folder c))) (\<lambda>f.
     se_bind (imap_command sv tag (''SELECT '' @ f)) (\<lambda>_. se_return ()))))))))"

definition logout :: "'s server \<Rightarrow> ('s, unit) session" where
  "logout sv = se_bind next_tag (\<lambda>tag. se_ignore (imap_command sv tag ''LOGOUT''))"

definition search_uids :: "string list \<Rightarrow> string list" where
  "search_uids ls = concat (map (\<lambda>l. if starts_with ''* SEARCH'' l then drop 2 (split_ws l) else []) ls)"

definition imap_check_new :: "'s server \<Rightarrow> imap_carrier \<Rightarrow> ('s, incoming_message list) session" where
  "imap_check_new sv c = closing sv (
     se_bind (imap_connect sv c) (\<lambda>_.
     se_bind (open_session sv c) (\<lambda>_.
     se_bind next_tag (\<lambda>tag.
     se_bind (imap_command sv tag ''UID SEARCH UNSEEN'') (\<lambda>search_lines.
     se_bind (se_map (\<lambda>uid.
         se_bind next_tag (\<lambda>tag.
         se_bind (fetch_message sv tag uid) (\<lambda>raw.
         se_return \<lparr>inc_id = uid, inc_raw = raw,
           inc_source = ''imap://'' @ ik_server c @ '':'' @ dec (ik_port c) @ ''/'' @ ik_inbox_folder c @ ''/'' @ uid\<rparr>)))
       (search_uids search_lines)) (\<lambda>messages.
     se_bind (logout sv) (\<lambda>_.
     se_return messages)))))))"

definition imap_mark_processed :: "'s server \<Rightarrow> imap_carrier \<Rightarrow> string \<Rightarrow> ('s, unit) session" where
  "imap_mark_processed sv c message_id = closing sv (
     se_bind (imap_connect sv c) (\<lambda>_.
     se_bind (open_session sv c) (\<lambda>_.
     se_bind next_tag (\<lambda>tag.
     se_bind (imap_command sv tag (''UID STORE '' @ message_id @ '' +FLAGS ('' @ [CHR 0x5C] @ ''Deleted)'')) (\<lambda>_.
     se_bind next_tag (\<lambda>tag.
     se_bind (imap_command sv tag ''EXPUNGE'') (\<lambda>_.
     logout sv)))))))"

definition imap_mark_failed :: "string \<Rightarrow> string \<Rightarrow> ('s, unit) session" where
  "imap_mark_failed message_id reason = se_return ()"

definition imap_send :: "string \<Rightarrow> bytes \<Rightarrow> ('s, unit) session" where
  "imap_send to raw_email =
     se_fail (ConfigError (''IMAP send not supported '' @ [CHR 0xE2, CHR 0x80, CHR 0x94] @ '' use SMTP for outbound''))"

section \<open>The IDLE wait\<close>

text \<open>Waiting for mail, in slices of at most 60 seconds.  A turn of the loop ends with a line, or with its slice: one \<open>Stalled\<close> of the
  input, at which the deadline is looked at or \<open>beat\<close> is called.  The clock gives, for the k-th turn, how long its line took to be
  there and read, and how late the timer of its slice fired.  Times are in milliseconds.\<close>

record idle_clock =
  ic_wait :: "nat \<Rightarrow> nat"
  ic_late :: "nat \<Rightarrow> nat"

definition idle_beat_slice :: nat where
  "idle_beat_slice = 60 * 1000"

text \<open>\<open>fill_buf\<close>: what the buffer holds, or one read of the socket.\<close>

definition idle_fill :: "'s reader \<Rightarrow> (io_fault + unit) \<times> 's reader" where
  "idle_fill rdr =
     (if fst rdr \<noteq> [] then (Inr (), rdr)
      else case take_read buffer_size (lk_in (snd rdr)) of
          (Inl f, ins) \<Rightarrow> (Inl f, ([], (snd rdr)\<lparr>lk_in := ins\<rparr>))
        | (Inr d, ins) \<Rightarrow> (Inr (), (d, (snd rdr)\<lparr>lk_in := ins\<rparr>)))"

lemma idle_fill_stall: "idle_fill rdr = (Inl HitStall, r) \<Longrightarrow> pending r < pending rdr"
  by (auto simp: idle_fill_def pending_def dest!: take_read_stall split: if_splits prod.splits sum.splits)

lemma idle_fill_ready: "idle_fill rdr = (Inr u, r) \<Longrightarrow> pending r \<le> pending rdr"
  using take_read_Inr [of buffer_size "lk_in (snd rdr)"]
  by (auto simp: idle_fill_def pending_def buffer_size_def split: if_splits prod.splits sum.splits)

text \<open>From the turn \<open>k\<close> at the time \<open>now\<close>; the result is whether mail was announced, the moments of the beats, last first, the time and
  the reader.\<close>

function idle_loop :: "idle_clock \<Rightarrow> nat \<Rightarrow> nat \<Rightarrow> nat \<Rightarrow> nat list \<Rightarrow> 's reader \<Rightarrow> bool res \<times> nat list \<times> nat \<times> 's reader" where
  "idle_loop clk deadline k now beats rdr =
     (case idle_fill rdr of
        (Inl HitStall, r) \<Rightarrow>
          (let t = max now (min deadline (now + idle_beat_slice)) + ic_late clk k in
           if deadline \<le> t then (Inr False, beats, t, r)
           else idle_loop clk deadline (k + 1) t (t # beats) r)
      | (Inl (HitErr e), r) \<Rightarrow> (Inl (ConfigError (''IMAP idle read: '' @ e)), beats, now + ic_wait clk k, r)
      | (Inl HitEof, r) \<Rightarrow> (Inl (ConfigError ''IMAP: server closed the idle connection''), beats, now + ic_wait clk k, r)
      | (Inr _, r) \<Rightarrow>
          (case io_read_line ''IMAP idle'' r of
             (Inl e, r') \<Rightarrow> (Inl e, beats, now + ic_wait clk k, r')
           | (Inr line, r') \<Rightarrow>
               (if \<not> starts_with ''+'' (trim line) \<and> starts_with ''* '' (trim line) \<and>
                   (ends_with ''EXISTS'' (trim line) \<or> ends_with ''RECENT'' (trim line))
                then (Inr True, beats, now + ic_wait clk k, r')
                else idle_loop clk deadline (k + 1) (now + ic_wait clk k) beats r')))"
  by pat_completeness auto
termination
  by (relation "measure (\<lambda>(clk, deadline, k, now, beats, rdr). pending rdr)")
    (auto dest!: idle_fill_stall [OF sym] idle_fill_ready [OF sym] io_read_line_smaller [OF sym])

declare idle_loop.simps [simp del]

text \<open>After \<open>DONE\<close>: the lines up to the tagged completion; a failing read ends the loop.\<close>

function done_loop :: "string \<Rightarrow> 's reader \<Rightarrow> unit res \<times> 's reader" where
  "done_loop tag rdr =
     (case io_read_line ''IMAP idle DONE'' rdr of
        (Inl _, r) \<Rightarrow> (Inr (), r)
      | (Inr line, r) \<Rightarrow> (if starts_with tag (trim line) then (Inr (), r) else done_loop tag r))"
  by auto
termination
  by (relation "measure (\<lambda>(tag, rdr). pending rdr)") (auto dest!: io_read_line_smaller [OF sym])

declare done_loop.simps [simp del]

definition advertises_idle :: "string list \<Rightarrow> bool" where
  "advertises_idle caps =
     list_ex (\<lambda>l. starts_with ''* CAPABILITY'' l \<and> ''IDLE'' \<in> set (split_ws l)) caps"

definition has_hits :: "string list \<Rightarrow> bool" where
  "has_hits hits = list_ex (\<lambda>l. starts_with ''* SEARCH'' l \<and> drop 2 (split_ws l) \<noteq> []) hits"

text \<open>Up to the \<open>IDLE\<close> command: its tag, or none where mail is waiting already.\<close>

definition idle_open :: "'s server \<Rightarrow> imap_carrier \<Rightarrow> ('s, string option) session" where
  "idle_open sv c =
     se_bind (imap_connect sv c) (\<lambda>_.
     se_bind (open_session sv c) (\<lambda>_.
     se_bind next_tag (\<lambda>tag.
     se_bind (imap_command sv tag ''CAPABILITY'') (\<lambda>caps.
     if \<not> advertises_idle caps then
       se_fail (ConfigError (''IdleNotSupported: '' @ ik_server c @ '':'' @ dec (ik_port c) @
         '' does not advertise IDLE''))
     else
     se_bind next_tag (\<lambda>tag.
     se_bind (imap_command sv tag ''UID SEARCH UNSEEN'') (\<lambda>hits.
     if has_hits hits then se_bind (logout sv) (\<lambda>_. se_return None)
     else
     se_bind next_tag (\<lambda>tag.
     se_bind (io_write sv (tag @ '' IDLE'' @ crlf) ''IMAP'') (\<lambda>_. se_return (Some tag)))))))))"

definition idle_end :: "'s server \<Rightarrow> string \<Rightarrow> ('s, unit) session" where
  "idle_end sv tag =
     se_bind (io_write sv (''DONE'' @ crlf) ''IMAP'') (\<lambda>_.
     se_bind (with_reader (done_loop tag)) (\<lambda>_.
     logout sv))"

text \<open>The whole wait: whether mail is there, the moments of the beats and how long the wait took, both from the sending of \<open>IDLE\<close>.\<close>

definition idle_wait ::
  "'s server \<Rightarrow> imap_carrier \<Rightarrow> idle_clock \<Rightarrow> nat \<Rightarrow> 's link \<Rightarrow> (bool res \<times> nat list \<times> nat) \<times> 's link" where
  "idle_wait sv c clk recycle l =
     (let closed = (\<lambda>x l'. (x, snd (closing sv (se_return ()) l'))) in
      case idle_open sv c l of
        (Inl e, l1) \<Rightarrow> closed (Inl e, [], 0) l1
      | (Inr None, l1) \<Rightarrow> closed (Inr True, [], 0) l1
      | (Inr (Some tag), l1) \<Rightarrow>
          (case idle_loop clk recycle 0 0 [] ([], l1) of
             (Inl e, beats, t, (_, l2)) \<Rightarrow> closed (Inl e, beats, t) l2
           | (Inr saw, beats, t, (_, l2)) \<Rightarrow>
               (case idle_end sv tag l2 of (r, l3) \<Rightarrow> closed (map_sum id (\<lambda>_. saw) r, beats, t) l3)))"

section \<open>Lemmas\<close>

definition printable :: "string \<Rightarrow> bool" where
  "printable s = list_all (\<lambda>c. 32 \<le> byte_val c \<and> byte_val c \<le> 126) s"

lemma printable_simps [simp]:
  "printable []" "printable (a @ b) \<longleftrightarrow> printable a \<and> printable b"
  "printable (c # s) \<longleftrightarrow> 32 \<le> byte_val c \<and> byte_val c \<le> 126 \<and> printable s"
  by (auto simp: printable_def)

lemma printable_dec [simp]: "printable (dec n)"
  by (auto simp: printable_def list_all_iff is_digit_def dest!: dec_digits)

lemma printable_line:
  assumes "printable s"
  shows "CHR 0x0A \<notin> set (s @ [CHR 0x0D])" "utf8_valid ((s @ [CHR 0x0D]) @ [CHR 0x0A])"
proof -
  have p: "32 \<le> byte_val c \<and> byte_val c \<le> 126" if "c \<in> set s" for c
    using assms that by (auto simp: printable_def list_all_iff)
  have "CHR 0x0A \<notin> set s"
  proof
    assume "CHR 0x0A \<in> set s"
    from p [OF this] show False by (simp add: byte_val_def)
  qed
  then show "CHR 0x0A \<notin> set (s @ [CHR 0x0D])" by simp
  show "utf8_valid ((s @ [CHR 0x0D]) @ [CHR 0x0A])"
  proof (rule utf8_valid_ascii)
    fix c assume "c \<in> set ((s @ [CHR 0x0D]) @ [CHR 0x0A])"
    then consider "c \<in> set s" | "c = CHR 0x0D" | "c = CHR 0x0A" by auto
    then show "byte_val c < 0x80"
    proof cases
      case 1
      from p [OF this] show ?thesis by simp
    qed (simp_all add: byte_val_def)
  qed
qed

lemma read_printable:
  assumes "holds (s @ crlf @ b) rest rdr" "printable s"
  shows "\<exists>rdr'. io_read_line what rdr = (Inr (s @ crlf), rdr') \<and> holds b rest rdr' \<and>
    lk_eofs (snd rdr') = lk_eofs (snd rdr) \<and> lk_sent (snd rdr') = lk_sent (snd rdr) \<and> lk_tag (snd rdr') = lk_tag (snd rdr)"
  using io_read_line_holds [of "s @ [CHR 0x0D]" b rest rdr what] assms printable_line [OF assms(2)]
  by (auto simp: crlf_def)

lemma trim_crlf: "s \<noteq> [] \<Longrightarrow> graphic (hd s) \<Longrightarrow> graphic (last s) \<Longrightarrow> trim (s @ crlf) = s"
  by (simp add: crlf_def trim_line)

lemma literal_size_announced:
  "n < 2 ^ 64 \<Longrightarrow> literal_size (pre @ ''{'' @ dec n @ ''}'') = Some n"
proof -
  assume n: "n < 2 ^ 64"
  have "CHR ''{'' \<notin> set (dec n @ ''}'')"
    using dec_digits [of "CHR ''{''" n] by (auto simp: is_digit_def byte_val_def)
  then have "rsplit_once CHR ''{'' (pre @ CHR ''{'' # (dec n @ ''}'')) = Some (pre, dec n @ ''}'')"
    by (rule rsplit_once_append)
  then show ?thesis using parse_uint_dec [OF n] by (simp add: literal_size_def ends_with_def butlast_append)
qed

lemma fetch_loop_content:
  "fetch_loop tag detail data rdr = (Inr raw, r) \<Longrightarrow> contains_str tag (left rdr)"
proof (induction tag detail data rdr rule: fetch_loop.induct)
  case (1 tag detail data rdr)
  obtain x q where x: "io_read_line (''IMAP FETCH '' @ detail) rdr = (x, q)" by (metis surj_pair)
  show ?case
  proof (cases x)
    case (Inl e)
    then show ?thesis using 1(3) x by (simp add: fetch_loop.simps [of tag detail data rdr])
  next
    case (Inr line)
    have l: "left rdr = line @ left q" using x Inr by (simp add: io_read_line_left)
    show ?thesis
    proof (cases "starts_with tag (trim line)")
      case True
      obtain a b where "line = a @ trim line @ b" using trim_infix by blast
      moreover from True obtain t where "trim line = tag @ t" by (auto simp: starts_with_iff)
      ultimately have "left rdr = a @ tag @ (t @ b @ left q)" using l by simp
      then show ?thesis unfolding contains_str_iff by blast
    next
      case False
      have tail: "contains_str tag (left rdr)" if "contains_str tag (left q)"
        using that l unfolding contains_str_iff by (metis append_assoc)
      show ?thesis
      proof (cases "literal_size (trim line)")
        case None
        have "fetch_loop tag detail data q = (Inr raw, r)"
          using 1(3) x Inr False None by (simp add: fetch_loop.simps [of tag detail data rdr])
        from 1(1) [OF x [symmetric] Inr False None this] show ?thesis by (rule tail)
      next
        case (Some sz)
        obtain y q' where y: "io_read_exact sz ''IMAP FETCH'' detail q = (y, q')" by (metis surj_pair)
        show ?thesis
        proof (cases y)
          case (Inl e)
          then show ?thesis using 1(3) x Inr False Some y by (simp add: fetch_loop.simps [of tag detail data rdr])
        next
          case yr: (Inr lit)
          have "fetch_loop tag detail (data @ lit) q' = (Inr raw, r)"
            using 1(3) x Inr False Some y yr by (simp add: fetch_loop.simps [of tag detail data rdr])
          from 1(2) [OF x [symmetric] Inr False Some y [symmetric] yr this]
          have "contains_str tag (left q')" .
          moreover have "left q = lit @ left q'" using y yr by (simp add: io_read_exact_left)
          ultimately show ?thesis by (intro tail) (metis contains_str_iff append_assoc)
        qed
      qed
    qed
  qed
qed

section \<open>Properties\<close>

lemma fetch_exact:
  assumes "sv_write sv (lk_server l) (CHR ''A'' # t @ '' UID FETCH '' @ uid @ '' BODY.PEEK[]'' @ crlf) = (s', Written ins)"
    and "lk_in l = []" and "solid ins"
    and "in_text ins = CHR ''*'' # pre @ ''{'' @ dec (length raw) @ ''}'' @ crlf @ raw @ '')'' @ crlf @
           CHR ''A'' # t @ '' OK FETCH completed'' @ crlf"
    and "printable pre" and "printable t" and "length raw < 2 ^ 64"
  shows "fst (fetch_message sv (CHR ''A'' # t) uid l) = Inr raw"
proof -
  define l1 where "l1 = l\<lparr>lk_server := s', lk_in := ins,
     lk_sent := lk_sent l @ [CHR ''A'' # t @ '' UID FETCH '' @ uid @ '' BODY.PEEK[]'' @ crlf]\<rparr>"
  let ?head = "CHR ''*'' # pre @ ''{'' @ dec (length raw) @ ''}''"
  let ?done = "CHR ''A'' # t @ '' OK FETCH completed''"
  let ?d = "''uid='' @ uid"
  have h: "holds (?head @ crlf @ raw @ '')'' @ crlf @ ?done @ crlf @ []) [] ([], l1)"
    using assms(3,4) by (simp add: holds_def l1_def)
  have p: "printable ?head" "printable '')''" "printable ?done"
    using assms(5,6) by (simp_all add: byte_val_def)
  obtain r1 where r1: "io_read_line (''IMAP FETCH '' @ ?d) ([], l1) = (Inr (?head @ crlf), r1)"
    "holds (raw @ '')'' @ crlf @ ?done @ crlf @ []) [] r1"
    using read_printable [OF h p(1)] by blast
  obtain r2 where r2: "io_read_exact (length raw) ''IMAP FETCH'' ?d r1 = (Inr raw, r2)"
    "holds ('')'' @ crlf @ ?done @ crlf @ []) [] r2"
    using io_read_exact_holds [OF r1(2) refl] by blast
  obtain r3 where r3: "io_read_line (''IMAP FETCH '' @ ?d) r2 = (Inr ('')'' @ crlf), r3)"
    "holds (?done @ crlf @ []) [] r3"
    using read_printable [OF r2(2) p(2)] by blast
  obtain r4 where r4: "io_read_line (''IMAP FETCH '' @ ?d) r3 = (Inr (?done @ crlf), r4)"
    using read_printable [OF r3(2) p(3)] by blast
  have t1: "trim (?head @ crlf) = ?head" "trim ('')'' @ crlf) = '')''" "trim (?done @ crlf) = ?done"
    by (intro trim_crlf; simp add: graphic_def byte_val_def)+
  have sz: "literal_size ?head = Some (length raw)" "literal_size '')'' = None"
    using literal_size_announced [OF assms(7), of "CHR ''*'' # pre"] by (simp_all add: literal_size_def ends_with_def)
  have sw: "\<not> starts_with (CHR ''A'' # t) ?head" "\<not> starts_with (CHR ''A'' # t) '')''" "starts_with (CHR ''A'' # t) ?done"
    by (simp_all add: starts_with_iff)
  have "fetch_loop (CHR ''A'' # t) ?d [] ([], l1) = fetch_loop (CHR ''A'' # t) ?d raw r2"
    by (subst fetch_loop.simps) (simp only: r1(1) r2(1) t1 sw sz prod.case sum.case if_False option.case append_Nil)
  also have "\<dots> = fetch_loop (CHR ''A'' # t) ?d raw r3"
    by (subst fetch_loop.simps) (simp only: r3(1) t1 sw sz prod.case sum.case if_False option.case)
  also have "\<dots> = (Inr raw, r4)"
    by (subst fetch_loop.simps) (simp only: r4 t1 sw prod.case sum.case if_True)
  finally have "fetch_loop (CHR ''A'' # t) ?d [] ([], l1) = (Inr raw, r4)" .
  then show ?thesis
    using assms(1,2) by (simp add: fetch_message_def se_bind_def io_write_def with_reader_def l1_def case_prod_beta)
qed

text \<open>C30.  A fetched mail is exactly the mail the server holds: whatever bytes it consists of and however the
  reply is cut into reads, the carrier returns the announced literal, byte for byte.\<close>

theorem imap_fetch_exact:
  assumes "sv_write sv (lk_server l) (CHR ''A'' # t @ '' UID FETCH '' @ uid @ '' BODY.PEEK[]'' @ crlf) = (s', Written ins)"
    and "lk_in l = []" and "solid ins"
    and "in_text ins = CHR ''*'' # pre @ ''{'' @ dec (length raw) @ ''}'' @ crlf @ raw @ '')'' @ crlf @
           CHR ''A'' # t @ '' OK FETCH completed'' @ crlf"
    and "printable pre" and "printable t" and "length raw < 2 ^ 64"
  shows "fst (fetch_message sv (CHR ''A'' # t) uid l) = Inr raw"
  using assms by (rule fetch_exact)

text \<open> A mail cut short is never taken for a whole one: a fetch succeeds only if the tagged completion was
  received, so a connection that closes, fails or stalls before it is an error and the mail is fetched again.\<close>

lemma imap_no_truncation:
  assumes "fst (fetch_message sv tag uid l) = Inr raw" and "lk_in l = []"
  shows "\<exists>s' ins. sv_write sv (lk_server l) (tag @ '' UID FETCH '' @ uid @ '' BODY.PEEK[]'' @ crlf) = (s', Written ins) \<and>
    contains_str tag (in_text ins)"
proof -
  obtain s' w where w: "sv_write sv (lk_server l) (tag @ '' UID FETCH '' @ uid @ '' BODY.PEEK[]'' @ crlf) = (s', w)"
    by fastforce
  then obtain ins where ins: "w = Written ins" using assms(1)
    by (cases w) (auto simp: fetch_message_def se_bind_def io_write_def)
  define l1 where "l1 = l\<lparr>lk_server := s', lk_in := ins,
     lk_sent := lk_sent l @ [tag @ '' UID FETCH '' @ uid @ '' BODY.PEEK[]'' @ crlf]\<rparr>"
  obtain y r where y: "fetch_loop tag (''uid='' @ uid) [] ([], l1) = (y, r)" by (metis surj_pair)
  then have "y = Inr raw" using assms w ins
    by (simp add: fetch_message_def se_bind_def io_write_def with_reader_def l1_def case_prod_beta)
  with y have "contains_str tag (left ([], l1))" by (auto dest: fetch_loop_content)
  then show ?thesis using w ins by (simp add: left_def l1_def)
qed

text \<open>A server that answers every command with the same reads, for the examples.\<close>

definition canned :: "rd list \<Rightarrow> unit server" where
  "canned ins = \<lparr>sv_tcp = (\<lambda>s. (s, None)), sv_keepalive = (\<lambda>s. None), sv_tls_init = (\<lambda>s. None), sv_tls = (\<lambda>s. (s, None)),
     sv_hello = (\<lambda>s. [Data (''* OK ready'' @ crlf)]), sv_write = (\<lambda>s b. (s, Written ins)), sv_close = (\<lambda>s. s)\<rparr>"

definition fresh_link :: "unit link" where
  "fresh_link = \<lparr>lk_server = (), lk_in = [], lk_eofs = 0, lk_tag = 1, lk_sent = []\<rparr>"

lemma dec_digit: "n < 10 \<Longrightarrow> dec n = [digit n]"
  by (simp add: dec.simps)

lemma imap_fetch_exact_witness:
  "fst (fetch_message (canned [Data ''* 1 FETCH (BODY[] {'', Data ''3}'', Data (crlf @ [CHR 0xFF]),
      Data ([CHR 0x0A, CHR ''z''] @ '')'' @ crlf @ ''A'' @ ''0007 OK FETCH completed'' @ crlf)]) (CHR ''A'' # ''0007'') ''7'' fresh_link) =
   Inr [CHR 0xFF, CHR 0x0A, CHR ''z'']"
proof (rule imap_fetch_exact)
  have "dec 3 = ''3''" by (simp add: dec_digit digit_def char_of_def bit_0)
  then have d: "dec (Suc (Suc (Suc 0))) = ''3''" by (simp add: eval_nat_numeral)
  let ?ins = "[Data ''* 1 FETCH (BODY[] {'', Data ''3}'', Data (crlf @ [CHR 0xFF]),
      Data ([CHR 0x0A, CHR ''z''] @ '')'' @ crlf @ ''A'' @ ''0007 OK FETCH completed'' @ crlf)]"
  show "sv_write (canned ?ins) (lk_server fresh_link) (CHR ''A'' # ''0007'' @ '' UID FETCH '' @ ''7'' @ '' BODY.PEEK[]'' @ crlf) =
      ((), Written ?ins)" by (simp add: canned_def)
  show "in_text ?ins = CHR ''*'' # '' 1 FETCH (BODY[] '' @ ''{'' @ dec (length [CHR 0xFF, CHR 0x0A, CHR ''z'']) @ ''}'' @ crlf @
      [CHR 0xFF, CHR 0x0A, CHR ''z''] @ '')'' @ crlf @ CHR ''A'' # ''0007'' @ '' OK FETCH completed'' @ crlf"
    by (simp add: d)
qed (simp_all add: fresh_link_def crlf_def byte_val_def)

lemma imap_no_truncation_witness:
  "contains_str ''A0007'' (in_text [Data ''* 1 FETCH (BODY[] {0}'', Data (crlf @ '')'' @ crlf @ ''A0007 OK FETCH completed'' @ crlf)])"
proof -
  let ?ins = "[Data ''* 1 FETCH (BODY[] {0}'', Data (crlf @ '')'' @ crlf @ ''A0007 OK FETCH completed'' @ crlf)]"
  have d: "dec 0 = ''0''" by (simp add: dec_digit digit_def char_of_def bit_0)
  have "fst (fetch_message (canned ?ins) (CHR ''A'' # ''0007'') ''7'' fresh_link) = Inr []"
    by (rule fetch_exact [where pre = "'' 1 FETCH (BODY[] ''" and ins = ?ins and s' = "()"])
      (simp_all add: canned_def fresh_link_def crlf_def byte_val_def d)
  from imap_no_truncation [OF this] show ?thesis by (simp add: fresh_link_def canned_def)
qed

lemma replace_char_clean:
  "CHR 0x0D \<notin> set t \<Longrightarrow> CHR 0x0A \<notin> set t \<Longrightarrow> CHR 0x0D \<notin> set s \<Longrightarrow> CHR 0x0A \<notin> set s \<Longrightarrow>
   CHR 0x0D \<notin> set (replace_char c t s) \<and> CHR 0x0A \<notin> set (replace_char c t s)"
  by (auto simp: replace_char_def)

text \<open>The quoted string of RFC 9051 as a server reads it: up to the closing quote, a backslash making the next
  character literal.  The result is the value and what follows the closing quote.\<close>

fun unquote_body :: "string \<Rightarrow> (string \<times> string) option" where
  "unquote_body [] = None"
| "unquote_body (c # s) =
     (if c = CHR 0x22 then Some ([], s)
      else if c = CHR 0x5C then
        (case s of [] \<Rightarrow> None
         | d # t \<Rightarrow> (case unquote_body t of None \<Rightarrow> None | Some (v, r) \<Rightarrow> Some (d # v, r)))
      else (case unquote_body s of None \<Rightarrow> None | Some (v, r) \<Rightarrow> Some (c # v, r)))"

lemma unquote_escaped:
  "unquote_body (replace_char CHR 0x22 [CHR 0x5C, CHR 0x22] (replace_char CHR 0x5C [CHR 0x5C, CHR 0x5C] s) @ CHR 0x22 # r) =
   Some (s, r)"
  by (induction s) (auto simp: replace_char_def)

text \<open>No credential can carry a command: a value with a line break is refused, any other is sent as one
  quoted string, free of line breaks, that reads back to exactly the value wherever it stands in the line.\<close>

lemma imap_quote_exact:
  "case imap_quote s of
     Inl _ \<Rightarrow> CHR 0x0D \<in> set s \<or> CHR 0x0A \<in> set s
   | Inr q \<Rightarrow> CHR 0x0D \<notin> set q \<and> CHR 0x0A \<notin> set q \<and> (\<exists>b. q = CHR 0x22 # b \<and> unquote_body (b @ r) = Some (s, r))"
proof (cases "CHR 0x0D \<in> set s \<or> CHR 0x0A \<in> set s")
  case True
  then show ?thesis by (simp add: imap_quote_def)
next
  case False
  define e where "e = replace_char CHR 0x22 [CHR 0x5C, CHR 0x22] (replace_char CHR 0x5C [CHR 0x5C, CHR 0x5C] s)"
  have "CHR 0x0D \<notin> set e \<and> CHR 0x0A \<notin> set e"
    unfolding e_def using False by (intro replace_char_clean conjunct1 [OF replace_char_clean] conjunct2 [OF replace_char_clean]) auto
  moreover have "unquote_body ((e @ [CHR 0x22]) @ r) = Some (s, r)" using unquote_escaped [of s r] by (simp add: e_def)
  moreover have "imap_quote s = Inr (CHR 0x22 # e @ [CHR 0x22])" using False by (simp add: imap_quote_def e_def)
  ultimately show ?thesis by auto
qed

section \<open>The heartbeat of a wait\<close>

text \<open>A line that does not end the wait.\<close>

definition idle_noise :: "bytes \<Rightarrow> bool" where
  "idle_noise line = (\<exists>s. line = s @ [CHR 0x0A] \<and> CHR 0x0A \<notin> set s \<and> utf8_valid line \<and>
     \<not> (\<not> starts_with ''+'' (trim line) \<and> starts_with ''* '' (trim line) \<and>
        (ends_with ''EXISTS'' (trim line) \<or> ends_with ''RECENT'' (trim line))))"

text \<open>When the first \<open>n\<close> lines have come.\<close>

definition lines_took :: "idle_clock \<Rightarrow> nat \<Rightarrow> nat \<Rightarrow> nat" where
  "lines_took clk k n = sum_list (map (ic_wait clk) [k ..< k + n])"

lemma lines_took_Suc: "lines_took clk k (Suc n) = ic_wait clk k + lines_took clk (Suc k) n"
proof -
  have "[k ..< k + Suc n] = k # [Suc k ..< Suc k + n]" by (subst upt_conv_Cons) simp_all
  then show ?thesis by (simp only: lines_took_def list.map sum_list.Cons)
qed

lemma lines_took_0 [simp]: "lines_took clk k 0 = 0"
  by (simp add: lines_took_def)

definition same_link :: "'s link \<Rightarrow> 's link \<Rightarrow> bool" where
  "same_link l l' = (lk_server l' = lk_server l \<and> lk_eofs l' = lk_eofs l \<and> lk_tag l' = lk_tag l \<and> lk_sent l' = lk_sent l)"

lemma same_linkD: "same_link l l' \<Longrightarrow> l' = l\<lparr>lk_in := lk_in l'\<rparr>"
  by (cases l; cases l') (simp add: same_link_def)

lemma holds_filled:
  assumes "holds (c # s) rest rdr"
  shows "\<exists>u r. idle_fill rdr = (Inr u, r) \<and> holds (c # s) rest r \<and> same_link (snd rdr) (snd r)"
proof (cases "fst rdr = []")
  case False
  then show ?thesis using assms by (auto simp: idle_fill_def same_link_def)
next
  case True
  from assms obtain ins where i: "lk_in (snd rdr) = ins @ rest" "solid ins" "in_text ins = c # s"
    using True by (auto simp: holds_def)
  obtain d ins' where "take_read buffer_size (ins @ rest) = (Inr d, ins' @ rest)" "solid ins'" "in_text ins = d @ in_text ins'"
    using take_read_solid [OF i(2), of buffer_size rest] i(3) by (auto simp: buffer_size_def)
  then show ?thesis using True i by (auto simp: idle_fill_def holds_def same_link_def)
qed

text \<open>Lines, however they are cut into reads, cost their time and are no beat.\<close>

lemma idle_lines:
  assumes "holds (concat ls @ b) rest rdr" "list_all idle_noise ls"
  shows "\<exists>rdr'. idle_loop clk deadline k now beats rdr =
      idle_loop clk deadline (k + length ls) (now + lines_took clk k (length ls)) beats rdr' \<and>
    holds b rest rdr' \<and> same_link (snd rdr) (snd rdr')"
  using assms
proof (induction ls arbitrary: k now rdr)
  case Nil
  then show ?case by (intro exI [of _ rdr]) (simp add: same_link_def)
next
  case (Cons line ls)
  obtain s where s: "line = s @ [CHR 0x0A]" "CHR 0x0A \<notin> set s" "utf8_valid (s @ [CHR 0x0A])"
    and n: "\<not> (\<not> starts_with ''+'' (trim line) \<and> starts_with ''* '' (trim line) \<and>
        (ends_with ''EXISTS'' (trim line) \<or> ends_with ''RECENT'' (trim line)))"
    using Cons.prems(2) by (auto simp: idle_noise_def)
  have h: "holds (s @ CHR 0x0A # (concat ls @ b)) rest rdr" using Cons.prems(1) s(1) by simp
  obtain u r where f: "idle_fill rdr = (Inr u, r)" "holds (s @ CHR 0x0A # (concat ls @ b)) rest r"
    "same_link (snd rdr) (snd r)"
    using holds_filled [of "hd (s @ [CHR 0x0A])" "tl (s @ [CHR 0x0A]) @ concat ls @ b" rest rdr] h by (cases s) auto
  obtain r' where l: "io_read_line ''IMAP idle'' r = (Inr line, r')" "holds (concat ls @ b) rest r'"
    "lk_eofs (snd r') = lk_eofs (snd r)" "lk_server (snd r') = lk_server (snd r)"
    "lk_tag (snd r') = lk_tag (snd r)" "lk_sent (snd r') = lk_sent (snd r)"
    using io_read_line_holds [OF f(2) s(2,3), of "''IMAP idle''"] s(1) by auto
  have same: "same_link (snd rdr) (snd r')" using l(3-6) f(3) by (simp add: same_link_def)
  have "idle_loop clk deadline k now beats rdr = idle_loop clk deadline (Suc k) (now + ic_wait clk k) beats r'"
    using n by (subst idle_loop.simps) (simp only: f(1) l(1) prod.case sum.case if_False Suc_eq_plus1)
  moreover obtain q where "idle_loop clk deadline (Suc k) (now + ic_wait clk k) beats r' =
      idle_loop clk deadline (Suc k + length ls) (now + ic_wait clk k + lines_took clk (Suc k) (length ls)) beats q"
    "holds b rest q" "same_link (snd r') (snd q)"
    using Cons.IH [OF l(2), of "Suc k" "now + ic_wait clk k"] Cons.prems(2) unfolding list.pred_inject(2) by blast
  ultimately show ?case by (intro exI [of _ q]) (use same in \<open>simp add: lines_took_Suc add.assoc same_link_def\<close>)
qed

text \<open>Quiet slices: a beat after each, up to the deadline.\<close>

lemma idle_quiet:
  assumes "\<And>k. ic_late clk k \<le> late"
  shows "0 < n \<Longrightarrow> deadline \<le> now + idle_beat_slice * n \<Longrightarrow>
    \<exists>bs t m. idle_loop clk deadline k now beats ([], l\<lparr>lk_in := replicate n Stalled @ rest\<rparr>) =
       (Inr False, bs @ beats, t, ([], l\<lparr>lk_in := replicate m Stalled @ rest\<rparr>)) \<and>
      gaps_within (idle_beat_slice + late) (t # bs @ [now]) \<and> deadline \<le> t \<and> t \<le> max now deadline + late"
proof (induction n arbitrary: k now beats)
  case (Suc n)
  have f: "idle_fill ([], l\<lparr>lk_in := replicate (Suc n) Stalled @ rest\<rparr>) =
      (Inl HitStall, ([], l\<lparr>lk_in := replicate n Stalled @ rest\<rparr>))"
    by (simp add: idle_fill_def)
  define t where "t = max now (min deadline (now + idle_beat_slice)) + ic_late clk k"
  have t: "now \<le> t" "t \<le> now + (idle_beat_slice + late)" "t \<le> max now deadline + late"
    using assms [of k] by (auto simp: t_def idle_beat_slice_def)
  note step = idle_loop.simps [of clk deadline k now beats "([], l\<lparr>lk_in := replicate (Suc n) Stalled @ rest\<rparr>)",
      unfolded f prod.case sum.case io_fault.case Let_def, folded t_def]
  show ?case
  proof (cases "deadline \<le> t")
    case True
    then show ?thesis using t unfolding step by (intro exI [of _ "[]"] exI [of _ t] exI [of _ n]) simp
  next
    case False
    then have late: "t = now + idle_beat_slice + ic_late clk k" "0 < n" "deadline \<le> t + idle_beat_slice * n"
      using Suc.prems(2) by (auto simp: t_def split: if_splits) (cases n; simp)
    obtain bs t' m where ih: "idle_loop clk deadline (k + 1) t (t # beats) ([], l\<lparr>lk_in := replicate n Stalled @ rest\<rparr>) =
        (Inr False, bs @ t # beats, t', ([], l\<lparr>lk_in := replicate m Stalled @ rest\<rparr>))"
      "gaps_within (idle_beat_slice + late) (t' # bs @ [t])" "deadline \<le> t'" "t' \<le> max t deadline + late"
      using Suc.IH [OF late(2,3)] by blast
    have "gaps_within (idle_beat_slice + late) (t' # (bs @ [t]) @ [now])"
      using gaps_within_snoc [of "idle_beat_slice + late" "t' # bs" t now] ih(2) t by simp
    then show ?thesis
      using ih False unfolding step
      by (intro exI [of _ "bs @ [t]"] exI [of _ t'] exI [of _ m]) (auto simp: max_def split: if_splits)
  qed
qed simp


lemma noise_ascii: "CHR 0x0A \<notin> set s \<Longrightarrow> list_all (\<lambda>c. byte_val c < 0x80) s \<Longrightarrow> starts_with ''+'' (trim (s @ [CHR 0x0A])) \<Longrightarrow> idle_noise (s @ [CHR 0x0A])"
  unfolding idle_noise_def by (intro exI [of _ s]) (auto simp: list_all_iff byte_val_def intro!: utf8_valid_ascii)


end
