(* ===== verification/Pop3.thy ===== *)
theory Pop3
  imports Imap
begin

text \<open>
  The POP3 carrier (\<open>antie/src/carrier.rs\<close>, module \<open>pop3_carrier\<close>): one command and its reply line, the
  dot-terminated response and the two operations of the inbound carrier.
\<close>

section \<open>POP3\<close>

record pop3_carrier =
  pk_server :: string
  pk_port :: nat
  pk_username :: string
  pk_password :: string
  pk_use_tls :: bool

definition pop3_carrier_of :: "pop3_config \<Rightarrow> pop3_carrier" where
  "pop3_carrier_of c = \<lparr>pk_server = pp_server c, pk_port = pp_port c, pk_username = pp_username c,
     pk_password = pp_password c, pk_use_tls = pp_use_tls c\<rparr>"

definition pop3_connect :: "'s server \<Rightarrow> pop3_carrier \<Rightarrow> ('s, unit) session" where
  "pop3_connect sv c = io_connect sv ''POP3'' (pk_server c) (pk_port c) (pk_use_tls c)"

definition pop3_command :: "'s server \<Rightarrow> string \<Rightarrow> ('s, string) session" where
  "pop3_command sv cmd =
     se_bind (io_write sv (cmd @ crlf) ''POP3'') (\<lambda>_.
     se_bind (with_reader (io_read_line ''POP3'')) (\<lambda>line.
     if starts_with ''-ERR'' line then se_fail (ConfigError (''POP3: '' @ trim line)) else se_return line))"

function multiline_loop :: "string \<Rightarrow> bytes \<Rightarrow> 's reader \<Rightarrow> bytes res \<times> 's reader" where
  "multiline_loop which data rdr =
     (case io_read_line (''POP3 RETR '' @ which) rdr of
        (Inl e, r) \<Rightarrow> (Inl e, r)
      | (Inr line, r) \<Rightarrow>
          (if trim line = ''.'' then (Inr data, r)
           else multiline_loop which (data @ (if starts_with ''..'' line then drop 1 line else line)) r))"
  by auto
termination
  by (relation "measure (\<lambda>(which, data, rdr). pending rdr)") (auto dest!: io_read_line_smaller [OF sym])

declare multiline_loop.simps [simp del]

definition read_multiline :: "string \<Rightarrow> ('s, bytes) session" where
  "read_multiline which = with_reader (multiline_loop which [])"

definition pop3_login :: "'s server \<Rightarrow> pop3_carrier \<Rightarrow> ('s, unit) session" where
  "pop3_login sv c =
     se_bind (pop3_connect sv c) (\<lambda>_.
     se_bind (with_reader (io_read_line ''POP3'')) (\<lambda>greeting.
     se_bind (pop3_command sv (''USER '' @ pk_username c)) (\<lambda>_.
     se_bind (pop3_command sv (''PASS '' @ pk_password c)) (\<lambda>_. se_return ()))))"

definition stat_count :: "string \<Rightarrow> nat" where
  "stat_count stat_line = (case split_ws stat_line of
     _ # w # _ \<Rightarrow> (case parse_uint 64 w of Some n \<Rightarrow> n | None \<Rightarrow> 0)
   | _ \<Rightarrow> 0)"

definition pop3_check_new :: "'s server \<Rightarrow> pop3_carrier \<Rightarrow> ('s, incoming_message list) session" where
  "pop3_check_new sv c = closing sv (
     se_bind (pop3_login sv c) (\<lambda>_.
     se_bind (pop3_command sv ''STAT'') (\<lambda>stat_line.
     se_bind (se_map (\<lambda>i.
         se_bind (pop3_command sv (''RETR '' @ dec i)) (\<lambda>_.
         se_bind (read_multiline (''msg='' @ dec i)) (\<lambda>raw.
         se_return \<lparr>inc_id = dec i, inc_raw = raw,
           inc_source = ''pop3://'' @ pk_server c @ '':'' @ dec (pk_port c) @ ''/'' @ dec i\<rparr>)))
       [1 ..< stat_count stat_line + 1]) (\<lambda>messages.
     se_bind (se_ignore (pop3_command sv ''QUIT'')) (\<lambda>_.
     se_return messages)))))"

definition pop3_mark_processed :: "'s server \<Rightarrow> pop3_carrier \<Rightarrow> string \<Rightarrow> ('s, unit) session" where
  "pop3_mark_processed sv c message_id = closing sv (
     se_bind (pop3_login sv c) (\<lambda>_.
     se_bind (pop3_command sv (''DELE '' @ message_id)) (\<lambda>_.
     se_ignore (pop3_command sv ''QUIT''))))"

definition pop3_mark_failed :: "string \<Rightarrow> string \<Rightarrow> ('s, unit) session" where
  "pop3_mark_failed message_id reason = se_return ()"

definition pop3_send :: "string \<Rightarrow> bytes \<Rightarrow> ('s, unit) session" where
  "pop3_send to raw_email =
     se_fail (ConfigError (''POP3 cannot send '' @ [CHR 0xE2, CHR 0x80, CHR 0x94] @ '' use SMTP for outbound''))"

section \<open>Lemmas\<close>

lemma take_word_no_break: "c \<in> set (fst (take_word s)) \<Longrightarrow> c \<noteq> CHR 0x0D \<and> c \<noteq> CHR 0x0A"
proof (induction s)
  case (Cons d s)
  have w: "ws_here (CHR 0x0D # s)" "ws_here (CHR 0x0A # s)"
    by (simp_all add: ws_here_def strip_one_def ws_encodings_def byte_str_def char_of_def bit_0)
  show ?case
  proof (cases "ws_here (d # s)")
    case False
    then have "d \<noteq> CHR 0x0D \<and> d \<noteq> CHR 0x0A" using w by auto
    then show ?thesis using Cons False by (auto simp: case_prod_beta)
  qed (use Cons in auto)
qed simp

lemma split_ws_no_break: "w \<in> set (split_ws s) \<Longrightarrow> CHR 0x0D \<notin> set w \<and> CHR 0x0A \<notin> set w"
proof (induction s rule: split_ws.induct)
  case (1 s)
  show ?case
  proof (cases "trim_start s")
    case Nil
    then show ?thesis using 1(2) by (simp add: split_ws.simps [of s])
  next
    case (Cons c t)
    then have "w = fst (take_word (c # t)) \<or> w \<in> set (split_ws (snd (take_word (c # t))))"
      using 1(2) by (simp add: split_ws.simps [of s])
    then show ?thesis using 1(1) [OF Cons] take_word_no_break [of _ "c # t"] by blast
  qed
qed

lemma search_uids_no_break: "u \<in> set (search_uids ls) \<Longrightarrow> CHR 0x0D \<notin> set u \<and> CHR 0x0A \<notin> set u"
  by (auto simp: search_uids_def split: if_splits dest!: in_set_dropD split_ws_no_break)

lemma next_tag_shape: "next_tag l = (Inr t, l') \<Longrightarrow> (\<exists>d. t = CHR ''A'' # d \<and> list_all is_digit d) \<and> lk_sent l' = lk_sent l"
  by (auto simp: next_tag_def pad4_def list_all_iff is_digit_def byte_val_def dest!: dec_digits)

lemma sends_next_tag:
  fixes f :: "string \<Rightarrow> ('s, 'a) session"
  assumes "\<And>d. list_all is_digit d \<Longrightarrow> sends P (f (CHR ''A'' # d))"
  shows "sends P (se_bind next_tag f)"
  unfolding sends_def
proof
  fix l :: "'s link"
  obtain d l' where t: "next_tag l = (Inr (CHR ''A'' # d), l')" "list_all is_digit d" "lk_sent l' = lk_sent l"
    using next_tag_shape [of l] by (metis next_tag_def)
  from assms [OF t(2)] show "\<exists>bs. lk_sent (snd (se_bind next_tag f l)) = lk_sent l @ bs \<and> list_all P bs"
    unfolding sends_def se_bind_def by (metis (no_types, lifting) case_prod_conv old.sum.simps(6) t(1,3))
qed

lemma command_lines_sent: "lk_sent (snd (snd (command_lines tag acc rdr))) = lk_sent (snd rdr)"
proof (induction tag acc rdr rule: command_lines.induct)
  case (1 tag acc rdr)
  obtain x q where x: "io_read_line ''IMAP'' rdr = (x, q)" by (metis surj_pair)
  with io_read_line_sent [of "''IMAP''" rdr] have q: "lk_sent (snd q) = lk_sent (snd rdr)" by simp
  show ?case
  proof (cases x)
    case (Inr line)
    show ?thesis
    proof (cases "Option.bind (strip_prefix tag (trim line)) (\<lambda>rest. strip_prefix '' '' rest)")
      case None
      from 1 [OF x [symmetric] Inr None] show ?thesis using x Inr None q
        by (simp add: command_lines.simps [of tag acc rdr])
    next
      case (Some st)
      then show ?thesis using x Inr q by (simp add: command_lines.simps [of tag acc rdr])
    qed
  qed (use x q in \<open>simp add: command_lines.simps [of tag acc rdr]\<close>)
qed

lemma fetch_loop_sent: "lk_sent (snd (snd (fetch_loop tag detail data rdr))) = lk_sent (snd rdr)"
proof (induction tag detail data rdr rule: fetch_loop.induct)
  case (1 tag detail data rdr)
  obtain x q where x: "io_read_line (''IMAP FETCH '' @ detail) rdr = (x, q)" by (metis surj_pair)
  with io_read_line_sent [of "''IMAP FETCH '' @ detail" rdr] have q: "lk_sent (snd q) = lk_sent (snd rdr)" by simp
  show ?case
  proof (cases x)
    case (Inr line)
    consider "starts_with tag (trim line)" | "\<not> starts_with tag (trim line)" "literal_size (trim line) = None"
      | sz where "\<not> starts_with tag (trim line)" "literal_size (trim line) = Some sz" by blast
    then show ?thesis
    proof cases
      case 1
      then show ?thesis using x Inr q by (simp add: fetch_loop.simps [of tag detail data rdr])
    next
      case 2
      from "1.IH"(1) [OF x [symmetric] Inr 2] show ?thesis using x Inr 2 q
        by (simp add: fetch_loop.simps [of tag detail data rdr])
    next
      case 3
      obtain y q' where y: "io_read_exact sz ''IMAP FETCH'' detail q = (y, q')" by (metis surj_pair)
      with io_read_exact_sent [of sz "''IMAP FETCH''" detail q] have q': "lk_sent (snd q') = lk_sent (snd rdr)"
        using q by simp
      show ?thesis
      proof (cases y)
        case (Inr lit)
        from "1.IH"(2) [OF x [symmetric] \<open>x = Inr line\<close> 3 y [symmetric] Inr] show ?thesis
          using x \<open>x = Inr line\<close> 3 y Inr q' by (simp add: fetch_loop.simps [of tag detail data rdr])
      qed (use x Inr 3 y q' in \<open>simp add: fetch_loop.simps [of tag detail data rdr]\<close>)
    qed
  qed (use x q in \<open>simp add: fetch_loop.simps [of tag detail data rdr]\<close>)
qed

lemma multiline_sent: "lk_sent (snd (snd (multiline_loop which data rdr))) = lk_sent (snd rdr)"
proof (induction which data rdr rule: multiline_loop.induct)
  case (1 which data rdr)
  obtain x q where x: "io_read_line (''POP3 RETR '' @ which) rdr = (x, q)" by (metis surj_pair)
  with io_read_line_sent [of "''POP3 RETR '' @ which" rdr] have q: "lk_sent (snd q) = lk_sent (snd rdr)" by simp
  show ?case
  proof (cases x)
    case (Inr line)
    show ?thesis
    proof (cases "trim line = ''.''")
      case False
      from 1 [OF x [symmetric] Inr False] show ?thesis using x Inr False q
        by (simp add: multiline_loop.simps [of which data rdr])
    qed (use x Inr q in \<open>simp add: multiline_loop.simps [of which data rdr]\<close>)
  qed (use x q in \<open>simp add: multiline_loop.simps [of which data rdr]\<close>)
qed

lemma sends_imap_command: "P (tag @ '' '' @ cmd @ crlf) \<Longrightarrow> sends P (imap_command sv tag cmd)"
  unfolding imap_command_def by (intro sends_bind sends_write sends_reader command_lines_sent)

lemma sends_fetch: "P (tag @ '' UID FETCH '' @ uid @ '' BODY.PEEK[]'' @ crlf) \<Longrightarrow> sends P (fetch_message sv tag uid)"
  unfolding fetch_message_def by (intro sends_bind sends_write sends_reader fetch_loop_sent)

lemma sends_greeting: "sends P read_greeting"
  unfolding read_greeting_def
proof (rule sends_reader)
  fix rdr :: "'s reader"
  obtain x q where x: "io_read_line ''IMAP greeting'' rdr = (x, q)" by (metis surj_pair)
  with io_read_line_sent [of "''IMAP greeting''" rdr]
  show "lk_sent (snd (snd (case io_read_line ''IMAP greeting'' rdr of (Inl e, r) \<Rightarrow> (Inl e, r)
    | (Inr line, r) \<Rightarrow> (if \<not> contains_str ''OK'' line then Inl (ConfigError (''IMAP bad greeting: '' @ trim line))
                       else Inr (), r)))) = lk_sent (snd rdr)"
    by (cases x) simp_all
qed

lemma sends_pop3_command: "P (cmd @ crlf) \<Longrightarrow> sends P (pop3_command sv cmd)"
  unfolding pop3_command_def
  by (intro sends_bind sends_write sends_reader io_read_line_sent) (auto intro: sends_fail sends_return)

lemma sends_pop3_login:
  "P (''USER '' @ pk_username c @ crlf) \<Longrightarrow> P (''PASS '' @ pk_password c @ crlf) \<Longrightarrow> sends P (pop3_login sv c)"
  unfolding pop3_login_def pop3_connect_def
  by (intro sends_bind sends_connect sends_reader io_read_line_sent sends_pop3_command sends_return) simp_all

section \<open>Properties\<close>

text \<open>What a fetch may say to the server: log in, select, search, read without marking, leave.\<close>

definition imap_reads :: "bytes \<Rightarrow> bool" where
  "imap_reads b = (\<exists>d cmd. b = ''A'' @ d @ '' '' @ cmd @ crlf \<and> list_all is_digit d \<and>
     CHR 0x0D \<notin> set cmd \<and> CHR 0x0A \<notin> set cmd \<and>
     ((\<exists>r. cmd = ''LOGIN '' @ r) \<or> (\<exists>r. cmd = ''SELECT '' @ r) \<or> cmd = ''UID SEARCH UNSEEN'' \<or>
      (\<exists>u. cmd = ''UID FETCH '' @ u @ '' BODY.PEEK[]'') \<or> cmd = ''LOGOUT''))"

definition pop3_reads :: "pop3_carrier \<Rightarrow> bytes \<Rightarrow> bool" where
  "pop3_reads c b = (\<exists>cmd. b = cmd @ crlf \<and>
     (cmd = ''USER '' @ pk_username c \<or> cmd = ''PASS '' @ pk_password c \<or> cmd = ''STAT'' \<or>
      (\<exists>i. cmd = ''RETR '' @ dec i) \<or> cmd = ''QUIT''))"

lemma imap_quote_clean: "imap_quote s = Inr q \<Longrightarrow> CHR 0x0D \<notin> set q \<and> CHR 0x0A \<notin> set q"
  unfolding imap_quote_def
  by (auto split: if_splits dest!: replace_char_clean [of "[CHR 0x5C, CHR 0x22]" "replace_char CHR 0x5C [CHR 0x5C, CHR 0x5C] s" "CHR 0x22"]
      simp: replace_char_clean)

lemma imap_reads_intro:
  "list_all is_digit d \<Longrightarrow> CHR 0x0D \<notin> set cmd \<and> CHR 0x0A \<notin> set cmd \<Longrightarrow>
   (\<exists>r. cmd = ''LOGIN '' @ r) \<or> (\<exists>r. cmd = ''SELECT '' @ r) \<or> cmd = ''UID SEARCH UNSEEN'' \<or>
      (\<exists>u. cmd = ''UID FETCH '' @ u @ '' BODY.PEEK[]'') \<or> cmd = ''LOGOUT'' \<Longrightarrow>
   imap_reads ((CHR ''A'' # d) @ '' '' @ cmd @ crlf)"
  unfolding imap_reads_def by (rule exI [of _ d], rule exI [of _ cmd]) simp

lemma imap_reads_fetch:
  "list_all is_digit d \<Longrightarrow> CHR 0x0D \<notin> set u \<and> CHR 0x0A \<notin> set u \<Longrightarrow>
   imap_reads ((CHR ''A'' # d) @ '' UID FETCH '' @ u @ '' BODY.PEEK[]'' @ crlf)"
  using imap_reads_intro [of d "''UID FETCH '' @ u @ '' BODY.PEEK[]''"] by simp

lemma sends_logout: "sends imap_reads (logout sv)"
  unfolding logout_def
  by (intro sends_next_tag sends_ignore sends_imap_command imap_reads_intro) simp_all

lemma sends_open_session: "sends imap_reads (open_session sv c)"
  unfolding open_session_def
  by (intro sends_bind [OF sends_greeting] sends_next_tag sends_bind_res sends_bind [OF sends_imap_command] sends_return
      imap_reads_intro)
    (auto dest!: imap_quote_clean)

text \<open>Looking for mail deletes nothing: whatever the server answers, a fetch pass over IMAP or POP3 sends
  only log-in, search, read-without-marking and leave commands, each on one line; the server's copies are
  removed by \<open>mark_processed\<close> alone.\<close>

lemma check_new_reads_only:
  "(\<exists>bs. lk_sent (snd (imap_check_new sv ic l)) = lk_sent l @ bs \<and> list_all imap_reads bs) \<and>
   (\<exists>bs. lk_sent (snd (pop3_check_new sv pc l)) = lk_sent l @ bs \<and> list_all (pop3_reads pc) bs)"
proof -
  have "sends imap_reads (imap_check_new sv ic)"
    unfolding imap_check_new_def imap_connect_def
    apply (intro sends_closing sends_bind [OF sends_connect] sends_bind [OF sends_open_session] sends_next_tag
        sends_bind [OF sends_imap_command] sends_bind [OF sends_map_in] sends_bind [OF sends_fetch]
        sends_bind [OF sends_logout] sends_return imap_reads_intro imap_reads_fetch)
     apply (auto dest!: search_uids_no_break)
    done
  moreover have "sends (pop3_reads pc) (pop3_check_new sv pc)"
    unfolding pop3_check_new_def read_multiline_def
    by (intro sends_closing sends_bind [OF sends_pop3_login] sends_bind [OF sends_pop3_command] sends_bind [OF sends_map]
        sends_bind [OF sends_reader] multiline_sent sends_bind [OF sends_ignore] sends_pop3_command sends_return)
      (auto simp: pop3_reads_def)
  ultimately show ?thesis by (simp add: sends_def)
qed

text \<open>The mail of a POP3 reply: its lines, each ended by CR LF; on the wire a line that starts with a dot gets
  one more.\<close>

definition dot_stuff :: "string \<Rightarrow> string" where
  "dot_stuff s = (if starts_with ''.'' s then CHR ''.'' # s else s)"

definition lines_text :: "string list \<Rightarrow> bytes" where
  "lines_text ls = concat (map (\<lambda>s. s @ crlf) ls)"

definition stuffed_text :: "string list \<Rightarrow> bytes" where
  "stuffed_text ls = lines_text (map (\<lambda>s. dot_stuff s) ls) @ ''.'' @ crlf"

definition ends_reply :: "string \<Rightarrow> bool" where
  "ends_reply s = (trim (s @ crlf) = ''.'')"

lemma unstuff: "(if starts_with ''..'' (dot_stuff s @ crlf) then drop 1 (dot_stuff s @ crlf) else dot_stuff s @ crlf) = s @ crlf"
proof (cases s)
  case (Cons c t)
  then show ?thesis by (cases t) (auto simp: dot_stuff_def crlf_def)
qed (simp add: dot_stuff_def crlf_def)

lemma dot_printable: "printable ''.''"
  by (simp add: byte_val_def)

text \<open>The lines of a reply that are read: those before the one that ends it for this reader, and that one.\<close>

definition content_lines :: "string list \<Rightarrow> string list" where
  "content_lines ls = takeWhile (\<lambda>s. \<not> ends_reply (dot_stuff s)) ls"

definition lines_read :: "string list \<Rightarrow> string list" where
  "lines_read ls = content_lines ls @ take 1 (dropWhile (\<lambda>s. \<not> ends_reply (dot_stuff s)) ls)"

definition wire_utf8 :: "string \<Rightarrow> bool" where
  "wire_utf8 s = utf8_valid (dot_stuff s @ crlf)"

lemma lines_read_Cons: "lines_read (s # ls) = s # (if ends_reply (dot_stuff s) then [] else lines_read ls)"
  by (simp add: lines_read_def content_lines_def)

lemma io_read_line_not_utf8:
  assumes "holds (a @ CHR 0x0A # b) rest rdr" "CHR 0x0A \<notin> set a" "\<not> utf8_valid (a @ [CHR 0x0A])"
  shows "\<exists>e rdr'. io_read_line what rdr = (Inl e, rdr')"
proof -
  from assms(1) obtain ins where i: "lk_in (snd rdr) = ins @ rest" "solid ins"
    "fst rdr @ in_text ins = a @ CHR 0x0A # b" by (auto simp: holds_def)
  have "split_once CHR 0x0A (fst rdr @ in_text ins) = Some (a, b)" using assms(2) by (simp add: i(3))
  from raw_line_text [OF i(2) this, of "[]" rest] obtain b' q where
    "raw_line [] (fst rdr) (lk_in (snd rdr)) = (Inr (a @ [CHR 0x0A]), b', q)" unfolding i(1) by auto
  then have "io_read_line what rdr \<noteq> (Inr line, rdr')" for line rdr'
    using assms(3) by (auto simp: io_read_line_iff)
  then show ?thesis by (metis old.sum.exhaust surj_pair)
qed

lemma multiline_lines:
  "holds (stuffed_text ls @ b) rest rdr \<Longrightarrow> (\<And>s. s \<in> set ls \<Longrightarrow> CHR 0x0A \<notin> set s) \<Longrightarrow>
   (if list_all wire_utf8 (lines_read ls) then fst (multiline_loop which data rdr) = Inr (data @ lines_text (content_lines ls))
    else \<exists>e. fst (multiline_loop which data rdr) = Inl e)"
proof (induction ls arbitrary: data rdr)
  case Nil
  have "holds (''.'' @ crlf @ b) rest rdr" using Nil(1) by (simp add: stuffed_text_def lines_text_def)
  from read_printable [OF this] obtain r where "io_read_line (''POP3 RETR '' @ which) rdr = (Inr (''.'' @ crlf), r)"
    by (metis dot_printable)
  moreover have "trim (''.'' @ crlf) = ''.''" by (rule trim_crlf) (simp_all add: graphic_def byte_val_def)
  ultimately show ?case by (subst multiline_loop.simps) (simp add: lines_text_def lines_read_def content_lines_def)
next
  case (Cons s ls)
  have h: "holds ((dot_stuff s @ [CHR 0x0D]) @ CHR 0x0A # (stuffed_text ls @ b)) rest rdr"
    using Cons(2) by (simp add: stuffed_text_def lines_text_def crlf_def)
  have nl: "CHR 0x0A \<notin> set (dot_stuff s @ [CHR 0x0D])" using Cons(3) [of s] by (simp add: dot_stuff_def)
  show ?case
  proof (cases "wire_utf8 s")
    case False
    then have "\<not> utf8_valid ((dot_stuff s @ [CHR 0x0D]) @ [CHR 0x0A])" by (simp add: wire_utf8_def crlf_def)
    from io_read_line_not_utf8 [OF h nl this, of "''POP3 RETR '' @ which"] obtain e r where
      "io_read_line (''POP3 RETR '' @ which) rdr = (Inl e, r)" by blast
    then show ?thesis using False by (simp add: lines_read_Cons multiline_loop.simps [of which data rdr])
  next
    case True
    then have "utf8_valid ((dot_stuff s @ [CHR 0x0D]) @ [CHR 0x0A])" by (simp add: wire_utf8_def crlf_def)
    from io_read_line_holds [OF h nl this, of "''POP3 RETR '' @ which"] obtain r where
      "io_read_line (''POP3 RETR '' @ which) rdr = (Inr ((dot_stuff s @ [CHR 0x0D]) @ [CHR 0x0A]), r)"
      "holds (stuffed_text ls @ b) rest r"
      by blast
    then have r: "io_read_line (''POP3 RETR '' @ which) rdr = (Inr (dot_stuff s @ crlf), r)" "holds (stuffed_text ls @ b) rest r"
      by (simp_all add: crlf_def)
    show ?thesis
    proof (cases "ends_reply (dot_stuff s)")
      case end_: True
      then show ?thesis using r True
        by (subst multiline_loop.simps) (simp add: ends_reply_def lines_text_def lines_read_Cons content_lines_def)
    next
      case False
      have "multiline_loop which data rdr = multiline_loop which (data @ s @ crlf) r"
        using False by (subst multiline_loop.simps) (simp only: r(1) prod.case sum.case unstuff ends_reply_def if_False)
      then show ?thesis using Cons.IH [OF r(2), of "data @ s @ crlf"] Cons(3) False True
        by (simp add: lines_text_def lines_read_Cons content_lines_def)
    qed
  qed
qed

lemma trim_blank_dot: "trim (CHR '' '' # ''.'' @ crlf) = ''.''"
proof -
  have "strip_one ws_encodings (CHR '' '' # ''.'' @ crlf) = Some (''.'' @ crlf)"
    by (simp add: strip_one_def ws_encodings_def byte_str_def char_of_def bit_0)
  then have "trim_start (CHR '' '' # ''.'' @ crlf) = trim_start (''.'' @ crlf)"
    by (simp add: trim_start_def strip_front.simps [of _ "CHR '' '' # _"])
  then show ?thesis using trim_crlf [of "''.''"] by (simp add: trim_def graphic_def byte_val_def)
qed

text \<open>The reply line of a command may come in pieces; what shares a read with its end is dropped with the reader's buffer.\<close>

lemma raw_line_pieces:
  "solid pre \<Longrightarrow> CHR 0x0A \<notin> set (buf @ in_text pre @ s) \<Longrightarrow> length (s @ CHR 0x0A # lost) \<le> buffer_size \<Longrightarrow>
   raw_line acc buf (pre @ Data (s @ CHR 0x0A # lost) # post) = (Inr (acc @ buf @ in_text pre @ s @ [CHR 0x0A]), lost, post)"
proof (induction "rd_size pre" arbitrary: acc buf pre rule: less_induct)
  case less
  have nobuf: "split_once CHR 0x0A buf = None" using less(3) by (simp add: split_once_None)
  show ?case
  proof (cases "in_text pre = []")
    case True
    then have "pre = []" using less(2) by (rule solid_nothing [rotated])
    moreover have "split_once CHR 0x0A (s @ CHR 0x0A # lost) = Some (s, lost)" using less(3) by simp
    ultimately show ?thesis using nobuf less(4)
      by (simp add: raw_line.simps [of acc buf] raw_line.simps [of _ "s @ _"])
  next
    case False
    let ?rest = "Data (s @ CHR 0x0A # lost) # post"
    obtain d pre' where d: "take_read buffer_size (pre @ ?rest) = (Inr d, pre' @ ?rest)" "solid pre'" "in_text pre = d @ in_text pre'"
      using take_read_solid [OF less(2) False, of buffer_size ?rest] by (auto simp: buffer_size_def)
    have "rd_size (pre' @ ?rest) < rd_size (pre @ ?rest)" using take_read_Inr [OF d(1)] by (simp add: buffer_size_def)
    then have smaller: "rd_size pre' < rd_size pre" by (simp add: rd_size_def)
    have "raw_line acc buf (pre @ ?rest) = raw_line (acc @ buf) d (pre' @ ?rest)"
      using nobuf d(1) by (simp add: raw_line.simps [of acc buf])
    then show ?thesis using less(1) [OF smaller d(2), of d "acc @ buf"] less(3,4) d(3) by simp
  qed
qed

lemma command_drops_buffer:
  assumes "sv_write sv (lk_server l) (cmd @ crlf) = (s', Written (pre @ Data (s @ CHR 0x0A # lost) # later))"
    and "lk_in l = []" and "solid pre" and "CHR 0x0A \<notin> set (in_text pre @ s)" and "utf8_valid (in_text pre @ s @ [CHR 0x0A])"
    and "\<not> starts_with ''-ERR'' (in_text pre @ s @ [CHR 0x0A])" and "length (s @ CHR 0x0A # lost) \<le> buffer_size"
  shows "pop3_command sv cmd l = (Inr (in_text pre @ s @ [CHR 0x0A]),
     l\<lparr>lk_server := s', lk_in := later, lk_sent := lk_sent l @ [cmd @ crlf]\<rparr>)"
proof -
  have rl: "raw_line [] [] (pre @ Data (s @ CHR 0x0A # lost) # later) = (Inr (in_text pre @ s @ [CHR 0x0A]), lost, later)"
    using raw_line_pieces [OF assms(3) _ assms(7), of "[]" "[]" later] assms(4) by simp
  define l1 where "l1 = l\<lparr>lk_server := s', lk_in := pre @ Data (s @ CHR 0x0A # lost) # later, lk_sent := lk_sent l @ [cmd @ crlf]\<rparr>"
  have "io_read_line ''POP3'' ([], l1) = (Inr (in_text pre @ s @ [CHR 0x0A]), (lost, l1\<lparr>lk_in := later\<rparr>))"
    unfolding io_read_line_iff using rl assms(5) by (auto simp: l1_def)
  then show ?thesis using assms(1,2,6)
    by (simp add: pop3_command_def se_bind_def io_write_def with_reader_def l1_def se_return_def)
qed

text \<open>C36.  What a POP3 retrieval returns, from the command on.  The server answers RETR with a status line, in any pieces, the last of
  which also carries \<open>lost\<close>, and then with \<open>later\<close>, in any reads.  Whatever shares the read with the end of the status line is never seen: the mail is
  taken from \<open>later\<close> alone.  When nothing does, and \<open>later\<close> holds the whole mail, the retrieval returns its
  lines with the stuffed dots removed, up to the first that is a lone dot once white space is trimmed: a mail without
  such a line is returned whole, and a line of a blank and a dot, which is not the end of the reply, ends it.  It fails
  when a line it reads is not valid UTF-8.  (The status line is no error and valid UTF-8, and its last piece with \<open>lost\<close> is at most what
  the reader's buffer takes in one read, as every read is; nothing was left unread before the command.)\<close>

theorem pop3_retrieval_exact:
  assumes "sv_write sv (lk_server l) (''RETR '' @ dec i @ crlf) = (s', Written (pre @ Data (s @ CHR 0x0A # lost) # later))"
    and "lk_in l = []" and "solid pre" and "CHR 0x0A \<notin> set (in_text pre @ s)" and "utf8_valid (in_text pre @ s @ [CHR 0x0A])"
    and "\<not> starts_with ''-ERR'' (in_text pre @ s @ [CHR 0x0A])" and "length (s @ CHR 0x0A # lost) \<le> buffer_size"
  shows "let (retr, _) = se_bind (pop3_command sv (''RETR '' @ dec i)) (\<lambda>_. read_multiline which) l in
    retr = fst (read_multiline which (l\<lparr>lk_server := s', lk_in := later, lk_sent := lk_sent l @ [''RETR '' @ dec i @ crlf]\<rparr>)) \<and>
    (solid later \<and> in_text later = stuffed_text ls @ b \<and> (\<forall>t \<in> set ls. CHR 0x0A \<notin> set t) \<longrightarrow>
       (if list_all wire_utf8 (lines_read ls) then retr = Inr (lines_text (content_lines ls)) else \<exists>e. retr = Inl e))"
proof -
  define k where "k = l\<lparr>lk_server := s', lk_in := later, lk_sent := lk_sent l @ [''RETR '' @ dec i @ crlf]\<rparr>"
  have "pop3_command sv (''RETR '' @ dec i) l = (Inr (in_text pre @ s @ [CHR 0x0A]), k)"
    using command_drops_buffer [OF _ assms(2-7), of sv "''RETR '' @ dec i" s' later] assms(1) by (simp add: k_def)
  then have r: "se_bind (pop3_command sv (''RETR '' @ dec i)) (\<lambda>_. read_multiline which) l = read_multiline which k"
    by (simp add: se_bind_def)
  have "if list_all wire_utf8 (lines_read ls) then fst (read_multiline which k) = Inr (lines_text (content_lines ls))
      else \<exists>e. fst (read_multiline which k) = Inl e"
    if "solid later" "in_text later = stuffed_text ls @ b" "\<forall>t \<in> set ls. CHR 0x0A \<notin> set t"
  proof -
    have "holds (stuffed_text ls @ b) [] ([], k)" using that(1,2) by (simp add: holds_def k_def)
    from multiline_lines [OF this, of which "[]"] that(3) show ?thesis
      by (simp add: read_multiline_def with_reader_def case_prod_beta)
  qed
  then show ?thesis unfolding r k_def [symmetric] by (simp add: case_prod_beta)
qed

text \<open>The status line in two pieces, a mail with a stuffed line and one of a blank and a dot, in two reads.\<close>

lemma pop3_retrieval_exact_witness:
  "fst (se_bind (pop3_command (canned ([Data ''+O'', Data (''K'' @ crlf)] @
      [Data (''a'' @ crlf @ ''..b''), Data (crlf @ '' .'' @ crlf @ ''c'' @ crlf @ ''.'' @ crlf)])) (''RETR '' @ dec 1))
     (\<lambda>_. read_multiline ''msg=1'') fresh_link) = Inr (''a'' @ crlf @ ''.b'' @ crlf)"
proof -
  let ?ls = "[''a'', ''.b'', '' .'', ''c'']"
  let ?later = "[Data (''a'' @ crlf @ ''..b''), Data (crlf @ '' .'' @ crlf @ ''c'' @ crlf @ ''.'' @ crlf)]"
  let ?sv = "canned ([Data ''+O''] @ Data ((''K'' @ [CHR 0x0D]) @ CHR 0x0A # []) # ?later)"
  have u: "wire_utf8 s" if "s \<in> {''a'', ''.b'', '' .'', ''c''}" for s
    unfolding wire_utf8_def using that by (intro utf8_valid_ascii) (auto simp: dot_stuff_def crlf_def byte_val_def)
  have e: "\<not> ends_reply ''a''" "\<not> ends_reply ''..b''" "ends_reply '' .''"
    using trim_crlf [of "''a''"] trim_crlf [of "''..b''"] trim_blank_dot by (simp_all add: ends_reply_def graphic_def byte_val_def)
  have read: "lines_read ?ls = [''a'', ''.b'', '' .'']" "content_lines ?ls = [''a'', ''.b'']"
    using e by (simp_all add: lines_read_def content_lines_def dot_stuff_def)
  have w: "sv_write ?sv (lk_server fresh_link) (''RETR '' @ dec 1 @ crlf) = ((), Written ([Data ''+O''] @ Data ((''K'' @ [CHR 0x0D]) @ CHR 0x0A # []) # ?later))"
    by (simp add: canned_def)
  have s: "lk_in fresh_link = []" "solid [Data ''+O'']" "CHR 0x0A \<notin> set (in_text [Data ''+O''] @ ''K'' @ [CHR 0x0D])"
    "utf8_valid (in_text [Data ''+O''] @ (''K'' @ [CHR 0x0D]) @ [CHR 0x0A])"
    "\<not> starts_with ''-ERR'' (in_text [Data ''+O''] @ (''K'' @ [CHR 0x0D]) @ [CHR 0x0A])"
    "length ((''K'' @ [CHR 0x0D]) @ CHR 0x0A # []) \<le> buffer_size"
    by (auto simp: fresh_link_def buffer_size_def byte_val_def intro!: utf8_valid_ascii)
  have later: "solid ?later" "in_text ?later = stuffed_text ?ls @ []" "\<forall>t \<in> set ?ls. CHR 0x0A \<notin> set t" "list_all wire_utf8 (lines_read ?ls)"
    using u by (simp_all add: read stuffed_text_def lines_text_def dot_stuff_def)
  have "fst (se_bind (pop3_command ?sv (''RETR '' @ dec 1)) (\<lambda>_. read_multiline ''msg=1'') fresh_link) = Inr (lines_text (content_lines ?ls))"
    using pop3_retrieval_exact [OF w s, of "''msg=1''" ?ls "[]", unfolded Let_def case_prod_beta, THEN conjunct2, THEN mp,
        OF conjI [OF later(1) conjI [OF later(2,3)]]] later(4) by (simp only: if_True)
  then show ?thesis by (simp add: read lines_text_def crlf_def)
qed

text \<open>A message that arrives together with the status line of its RETR is lost: the reader that took the
  status line is dropped with the message in its buffer, and what is then read as the message is whatever
  comes after it.  If nothing does, the retrieval fails although the server sent the whole message.\<close>

lemma pop3_coalesced_lost:
  assumes "sv_write sv (lk_server l) (''RETR '' @ dec i @ crlf) = (s', Written (Data (status @ CHR 0x0A # body) # later))"
    and "lk_in l = []" and "CHR 0x0A \<notin> set status" and "utf8_valid (status @ [CHR 0x0A])"
    and "\<not> starts_with ''-ERR'' (status @ [CHR 0x0A])" and "length status + length body < 8192"
  shows "se_bind (pop3_command sv (''RETR '' @ dec i)) (\<lambda>_. read_multiline which) l =
      read_multiline which (l\<lparr>lk_server := s', lk_in := later, lk_sent := lk_sent l @ [''RETR '' @ dec i @ crlf]\<rparr>) \<and>
    (if later = [] then \<exists>e. fst (se_bind (pop3_command sv (''RETR '' @ dec i)) (\<lambda>_. read_multiline which) l) = Inl e else True)"
proof -
  have run: "se_bind (pop3_command sv (''RETR '' @ dec i)) (\<lambda>_. read_multiline which) l =
      read_multiline which (l\<lparr>lk_server := s', lk_in := later, lk_sent := lk_sent l @ [''RETR '' @ dec i @ crlf]\<rparr>)"
    using command_drops_buffer [of sv l "''RETR '' @ dec i" s' "[]" status body later] assms
    by (simp add: se_bind_def buffer_size_def)
  have "\<exists>e. fst (read_multiline which (k :: 'a link)) = Inl e" if "lk_in k = []" for k
  proof -
    have rl: "raw_line [] [] [] = (Inr [], [], [])" by (simp add: raw_line.simps)
    obtain x r where x: "io_read_line (''POP3 RETR '' @ which) ([], k) = (x, r)" by (metis surj_pair)
    have "x \<noteq> Inr line" for line
      using x io_read_line_iff [of "''POP3 RETR '' @ which" "([], k)" line r] that rl by auto
    then obtain e where "io_read_line (''POP3 RETR '' @ which) ([], k) = (Inl e, r)" using x by (cases x) auto
    then show ?thesis by (simp add: read_multiline_def with_reader_def multiline_loop.simps [of which "[]"] case_prod_beta)
  qed
  then show ?thesis unfolding run by simp
qed

lemma pop3_coalesced_lost_witness:
  "\<exists>e. fst (se_bind (pop3_command (canned [Data (''+OK'' @ crlf @ ''hi'' @ crlf @ ''.'' @ crlf)]) (''RETR '' @ dec 1))
     (\<lambda>_. read_multiline ''msg=1'') fresh_link) = Inl e"
proof -
  have u: "utf8_valid ((''+OK'' @ [CHR 0x0D]) @ [CHR 0x0A])" by (rule utf8_valid_ascii) (auto simp: byte_val_def)
  have w: "sv_write (canned [Data (''+OK'' @ crlf @ ''hi'' @ crlf @ ''.'' @ crlf)]) (lk_server fresh_link) (''RETR '' @ dec 1 @ crlf) =
      ((), Written (Data ((''+OK'' @ [CHR 0x0D]) @ CHR 0x0A # (''hi'' @ crlf @ ''.'' @ crlf)) # []))"
    by (simp add: canned_def crlf_def)
  have "lk_in fresh_link = []" by (simp add: fresh_link_def)
  from conjunct2 [OF pop3_coalesced_lost [OF w this _ u]] show ?thesis by (simp add: crlf_def)
qed

section \<open>Deleting by number\<close>

text \<open>A POP3 server by RFC 1939, as an instance for the statement below: message numbers are positions in the
  mailbox as it is when the session starts, and QUIT removes the marked ones.\<close>

record pop3_box =
  bx_mail :: "bytes list"
  bx_marked :: "nat list"

definition box :: "bytes list \<Rightarrow> pop3_box" where
  "box ms = \<lparr>bx_mail = ms, bx_marked = []\<rparr>"

definition plus_ok :: wr where
  "plus_ok = Written [Data (''+OK'' @ crlf)]"

definition commit :: "pop3_box \<Rightarrow> pop3_box" where
  "commit bx = box (map snd (filter (\<lambda>im. fst im \<notin> set (bx_marked bx)) (enumerate 1 (bx_mail bx))))"

definition box_write :: "pop3_box \<Rightarrow> bytes \<Rightarrow> pop3_box \<times> wr" where
  "box_write s b =
     (if b = ''QUIT'' @ crlf then (commit s, plus_ok)
      else if starts_with ''DELE '' b then
        (case find (\<lambda>i. b = ''DELE '' @ dec i @ crlf) [1 ..< length (bx_mail s) + 1] of
           Some i \<Rightarrow> (s\<lparr>bx_marked := bx_marked s @ [i]\<rparr>, plus_ok)
         | None \<Rightarrow> (s, Written [Data (''-ERR'' @ crlf)]))
      else (s, plus_ok))"

definition box_server :: "pop3_box server" where
  "box_server = \<lparr>sv_tcp = (\<lambda>s. (s, None)), sv_keepalive = (\<lambda>s. None), sv_tls_init = (\<lambda>s. None), sv_tls = (\<lambda>s. (s, None)),
     sv_hello = (\<lambda>s. [Data (''+OK'' @ crlf)]), sv_write = box_write, sv_close = (\<lambda>s. s\<lparr>bx_marked := []\<rparr>)\<rparr>"

lemma plus_ok_answer:
  assumes "sv_write sv (lk_server l) (cmd @ crlf) = (s', plus_ok)" "lk_in l = []"
  shows "pop3_command sv cmd l = (Inr (''+OK'' @ crlf), l\<lparr>lk_server := s', lk_sent := lk_sent l @ [cmd @ crlf]\<rparr>)"
proof -
  have u: "utf8_valid ((''+OK'' @ [CHR 0x0D]) @ [CHR 0x0A])" by (rule utf8_valid_ascii) (auto simp: byte_val_def)
  have w: "sv_write sv (lk_server l) (cmd @ crlf) = (s', Written (Data ((''+OK'' @ [CHR 0x0D]) @ CHR 0x0A # []) # []))"
    using assms(1) by (simp add: plus_ok_def crlf_def)
  have "pop3_command sv cmd l = (Inr ((''+OK'' @ [CHR 0x0D]) @ [CHR 0x0A]),
      l\<lparr>lk_server := s', lk_in := [], lk_sent := lk_sent l @ [cmd @ crlf]\<rparr>)"
    using command_drops_buffer [of sv l cmd s' "[]" "''+OK'' @ [CHR 0x0D]" "[]" "[]"] w u assms(2) by (simp add: buffer_size_def)
  then show ?thesis using assms(2) by (simp add: crlf_def)
qed

lemma greeting_ok:
  "with_reader (io_read_line ''POP3'') (l\<lparr>lk_in := [Data (''+OK'' @ crlf)]\<rparr>) = (Inr (''+OK'' @ crlf), l\<lparr>lk_in := []\<rparr>)"
proof -
  have u: "utf8_valid (''+OK'' @ crlf)" by (rule utf8_valid_ascii) (auto simp: byte_val_def crlf_def)
  have t: "take_read buffer_size [Data (''+OK'' @ crlf)] = (Inr (''+OK'' @ crlf), [])"
    by (simp add: buffer_size_def crlf_def)
  have sp: "split_once CHR 0x0A (''+OK'' @ crlf) = Some (''+OK'' @ [CHR 0x0D], [])" by (simp add: crlf_def)
  have "raw_line [] [] [Data (''+OK'' @ crlf)] = raw_line [] (''+OK'' @ crlf) []"
    by (subst raw_line.simps) (simp only: split_once.simps t prod.case sum.case option.case append_Nil)
  also have "\<dots> = (Inr (''+OK'' @ crlf), [], [])"
    by (subst raw_line.simps) (simp add: sp, simp add: crlf_def)
  finally have "raw_line [] [] [Data (''+OK'' @ crlf)] = (Inr (''+OK'' @ crlf), [], [])" .
  then have "io_read_line ''POP3'' ([], l\<lparr>lk_in := [Data (''+OK'' @ crlf)]\<rparr>) = (Inr (''+OK'' @ crlf), ([], l\<lparr>lk_in := []\<rparr>))"
    unfolding io_read_line_iff using u by simp
  then show ?thesis by (simp add: with_reader_def)
qed

lemma dec_inject [simp]: "dec i = dec j \<longleftrightarrow> i = j"
  by (metis option.inject parse_digits_dec)

lemma box_other: "b \<noteq> ''QUIT'' @ crlf \<Longrightarrow> \<not> starts_with ''DELE '' b \<Longrightarrow> box_write s b = (s, plus_ok)"
  by (simp add: box_write_def)

lemma find_eq: "i \<in> set xs \<Longrightarrow> find (\<lambda>j. i = j) xs = Some i"
  by (induction xs) auto

lemma box_delete:
  assumes "1 \<le> i" "i \<le> length (bx_mail s)"
  shows "box_write s (''DELE '' @ dec i @ crlf) = (s\<lparr>bx_marked := bx_marked s @ [i]\<rparr>, plus_ok)"
proof -
  have eq: "(\<lambda>j. ''DELE '' @ dec i @ crlf = ''DELE '' @ dec j @ crlf) = (\<lambda>j. i = j)"
    by (simp add: fun_eq_iff)
  have "find (\<lambda>j. ''DELE '' @ dec i @ crlf = ''DELE '' @ dec j @ crlf) [1 ..< length (bx_mail s) + 1] = Some i"
    unfolding eq by (rule find_eq) (use assms in auto)
  then show ?thesis by (simp add: box_write_def)
qed

lemma commit_one:
  assumes "1 \<le> i" "i \<le> length ms"
  shows "commit ((box ms)\<lparr>bx_marked := [i]\<rparr>) = box (take (i - 1) ms @ drop i ms)"
proof -
  obtain a x b where ms: "ms = a @ x # b" "length a = i - 1"
    using assms id_take_nth_drop [of "i - 1" ms] by (metis One_nat_def Suc_le_lessD Suc_pred length_take less_le_trans less_or_eq_imp_le min.absorb2)
  have f: "filter (\<lambda>im. fst im \<notin> {i}) (enumerate k c) = enumerate k c" if "i < k \<or> k + length c \<le> i" for k and c :: "bytes list"
    using that by (auto simp: filter_id_conv in_set_enumerate_eq)
  have "filter (\<lambda>im. fst im \<notin> {i}) (enumerate 1 ms) = enumerate 1 a @ enumerate (i + 1) b"
    using ms assms f [of 1 a] f [of "i + 1" b] by (simp add: enumerate_append_eq)
  moreover have "drop i ms = b" "take (i - 1) ms = a" using ms assms by simp_all
  ultimately show ?thesis by (simp add: commit_def box_def)
qed

text \<open>POP3 deletes by position, in a session of its own: \<open>mark_processed\<close> removes whatever mail stands at the
  given number in the mailbox as it is then, not the mail that was fetched under it.\<close>

lemma pop3_deletes_position:
  assumes "1 \<le> i" "i \<le> length ms"
  shows "lk_server (snd (pop3_mark_processed box_server c (dec i) (l\<lparr>lk_server := box ms\<rparr>))) =
     box (take (i - 1) ms @ drop i ms)"
proof -
  define l0 where "l0 = l\<lparr>lk_server := box ms, lk_in := []\<rparr>"
  have con: "pop3_connect box_server c (l\<lparr>lk_server := box ms\<rparr>) = (Inr (), l0\<lparr>lk_in := [Data (''+OK'' @ crlf)]\<rparr>)"
    by (simp add: pop3_connect_def io_connect_def box_server_def l0_def)
  have user: "pop3_command box_server (''USER '' @ pk_username c) l0 =
      (Inr (''+OK'' @ crlf), l0\<lparr>lk_sent := lk_sent l0 @ [(''USER '' @ pk_username c) @ crlf]\<rparr>)"
    by (subst plus_ok_answer [where s' = "box ms"]) (simp_all add: box_server_def box_other l0_def)
  define l1 where "l1 = l0\<lparr>lk_sent := lk_sent l0 @ [(''USER '' @ pk_username c) @ crlf]\<rparr>"
  have pass: "pop3_command box_server (''PASS '' @ pk_password c) l1 =
      (Inr (''+OK'' @ crlf), l1\<lparr>lk_sent := lk_sent l1 @ [(''PASS '' @ pk_password c) @ crlf]\<rparr>)"
    by (subst plus_ok_answer [where s' = "box ms"]) (simp_all add: box_server_def box_other l0_def l1_def)
  define l2 where "l2 = l1\<lparr>lk_sent := lk_sent l1 @ [(''PASS '' @ pk_password c) @ crlf]\<rparr>"
  have login: "pop3_login box_server c (l\<lparr>lk_server := box ms\<rparr>) = (Inr (), l2)"
    using user pass greeting_ok [of l0] con
    by (simp add: pop3_login_def se_bind_def se_return_def l1_def l2_def l0_def)
  have "box_write (box ms) (''DELE '' @ dec i @ crlf) = ((box ms)\<lparr>bx_marked := [i]\<rparr>, plus_ok)"
    using box_delete [of i "box ms"] assms by (simp add: box_def)
  then have dele: "pop3_command box_server (''DELE '' @ dec i) l2 =
      (Inr (''+OK'' @ crlf), l2\<lparr>lk_server := (box ms)\<lparr>bx_marked := [i]\<rparr>, lk_sent := lk_sent l2 @ [(''DELE '' @ dec i) @ crlf]\<rparr>)"
    by (intro plus_ok_answer) (simp_all add: box_server_def l0_def l1_def l2_def)
  define l3 where "l3 = l2\<lparr>lk_server := (box ms)\<lparr>bx_marked := [i]\<rparr>, lk_sent := lk_sent l2 @ [(''DELE '' @ dec i) @ crlf]\<rparr>"
  have quit: "pop3_command box_server ''QUIT'' l3 =
      (Inr (''+OK'' @ crlf), l3\<lparr>lk_server := commit ((box ms)\<lparr>bx_marked := [i]\<rparr>), lk_sent := lk_sent l3 @ [''QUIT'' @ crlf]\<rparr>)"
    by (rule plus_ok_answer) (simp_all add: box_server_def box_write_def l0_def l1_def l2_def l3_def)
  have "pop3_mark_processed box_server c (dec i) (l\<lparr>lk_server := box ms\<rparr>) =
      closing box_server (\<lambda>_. (Inr (), snd (pop3_command box_server ''QUIT'' l3))) l"
    using login dele by (simp add: pop3_mark_processed_def closing_def se_bind_def se_ignore_def l3_def)
  then show ?thesis using quit commit_one [OF assms] by (simp add: closing_def box_server_def box_def)
qed

text \<open>Two mails fetched in one pass under the numbers 1 and 2, both then marked processed, and a third arriving
  in between: the third is gone, unread, and the second is still there.\<close>

lemma pop3_deletes_position_witness:
  "let c = \<lparr>pk_server = ''pop.example.org'', pk_port = 110, pk_username = ''u'', pk_password = ''p'', pk_use_tls = False\<rparr>;
       l = \<lparr>lk_server = box [''A'', ''B''], lk_in = [], lk_eofs = 0, lk_tag = 1, lk_sent = []\<rparr>;
       l1 = snd (pop3_mark_processed box_server c (dec 1) l);
       l2 = snd (pop3_mark_processed box_server c (dec 2) (l1\<lparr>lk_server := box (bx_mail (lk_server l1) @ [''NEW''])\<rparr>)) in
   lk_server l2 = box [''B'']"
  using pop3_deletes_position [of 1 "[''A'', ''B'']"
      "\<lparr>pk_server = ''pop.example.org'', pk_port = 110, pk_username = ''u'', pk_password = ''p'', pk_use_tls = False\<rparr>"
      "\<lparr>lk_server = box [''A'', ''B''], lk_in = [], lk_eofs = 0, lk_tag = 1, lk_sent = []\<rparr>"]
    pop3_deletes_position [of 2 "[''B'', ''NEW'']"
      "\<lparr>pk_server = ''pop.example.org'', pk_port = 110, pk_username = ''u'', pk_password = ''p'', pk_use_tls = False\<rparr>"]
  by (simp add: box_def Let_def)

end
