(* ===== verification/Smtp.thy ===== *)
theory Smtp
  imports Imap
begin

text \<open>
  The SMTP carrier (\<open>antie/src/carrier.rs\<close>, module \<open>smtp_carrier\<close>): multi-line replies, authentication and
  the delivery of one mail.
\<close>

section \<open>The session\<close>

record smtp_carrier =
  sm_server :: string
  sm_port :: nat
  sm_username :: "string option"
  sm_password :: "string option"
  sm_use_tls :: bool
  sm_from_address :: string

definition smtp_connect :: "'s server \<Rightarrow> smtp_carrier \<Rightarrow> ('s, unit) session" where
  "smtp_connect sv c = io_connect sv ''SMTP'' (sm_server c) (sm_port c) (sm_use_tls c)"

text \<open>One complete reply: lines up to the one whose fourth byte is not a dash.  The reader is kept for the
  whole session, so the session threads it: its buffer beside the link.\<close>

function read_reply :: "'s reader \<Rightarrow> unit res \<times> 's reader" where
  "read_reply rdr =
     (case io_read_line ''SMTP'' rdr of
        (Inl e, r) \<Rightarrow> (Inl e, r)
      | (Inr line, r) \<Rightarrow>
          (if 3 < length line \<and> line ! 3 = CHR ''-'' then read_reply r
           else if starts_with ''2'' line \<or> starts_with ''3'' line then (Inr (), r)
           else (Inl (ConfigError (''SMTP error: '' @ trim line)), r)))"
  by auto
termination
  by (relation "measure pending") (auto dest!: io_read_line_smaller [OF sym])

declare read_reply.simps [simp del]

type_synonym ('s, 'a) dialogue = "'s reader \<Rightarrow> 'a res \<times> 's reader"

definition dl_bind :: "('s, 'a) dialogue \<Rightarrow> ('a \<Rightarrow> ('s, 'b) dialogue) \<Rightarrow> ('s, 'b) dialogue" where
  "dl_bind m f rdr = (case m rdr of (Inl e, r) \<Rightarrow> (Inl e, r) | (Inr a, r) \<Rightarrow> f a r)"

definition send_cmd :: "'s server \<Rightarrow> bytes \<Rightarrow> ('s, unit) dialogue" where
  "send_cmd sv b rdr = (case io_write sv b ''SMTP'' (snd rdr) of (r, l) \<Rightarrow> (r, (fst rdr, l)))"

definition ask :: "'s server \<Rightarrow> bytes \<Rightarrow> ('s, unit) dialogue" where
  "ask sv b = dl_bind (send_cmd sv b) (\<lambda>_. read_reply)"

text \<open>\<open>b64\<close> is the base64 encoder.\<close>

definition smtp_auth :: "(bytes \<Rightarrow> string) \<Rightarrow> 's server \<Rightarrow> smtp_carrier \<Rightarrow> ('s, unit) dialogue" where
  "smtp_auth b64 sv c =
     (case (sm_username c, sm_password c) of
        (Some user, Some pass) \<Rightarrow>
          dl_bind (ask sv (''AUTH LOGIN'' @ crlf)) (\<lambda>_.
          dl_bind (ask sv (b64 user @ crlf)) (\<lambda>_.
          ask sv (b64 pass @ crlf)))
      | _ \<Rightarrow> (\<lambda>rdr. (Inr (), rdr)))"

definition smtp_dialogue :: "(bytes \<Rightarrow> string) \<Rightarrow> 's server \<Rightarrow> smtp_carrier \<Rightarrow> string \<Rightarrow> bytes \<Rightarrow> ('s, unit) dialogue" where
  "smtp_dialogue b64 sv c to raw_email =
     dl_bind read_reply (\<lambda>_.
     dl_bind (ask sv (''EHLO '' @ sm_server c @ crlf)) (\<lambda>_.
     dl_bind (smtp_auth b64 sv c) (\<lambda>_.
     dl_bind (ask sv (''MAIL FROM:<'' @ sm_from_address c @ ''>'' @ crlf)) (\<lambda>_.
     dl_bind (ask sv (''RCPT TO:<'' @ to @ ''>'' @ crlf)) (\<lambda>_.
     dl_bind (ask sv (''DATA'' @ crlf)) (\<lambda>_.
     dl_bind (send_cmd sv raw_email) (\<lambda>_.
     dl_bind (ask sv (crlf @ ''.'' @ crlf)) (\<lambda>_.
     send_cmd sv (''QUIT'' @ crlf)))))))))"

definition smtp_send :: "(bytes \<Rightarrow> string) \<Rightarrow> 's server \<Rightarrow> smtp_carrier \<Rightarrow> string \<Rightarrow> bytes \<Rightarrow> ('s, unit) session" where
  "smtp_send b64 sv c to raw_email =
     (if sm_username c \<noteq> None \<and> sm_password c \<noteq> None \<and> \<not> sm_use_tls c then
        se_fail (ConfigError (''SMTP credentials set but use_tls=false '' @ [CHR 0xE2, CHR 0x80, CHR 0x94] @
          '' refusing to send AUTH in plaintext (AUTH implies TLS)''))
      else closing sv (
        se_bind (smtp_connect sv c) (\<lambda>_. with_reader (smtp_dialogue b64 sv c to raw_email))))"

definition smtp_check_new :: "('s, incoming_message list) session" where
  "smtp_check_new = se_return []"

definition smtp_mark :: "string \<Rightarrow> ('s, unit) session" where
  "smtp_mark message_id = se_return ()"

section \<open>The script\<close>

text \<open>A dialogue writes a fixed script: all of it when it succeeds, a beginning of it when it fails.\<close>

definition scripted :: "bytes list \<Rightarrow> ('s, 'a) dialogue \<Rightarrow> bool" where
  "scripted bs m = (\<forall>rdr. case m rdr of
     (Inr _, r) \<Rightarrow> lk_sent (snd r) = lk_sent (snd rdr) @ bs
   | (Inl _, r) \<Rightarrow> \<exists>p q. bs = p @ q \<and> lk_sent (snd r) = lk_sent (snd rdr) @ p)"

lemma scripted_Inr: "scripted bs m \<Longrightarrow> m rdr = (Inr a, r) \<Longrightarrow> lk_sent (snd r) = lk_sent (snd rdr) @ bs"
  unfolding scripted_def by (drule spec [of _ rdr]) simp

lemma scripted_Inl:
  "scripted bs m \<Longrightarrow> m rdr = (Inl e, r) \<Longrightarrow> \<exists>p q. bs = p @ q \<and> lk_sent (snd r) = lk_sent (snd rdr) @ p"
  unfolding scripted_def by (drule spec [of _ rdr]) simp

lemma scripted_bind:
  fixes m :: "('s, 'a) dialogue"
  assumes "scripted bs m" "\<And>a. scripted cs (f a)"
  shows "scripted (bs @ cs) (dl_bind m f)"
  unfolding scripted_def
proof
  fix rdr :: "'s reader"
  obtain x r where m: "m rdr = (x, r)" by (metis surj_pair)
  show "case dl_bind m f rdr of (Inr _, r) \<Rightarrow> lk_sent (snd r) = lk_sent (snd rdr) @ bs @ cs
     | (Inl _, r) \<Rightarrow> \<exists>p q. bs @ cs = p @ q \<and> lk_sent (snd r) = lk_sent (snd rdr) @ p"
  proof (cases x)
    case (Inl e)
    with scripted_Inl [OF assms(1)] m obtain p q where "bs = p @ q" "lk_sent (snd r) = lk_sent (snd rdr) @ p"
      by blast
    then show ?thesis using Inl m by (simp add: dl_bind_def)
  next
    case (Inr a)
    with scripted_Inr [OF assms(1)] m have s: "lk_sent (snd r) = lk_sent (snd rdr) @ bs" by blast
    obtain y q where f: "f a r = (y, q)" by (metis surj_pair)
    show ?thesis
    proof (cases y)
      case iy: (Inl e)
      with scripted_Inl [OF assms(2)] f obtain c d where "cs = c @ d" "lk_sent (snd q) = lk_sent (snd r) @ c"
        by blast
      then show ?thesis using Inr m f iy s by (auto simp: dl_bind_def)
    next
      case iy: (Inr b)
      with scripted_Inr [OF assms(2)] f have "lk_sent (snd q) = lk_sent (snd r) @ cs" by blast
      then show ?thesis using Inr m f iy s by (simp add: dl_bind_def)
    qed
  qed
qed

lemma read_reply_sent: "lk_sent (snd (snd (read_reply rdr))) = lk_sent (snd rdr)"
proof (induction rdr rule: read_reply.induct)
  case (1 rdr)
  obtain x q where x: "io_read_line ''SMTP'' rdr = (x, q)" by (metis surj_pair)
  with io_read_line_sent [of "''SMTP''" rdr] have q: "lk_sent (snd q) = lk_sent (snd rdr)" by simp
  show ?case
  proof (cases x)
    case (Inr line)
    show ?thesis
    proof (cases "3 < length line \<and> line ! 3 = CHR ''-''")
      case True
      from 1 [OF x [symmetric] Inr True] show ?thesis using x Inr True q by (simp add: read_reply.simps [of rdr])
    qed (use x Inr q in \<open>auto simp: read_reply.simps [of rdr]\<close>)
  qed (use x q in \<open>simp add: read_reply.simps [of rdr]\<close>)
qed

lemma scripted_reply: "scripted [] read_reply"
  unfolding scripted_def
proof
  fix rdr :: "'s reader"
  show "case read_reply rdr of (Inr _, r) \<Rightarrow> lk_sent (snd r) = lk_sent (snd rdr) @ []
     | (Inl _, r) \<Rightarrow> \<exists>p q. [] = p @ q \<and> lk_sent (snd r) = lk_sent (snd rdr) @ p"
    using read_reply_sent [of rdr] by (auto split: prod.splits sum.splits)
qed

lemma scripted_send: "scripted [b] (send_cmd (sv :: 's server) b)"
  unfolding scripted_def
proof
  fix rdr :: "'s reader"
  obtain s w where "sv_write sv (lk_server (snd rdr)) b = (s, w)" by (metis surj_pair)
  then show "case send_cmd sv b rdr of (Inr _, r) \<Rightarrow> lk_sent (snd r) = lk_sent (snd rdr) @ [b]
     | (Inl _, r) \<Rightarrow> \<exists>p q. [b] = p @ q \<and> lk_sent (snd r) = lk_sent (snd rdr) @ p"
    by (cases w) (auto simp: send_cmd_def io_write_def)
qed

lemma scripted_ask: "scripted [b] (ask sv b)"
  using scripted_bind [OF scripted_send scripted_reply] by (simp add: ask_def)

lemma scripted_nothing: "scripted [] (\<lambda>rdr. (Inr (), rdr))"
  by (simp add: scripted_def)

definition smtp_script :: "(bytes \<Rightarrow> string) \<Rightarrow> smtp_carrier \<Rightarrow> string \<Rightarrow> bytes \<Rightarrow> bytes list" where
  "smtp_script b64 c to raw =
     [''EHLO '' @ sm_server c @ crlf] @
     (case (sm_username c, sm_password c) of
        (Some user, Some pass) \<Rightarrow> [''AUTH LOGIN'' @ crlf, b64 user @ crlf, b64 pass @ crlf]
      | _ \<Rightarrow> []) @
     [''MAIL FROM:<'' @ sm_from_address c @ ''>'' @ crlf, ''RCPT TO:<'' @ to @ ''>'' @ crlf, ''DATA'' @ crlf, raw,
      crlf @ ''.'' @ crlf, ''QUIT'' @ crlf]"

lemma scripted_auth:
  "scripted (case (sm_username c, sm_password c) of
        (Some user, Some pass) \<Rightarrow> [''AUTH LOGIN'' @ crlf, b64 user @ crlf, b64 pass @ crlf] | _ \<Rightarrow> [])
     (smtp_auth b64 sv c)"
proof (cases "sm_username c")
  case None
  then show ?thesis by (simp add: smtp_auth_def scripted_nothing)
next
  case u: (Some user)
  show ?thesis
  proof (cases "sm_password c")
    case None
    then show ?thesis using u by (simp add: smtp_auth_def scripted_nothing)
  next
    case (Some pass)
    have "scripted ([''AUTH LOGIN'' @ crlf] @ [b64 user @ crlf] @ [b64 pass @ crlf])
       (dl_bind (ask sv (''AUTH LOGIN'' @ crlf)) (\<lambda>_. dl_bind (ask sv (b64 user @ crlf)) (\<lambda>_. ask sv (b64 pass @ crlf))))"
      by (intro scripted_bind scripted_ask)
    then show ?thesis using u Some by (simp add: smtp_auth_def)
  qed
qed

lemma scripted_dialogue: "scripted (smtp_script b64 c to raw) (smtp_dialogue b64 sv c to raw)"
proof -
  have "scripted ([] @ [''EHLO '' @ sm_server c @ crlf] @
     (case (sm_username c, sm_password c) of
        (Some user, Some pass) \<Rightarrow> [''AUTH LOGIN'' @ crlf, b64 user @ crlf, b64 pass @ crlf] | _ \<Rightarrow> []) @
     [''MAIL FROM:<'' @ sm_from_address c @ ''>'' @ crlf] @ [''RCPT TO:<'' @ to @ ''>'' @ crlf] @ [''DATA'' @ crlf] @
     [raw] @ [crlf @ ''.'' @ crlf] @ [''QUIT'' @ crlf]) (smtp_dialogue b64 sv c to raw)"
    unfolding smtp_dialogue_def
    by (intro scripted_bind scripted_reply scripted_ask scripted_send scripted_auth)
  then show ?thesis by (simp only: smtp_script_def append_Nil append_Cons append_assoc)
qed

lemma connect_tls_failed:
  "use_tls \<Longrightarrow> snd (sv_tls sv (fst (sv_tcp sv (lk_server l)))) \<noteq> None \<Longrightarrow>
   \<exists>e. fst (io_connect sv proto server port use_tls l) = Inl e"
proof -
  assume a: "use_tls" "snd (sv_tls sv (fst (sv_tcp sv (lk_server l)))) \<noteq> None"
  obtain s x where x: "sv_tcp sv (lk_server l) = (s, x)" by (metis surj_pair)
  obtain s' y where y: "sv_tls sv s = (s', y)" by (metis surj_pair)
  from a x y obtain f where "y = Some f" by auto
  then show ?thesis using a(1) unfolding io_connect_def Let_def x prod.case y
    by (auto split: option.splits io_fault.splits)
qed

text \<open>C38.  Sending over SMTP follows one script.  It reports success only after every line of it, the mail and its
  final dot included, was written and answered; it never writes anything else, and a credential is written
  only over a link whose TLS handshake succeeded.\<close>

theorem smtp_transcript:
  "(if sm_username c \<noteq> None \<and> sm_password c \<noteq> None \<and>
      \<not> (sm_use_tls c \<and> snd (sv_tls sv (fst (sv_tcp sv (lk_server l)))) = None)
    then lk_sent (snd (smtp_send b64 sv c to raw l)) = lk_sent l \<and> fst (smtp_send b64 sv c to raw l) \<noteq> Inr ()
    else case smtp_send b64 sv c to raw l of
        (Inr _, l') \<Rightarrow> lk_sent l' = lk_sent l @ smtp_script b64 c to raw
      | (Inl _, l') \<Rightarrow> \<exists>p q. smtp_script b64 c to raw = p @ q \<and> lk_sent l' = lk_sent l @ p)"
proof -
  obtain x l1 where x: "smtp_connect sv c l = (x, l1)" by (metis surj_pair)
  have s1: "lk_sent l1 = lk_sent l"
    using sends_connect [of "\<lambda>_. False" sv "''SMTP''" "sm_server c" "sm_port c" "sm_use_tls c"] x
    unfolding sends_def smtp_connect_def by (metis append_Nil2 list.pred_set list.set_intros(1) neq_Nil_conv snd_conv)
  obtain y r where y: "smtp_dialogue b64 sv c to raw ([], l1) = (y, r)" by (metis surj_pair)
  show ?thesis
  proof (cases "sm_username c \<noteq> None \<and> sm_password c \<noteq> None \<and> \<not> sm_use_tls c")
    case True
    then show ?thesis by (auto simp: smtp_send_def se_fail_def)
  next
    case nplain: False
    then have run: "smtp_send b64 sv c to raw l =
        closing sv (se_bind (smtp_connect sv c) (\<lambda>_. with_reader (smtp_dialogue b64 sv c to raw))) l"
      by (simp only: smtp_send_def if_False)
    show ?thesis
    proof (cases x)
      case (Inl e)
      then show ?thesis using x s1 unfolding run by (simp add: closing_def se_bind_def)
    next
      case (Inr u)
      have tls: "\<not> (sm_use_tls c \<and> snd (sv_tls sv (fst (sv_tcp sv (lk_server l)))) \<noteq> None)"
      proof
        assume "sm_use_tls c \<and> snd (sv_tls sv (fst (sv_tcp sv (lk_server l)))) \<noteq> None"
        with connect_tls_failed [of "sm_use_tls c" sv l "''SMTP''" "sm_server c" "sm_port c"]
        obtain e where "fst (smtp_connect sv c l) = Inl e" by (auto simp: smtp_connect_def)
        then show False using x Inr by simp
      qed
      have sc: "case (y, r) of (Inr _, r) \<Rightarrow> lk_sent (snd r) = lk_sent l1 @ smtp_script b64 c to raw
         | (Inl _, r) \<Rightarrow> \<exists>p q. smtp_script b64 c to raw = p @ q \<and> lk_sent (snd r) = lk_sent l1 @ p"
        using spec [OF scripted_dialogue [of b64 c to raw sv, unfolded scripted_def], of "([], l1)"] y by (cases y) simp_all
      obtain b k where r: "r = (b, k)" by (cases r)
      have snt: "smtp_send b64 sv c to raw l = (y, k\<lparr>lk_server := sv_close sv (lk_server k), lk_in := []\<rparr>)"
        unfolding run using x Inr y r by (simp add: closing_def se_bind_def with_reader_def)
      have cond: "\<not> (sm_username c \<noteq> None \<and> sm_password c \<noteq> None \<and>
          \<not> (sm_use_tls c \<and> snd (sv_tls sv (fst (sv_tcp sv (lk_server l)))) = None))"
        using nplain tls by blast
      show ?thesis unfolding if_not_P [OF cond] snt using sc r s1 by (cases y) simp_all
    qed
  qed
qed

end
