(* ===== verification/MailCarrier.thy ===== *)
theory MailCarrier
  imports Deposits Config Pop3 Smtp
begin

text \<open>
  The interface every carrier implements (\<open>MailCarrier\<close> of \<open>antie/src/carrier.rs\<close>) and its implementations:
  maildir, IMAP, POP3, SMTP, the outbound split and the routing table.  A carrier is a record of functions
  over its own state: the file world, or the link to a server.  The locale states what the funnel needs of
  an inbound carrier; the maildir carrier interprets it.
\<close>

section \<open>The interface\<close>

record 'c mail_carrier =
  mk_name :: string
  mk_check_new :: "'c \<Rightarrow> incoming_message list res \<times> 'c"
  mk_mark_processed :: "string \<Rightarrow> 'c \<Rightarrow> unit res \<times> 'c"
  mk_mark_failed :: "string \<Rightarrow> string \<Rightarrow> 'c \<Rightarrow> unit res \<times> 'c"
  mk_send :: "string \<Rightarrow> bytes \<Rightarrow> 'c \<Rightarrow> unit res \<times> 'c"

section \<open>Maildir\<close>

text \<open>File operations fail with \<open>AntieError::IoError\<close>.\<close>

definition via_io :: "'a io \<Rightarrow> world \<Rightarrow> 'a res \<times> world" where
  "via_io m w = (case m w of (r, w') \<Rightarrow> (map_err (\<lambda>e. IoError e) r, w'))"

text \<open>The entries of \<open>new/\<close>: \<open>names\<close> are the names that may occur, in the order the directory yields them.\<close>

definition new_entries :: "string \<Rightarrow> string list \<Rightarrow> world \<Rightarrow> (string + string \<times> bool) list" where
  "new_entries base names w =
     map (\<lambda>n. Inr (path_join (path_join base ''new'') n, True))
       (filter (\<lambda>n. files w (path_join (path_join base ''new'') n) \<noteq> None) names)"

fun maildir_read_all :: "string list \<Rightarrow> world \<Rightarrow> incoming_message list res \<times> world" where
  "maildir_read_all [] w = (Inr [], w)"
| "maildir_read_all (path # paths) w =
     (case via_io (maildir_read_message path) w of
        (Inl e, w') \<Rightarrow> (Inl e, w')
      | (Inr raw, w') \<Rightarrow>
          (case maildir_read_all paths w' of
             (Inl e, w'') \<Rightarrow> (Inl e, w'')
           | (Inr ms, w'') \<Rightarrow>
               (Inr (\<lparr>inc_id = (case path_file_name path of Some n \<Rightarrow> utf8_lossy n | None \<Rightarrow> []),
                      inc_raw = raw, inc_source = path\<rparr> # ms), w'')))"

definition maildir_check_new :: "string \<Rightarrow> string list \<Rightarrow> world \<Rightarrow> incoming_message list res \<times> world" where
  "maildir_check_new inbox names w =
     (case maildir_list_new (new_entries inbox names w) of
        Inl e \<Rightarrow> (Inl (IoError e), w)
      | Inr paths \<Rightarrow> maildir_read_all paths w)"

definition maildir_mark :: "string \<Rightarrow> string \<Rightarrow> world \<Rightarrow> unit res \<times> world" where
  "maildir_mark inbox message_id w =
     (let path = path_join (path_join inbox ''new'') message_id in
      if files w path = None then (Inr (), w)
      else case path_file_name path of
          None \<Rightarrow> (Inl (MaildirError ''Invalid filename''), w)
        | Some _ \<Rightarrow> (case via_io (maildir_mark_processed inbox path) w of (r, w') \<Rightarrow> (res_bind r (\<lambda>_. Inr ()), w')))"

text \<open>\<open>stamp\<close> is the clock, the process id and the UUID a new file name is made of.\<close>

definition maildir_send :: "string \<Rightarrow> nat \<times> nat \<times> string \<Rightarrow> bytes \<Rightarrow> world \<Rightarrow> unit res \<times> world" where
  "maildir_send outbox stamp raw_email w =
     (case stamp of (ts, pid, u) \<Rightarrow>
        (case via_io (maildir_write_message outbox ts pid u raw_email) w of (r, w') \<Rightarrow> (res_bind r (\<lambda>_. Inr ()), w')))"

definition maildir_new :: "string \<Rightarrow> string \<Rightarrow> unit io" where
  "maildir_new inbox outbox = io_bind (maildir_open inbox) (\<lambda>_. maildir_open outbox)"

definition maildir_carrier :: "string \<Rightarrow> string \<Rightarrow> string list \<Rightarrow> nat \<times> nat \<times> string \<Rightarrow> world mail_carrier" where
  "maildir_carrier inbox outbox names stamp =
     \<lparr>mk_name = ''maildir'', mk_check_new = maildir_check_new inbox names, mk_mark_processed = maildir_mark inbox,
      mk_mark_failed = (\<lambda>i reason. maildir_mark inbox i), mk_send = (\<lambda>to. maildir_send outbox stamp)\<rparr>"

section \<open>Network carriers\<close>

definition imap_mail_carrier :: "'s server \<Rightarrow> imap_carrier \<Rightarrow> 's link mail_carrier" where
  "imap_mail_carrier sv c = \<lparr>mk_name = ''imap'', mk_check_new = imap_check_new sv c,
     mk_mark_processed = imap_mark_processed sv c, mk_mark_failed = imap_mark_failed, mk_send = imap_send\<rparr>"

definition pop3_mail_carrier :: "'s server \<Rightarrow> pop3_carrier \<Rightarrow> 's link mail_carrier" where
  "pop3_mail_carrier sv c = \<lparr>mk_name = ''pop3'', mk_check_new = pop3_check_new sv c,
     mk_mark_processed = pop3_mark_processed sv c, mk_mark_failed = pop3_mark_failed, mk_send = pop3_send\<rparr>"

definition smtp_mail_carrier :: "(bytes \<Rightarrow> string) \<Rightarrow> 's server \<Rightarrow> smtp_carrier \<Rightarrow> 's link mail_carrier" where
  "smtp_mail_carrier b64 sv c = \<lparr>mk_name = ''smtp'', mk_check_new = smtp_check_new,
     mk_mark_processed = smtp_mark, mk_mark_failed = (\<lambda>i reason. smtp_mark i), mk_send = smtp_send b64 sv c\<rparr>"

section \<open>Outbound\<close>

definition recipient_is_local :: "string \<Rightarrow> bool" where
  "recipient_is_local to =
     (case rsplit_once CHR ''@'' to of
        None \<Rightarrow> False
      | Some (_, rest) \<Rightarrow> (let domain = before_slash rest in domain = ''axiom'' \<or> domain = ''axiom.internal''))"

text \<open>The split over two carriers of the same state.\<close>

definition split_send :: "'c mail_carrier \<Rightarrow> 'c mail_carrier option \<Rightarrow> string \<Rightarrow> bytes \<Rightarrow> 'c \<Rightarrow> unit res \<times> 'c" where
  "split_send local ext to raw_email c =
     (if recipient_is_local to then mk_send local to raw_email c
      else case ext of
          Some x \<Rightarrow> mk_send x to raw_email c
        | None \<Rightarrow> (Inl (ConfigError (''no external relay configured ([outbound.external]) '' @
            [CHR 0xE2, CHR 0x80, CHR 0x94] @ '' cannot deliver to external recipient '' @ to)), c))"

definition split_carrier :: "'c mail_carrier \<Rightarrow> 'c mail_carrier option \<Rightarrow> 'c mail_carrier" where
  "split_carrier local ext = \<lparr>mk_name = ''split'', mk_check_new = (\<lambda>c. (Inr [], c)),
     mk_mark_processed = (\<lambda>i c. (Inr (), c)), mk_mark_failed = (\<lambda>i r c. (Inr (), c)), mk_send = split_send local ext\<rparr>"

text \<open>The directories opened at start-up, each once, and the inbox after them.\<close>

fun open_outboxes :: "string list \<Rightarrow> outbound_route list \<Rightarrow> string list io" where
  "open_outboxes opened [] = io_return opened"
| "open_outboxes opened (r # rs) =
     (if rt_outbox r \<in> set opened then open_outboxes opened rs
      else io_bind (maildir_open (rt_outbox r)) (\<lambda>_. open_outboxes (opened @ [rt_outbox r]) rs))"

definition routed_new :: "string \<Rightarrow> outbound_config \<Rightarrow> world \<Rightarrow> string list res \<times> world" where
  "routed_new inbox cfg =
     via_io (io_bind (open_outboxes [] (ob_route cfg)) (\<lambda>opened.
             io_bind (maildir_open inbox) (\<lambda>_. io_return opened)))"

definition routed_send ::
  "outbound_config \<Rightarrow> string list \<Rightarrow> nat \<times> nat \<times> string \<Rightarrow> string \<Rightarrow> bytes \<Rightarrow> world \<Rightarrow> unit res \<times> world" where
  "routed_send cfg opened stamp to raw_email w =
     (case outbox_for cfg to of
        Inl e \<Rightarrow> (Inl (ConfigError e), w)
      | Inr None \<Rightarrow> (Inl (ConfigError (''outbound route table empty while RoutedCarrier active (to='' @ to @ '')'')), w)
      | Inr (Some dir) \<Rightarrow>
          (if dir \<notin> set opened then
             (Inl (ConfigError (''no open outbox for '' @ dir @ '' '' @ [CHR 0xE2, CHR 0x80, CHR 0x94] @
               '' startup should have created it'')), w)
           else maildir_send dir stamp raw_email w))"

definition routed_carrier ::
  "string \<Rightarrow> outbound_config \<Rightarrow> string list \<Rightarrow> string list \<Rightarrow> nat \<times> nat \<times> string \<Rightarrow> world mail_carrier" where
  "routed_carrier inbox cfg opened names stamp =
     \<lparr>mk_name = ''routed'', mk_check_new = maildir_check_new inbox names, mk_mark_processed = maildir_mark inbox,
      mk_mark_failed = (\<lambda>i reason. maildir_mark inbox i), mk_send = routed_send cfg opened stamp\<rparr>"

section \<open>Choice of the sender\<close>

text \<open>\<open>Gateway::new\<close>: the routing table, the split, the external relay alone, the maildir outbox, or none.\<close>

datatype sender_choice =
    UseRoutes string
  | UseSplit smtp_carrier "smtp_carrier option"
  | UseMaildir string string

definition smtp_of :: "smtp_outbound \<Rightarrow> smtp_carrier" where
  "smtp_of o' = \<lparr>sm_server = so_server o', sm_port = so_port o', sm_username = so_username o',
     sm_password = so_password o', sm_use_tls = so_use_tls o', sm_from_address = so_from o'\<rparr>"

definition choose_sender :: "antie_config \<Rightarrow> sender_choice res" where
  "choose_sender c =
     (if ob_route (ac_outbound c) \<noteq> [] then
        (case cc_maildir (ac_carriers c) of
           None \<Rightarrow> Inl (ConfigError ''outbound.route requires [carriers.maildir] for the inbox side'')
         | Some md \<Rightarrow> Inr (UseRoutes (mc_inbox md)))
      else case ob_local (ac_outbound c) of
          Some local \<Rightarrow> Inr (UseSplit (smtp_of local) (map_option smtp_of (ob_external (ac_outbound c))))
        | None \<Rightarrow> (case ob_external (ac_outbound c) of
            Some ext \<Rightarrow> Inr (UseSplit (smtp_of ext) (Some (smtp_of ext)))
          | None \<Rightarrow> (case cc_maildir (ac_carriers c) of
              Some md \<Rightarrow> Inr (UseMaildir (mc_inbox md) (mc_outbox md))
            | None \<Rightarrow> Inl (ConfigError
                ''No outbound carrier configured (need outbound.local or carriers.maildir)''))))"

section \<open>Working through a batch\<close>

text \<open>The shape of every pass over fetched mail: each message is handled, in order, then marked as processed,
  or as failed with the reason the handler gives.  \<open>g\<close> is the state of the handler.\<close>

fun work_through ::
  "'c mail_carrier \<Rightarrow> (nat \<Rightarrow> incoming_message \<Rightarrow> 'g \<Rightarrow> string option \<times> 'g) \<Rightarrow> nat \<Rightarrow> incoming_message list \<Rightarrow>
   'c \<times> 'g \<Rightarrow> 'c \<times> 'g" where
  "work_through mc h k [] s = s"
| "work_through mc h k (m # ms) (c, g) =
     (case h k m g of
        (None, g') \<Rightarrow> work_through mc h (k + 1) ms (snd (mk_mark_processed mc (inc_id m) c), g')
      | (Some reason, g') \<Rightarrow> work_through mc h (k + 1) ms (snd (mk_mark_failed mc (inc_id m) reason c), g'))"

text \<open>What the handler's state becomes, and what the handler answered for each message.\<close>

fun handle_all ::
  "(nat \<Rightarrow> incoming_message \<Rightarrow> 'g \<Rightarrow> string option \<times> 'g) \<Rightarrow> nat \<Rightarrow> incoming_message list \<Rightarrow> 'g \<Rightarrow> string option list \<times> 'g" where
  "handle_all h k [] g = ([], g)"
| "handle_all h k (m # ms) g =
     (case h k m g of (r, g') \<Rightarrow> (case handle_all h (k + 1) ms g' of (rs, g'') \<Rightarrow> (r # rs, g'')))"

definition mark_as :: "'c mail_carrier \<Rightarrow> incoming_message \<times> string option \<Rightarrow> 'c \<Rightarrow> 'c" where
  "mark_as mc mr c = (case snd mr of
     None \<Rightarrow> snd (mk_mark_processed mc (inc_id (fst mr)) c)
   | Some reason \<Rightarrow> snd (mk_mark_failed mc (inc_id (fst mr)) reason c))"

lemma work_through_split:
  "work_through mc h k ms (c, g) =
     (fold (\<lambda>mr. mark_as mc mr) (zip ms (fst (handle_all h k ms g))) c, snd (handle_all h k ms g))"
proof (induction ms arbitrary: k c g)
  case (Cons m ms)
  obtain r g' where h: "h k m g = (r, g')" by fastforce
  obtain rs g'' where a: "handle_all h (k + 1) ms g' = (rs, g'')" by fastforce
  show ?case using h a Cons.IH [of "k + 1"] by (cases r) (simp_all add: mark_as_def)
qed simp

lemma length_handle_all [simp]: "length (fst (handle_all h k ms g)) = length ms"
  by (induction ms arbitrary: k g) (auto simp: case_prod_beta)

locale inbound_carrier =
  fixes carrier :: "'c mail_carrier"
    and ids :: "string set"
    and held :: "'c \<Rightarrow> string \<Rightarrow> bytes option"
  assumes fetch_keeps: "held (snd (mk_check_new carrier c)) i = held c i"
    and fetched: "mk_check_new carrier c = (Inr ms, c') \<Longrightarrow> m \<in> set ms \<Longrightarrow>
      inc_id m \<in> ids \<and> held c (inc_id m) = Some (inc_raw m)"
    and fetched_once: "mk_check_new carrier c = (Inr ms, c') \<Longrightarrow> distinct (map inc_id ms)"
    and processed_only: "i \<in> ids \<Longrightarrow> j \<noteq> i \<Longrightarrow> held (snd (mk_mark_processed carrier i c)) j = held c j"
    and failed_only: "i \<in> ids \<Longrightarrow> j \<noteq> i \<Longrightarrow> held (snd (mk_mark_failed carrier i r c)) j = held c j"
begin

lemma mark_as_only: "inc_id (fst mr) \<in> ids \<Longrightarrow> j \<noteq> inc_id (fst mr) \<Longrightarrow> held (mark_as carrier mr c) j = held c j"
  by (cases "snd mr") (simp_all add: mark_as_def processed_only failed_only)

lemma marks_only:
  "(\<And>mr. mr \<in> set mrs \<Longrightarrow> inc_id (fst mr) \<in> ids) \<Longrightarrow> j \<notin> (\<lambda>mr. inc_id (fst mr)) ` set mrs \<Longrightarrow>
   held (fold (\<lambda>mr. mark_as carrier mr) mrs c) j = held c j"
  by (induction mrs arbitrary: c) (auto simp: mark_as_only)

text \<open>A pass removes nothing it has not handled, and every message it may remove was handled as it was.\<close>

lemma pass_removes_handled:
  assumes "mk_check_new carrier c = (Inr ms, c1)" "work_through carrier h 0 ms (c1, g) = (c', g')"
    and "held c' j \<noteq> held c j"
  shows "\<exists>k < length ms. inc_id (ms ! k) = j \<and> held c j = Some (inc_raw (ms ! k))"
proof -
  let ?mrs = "zip ms (fst (handle_all h 0 ms g))"
  have c': "c' = fold (\<lambda>mr. mark_as carrier mr) ?mrs c1"
    using assms(2) by (simp add: work_through_split)
  have sub: "fst mr \<in> set ms" if "mr \<in> set ?mrs" for mr
    using that by (metis prod.collapse set_zip_leftD)
  have "j \<in> (\<lambda>mr. inc_id (fst mr)) ` set ?mrs"
  proof (rule ccontr)
    assume "j \<notin> (\<lambda>mr. inc_id (fst mr)) ` set ?mrs"
    then have "held c' j = held c1 j" unfolding c'
      using fetched [OF assms(1) sub] by (intro marks_only) auto
    also have "\<dots> = held c j" using fetch_keeps [of c j] assms(1) by simp
    finally show False using assms(3) by simp
  qed
  then obtain m where "m \<in> set ms" "inc_id m = j" using sub by auto
  then show ?thesis using fetched [OF assms(1)] by (auto simp: in_set_conv_nth)
qed

end

section \<open>The maildir carrier keeps the contract\<close>

definition new_path :: "string \<Rightarrow> string \<Rightarrow> string" where
  "new_path inbox n = path_join (path_join inbox ''new'') n"

text \<open>The names a directory can yield that are text.\<close>

definition plain_name :: "string \<Rightarrow> bool" where
  "plain_name n = (n \<noteq> [] \<and> n \<noteq> ''.'' \<and> n \<noteq> ''..'' \<and> CHR ''/'' \<notin> set n \<and> utf8_valid n)"

definition plain_names :: "string list \<Rightarrow> string list" where
  "plain_names names = remdups (filter plain_name names)"

lemma new_path_file_name: "plain_name n \<Longrightarrow> path_file_name (new_path inbox n) = Some n"
  by (simp add: new_path_def path_file_name_def plain_name_def path_parts_join)

lemma new_path_inject: "plain_name m \<Longrightarrow> plain_name n \<Longrightarrow> new_path inbox m = new_path inbox n \<longleftrightarrow> m = n"
  by (simp add: new_path_def plain_name_def path_join_inject)

lemma new_cur_differ:
  "plain_name m \<Longrightarrow> plain_name n \<Longrightarrow> path_join (path_join inbox ''cur'') (m @ '':2,S'') \<noteq> new_path inbox n"
proof
  assume a: "plain_name m" "plain_name n" "path_join (path_join inbox ''cur'') (m @ '':2,S'') = new_path inbox n"
  have "path_parts (path_join (path_join inbox ''cur'') (m @ '':2,S'')) = path_parts inbox @ [''cur'', m @ '':2,S'']"
    using a(1) by (subst path_parts_join, simp add: plain_name_def) (simp add: path_parts_join)
  moreover have "path_parts (new_path inbox n) = path_parts inbox @ [''new'', n]"
    using a(2) by (simp add: new_path_def plain_name_def path_parts_join)
  ultimately show False using a(3) by simp
qed

lemma read_message_files: "files (snd (maildir_read_message p w)) = files w"
  by (simp add: maildir_read_message_def split: option.splits)

lemma read_message_Inr: "maildir_read_message p w = (Inr raw, w') \<Longrightarrow> files w p = Some raw"
  by (auto simp: maildir_read_message_def split: option.splits)

lemma read_all_spec:
  "maildir_read_all ps w = (r, w') \<Longrightarrow> files w' = files w \<and>
   (\<forall>ms. r = Inr ms \<longrightarrow> length ms = length ps \<and>
     (\<forall>k < length ps. files w (ps ! k) = Some (inc_raw (ms ! k)) \<and>
        inc_id (ms ! k) = (case path_file_name (ps ! k) of Some n \<Rightarrow> utf8_lossy n | None \<Rightarrow> [])))"
proof (induction ps arbitrary: w r w')
  case (Cons p ps)
  obtain x w1 where x: "maildir_read_message p w = (x, w1)" by (metis surj_pair)
  have f1: "files w1 = files w" using read_message_files [of p w] x by simp
  obtain y w2 where y: "maildir_read_all ps w1 = (y, w2)" by (metis surj_pair)
  note ih = Cons.IH [OF y]
  show ?case
  proof (cases x)
    case (Inl e)
    then show ?thesis using Cons.prems x f1 by (auto simp: via_io_def)
  next
    case (Inr raw)
    have raw: "files w p = Some raw" using x Inr by (simp add: read_message_Inr)
    show ?thesis
    proof (cases y)
      case iy: (Inl e)
      then show ?thesis using Cons.prems x Inr y f1 ih by (auto simp: via_io_def)
    next
      case iy: (Inr ms)
      then show ?thesis using Cons.prems x Inr y f1 ih raw
        by (auto simp: via_io_def nth_Cons' less_Suc_eq_0_disj)
    qed
  qed
qed simp

lemma check_new_files: "files (snd (maildir_check_new inbox names w)) = files w"
proof -
  obtain r w' where "maildir_check_new inbox names w = (r, w')" by (metis surj_pair)
  then show ?thesis using read_all_spec
    by (auto simp: maildir_check_new_def split: sum.splits)
qed

lemma list_new_entries:
  "maildir_list_new (new_entries inbox names w) =
   Inr (map (\<lambda>n. new_path inbox n) (filter (\<lambda>n. files w (new_path inbox n) \<noteq> None) names))"
proof -
  have "maildir_list_new (map (\<lambda>n. Inr (f n, True)) xs) = Inr (map f xs)" for f and xs :: "string list"
    by (induction xs) simp_all
  then show ?thesis by (simp add: new_entries_def new_path_def)
qed

lemma check_new_spec:
  assumes "maildir_check_new inbox (plain_names names) w = (Inr ms, w')"
  defines "ns \<equiv> filter (\<lambda>n. files w (new_path inbox n) \<noteq> None) (plain_names names)"
  shows "map inc_id ms = ns" "\<And>m. m \<in> set ms \<Longrightarrow> files w (new_path inbox (inc_id m)) = Some (inc_raw m)"
proof -
  have run: "maildir_read_all (map (\<lambda>n. new_path inbox n) ns) w = (Inr ms, w')"
    using assms(1) by (simp add: maildir_check_new_def list_new_entries ns_def)
  note spec = read_all_spec [OF run]
  have pn: "plain_name n" if "n \<in> set ns" for n using that by (simp add: ns_def plain_names_def)
  have l: "length ms = length ns" using spec by simp
  have i: "inc_id (ms ! k) = ns ! k" if "k < length ns" for k
  proof -
    have p: "plain_name (ns ! k)" using pn that by simp
    then have "utf8_lossy (ns ! k) = ns ! k" by (simp add: plain_name_def utf8_lossy_valid)
    then show ?thesis using spec that p by (simp add: new_path_file_name)
  qed
  show ids: "map inc_id ms = ns" using l i by (intro nth_equalityI) auto
  fix m assume "m \<in> set ms"
  then obtain k where k: "k < length ms" "m = ms ! k" by (auto simp: in_set_conv_nth)
  then show "files w (new_path inbox (inc_id m)) = Some (inc_raw m)" using spec l i by simp
qed

text \<open>The mail the maildir holds under a name.\<close>

definition maildir_held :: "string \<Rightarrow> world \<Rightarrow> string \<Rightarrow> bytes option" where
  "maildir_held inbox w n = (if plain_name n then files w (new_path inbox n) else None)"

lemma rename_other:
  "r \<noteq> p \<Longrightarrow> r \<noteq> q \<Longrightarrow> files (snd (rename_file p q w)) r = files w r"
  by (auto simp: rename_file_def prim_def observed_def Let_def split: option.splits)

lemma maildir_mark_other:
  assumes "plain_name i" "j \<noteq> i"
  shows "maildir_held inbox (snd (maildir_mark inbox i w)) j = maildir_held inbox w j"
proof (cases "plain_name j \<and> files w (new_path inbox i) \<noteq> None")
  case True
  let ?d = "path_join (path_join inbox ''cur'') (i @ '':2,S'')"
  have n: "path_file_name (new_path inbox i) = Some i" using assms(1) by (rule new_path_file_name)
  have "files (snd (rename_file (new_path inbox i) ?d w)) (new_path inbox j) = files w (new_path inbox j)"
    using assms True new_path_inject [of j i inbox] new_cur_differ [of i j inbox] by (intro rename_other) auto
  then have "files (snd (maildir_mark inbox i w)) (new_path inbox j) = files w (new_path inbox j)"
    using True n
    by (simp add: maildir_mark_def Let_def new_path_def [symmetric] via_io_def maildir_mark_processed_def io_bind_def
        io_return_def case_prod_beta split: sum.splits)
  then show ?thesis by (simp add: maildir_held_def)
next
  case False
  then show ?thesis by (auto simp: maildir_held_def maildir_mark_def new_path_def [symmetric])
qed

interpretation md: inbound_carrier
  "maildir_carrier inbox outbox (plain_names names) stamp" "Collect plain_name" "maildir_held inbox"
  for inbox outbox names stamp
proof (unfold_locales, goal_cases)
  case (1 c i)
  then show ?case by (simp add: maildir_held_def maildir_carrier_def check_new_files)
next
  case (2 c ms c' m)
  then have r: "maildir_check_new inbox (plain_names names) c = (Inr ms, c')" by (simp add: maildir_carrier_def)
  have "inc_id m \<in> set (map inc_id ms)" using 2(2) by simp
  then have "plain_name (inc_id m)" unfolding check_new_spec(1) [OF r] by (simp add: plain_names_def)
  then show ?case using check_new_spec(2) [OF r 2(2)] by (simp add: maildir_held_def)
next
  case (3 c ms c')
  then have r: "maildir_check_new inbox (plain_names names) c = (Inr ms, c')" by (simp add: maildir_carrier_def)
  show ?case unfolding check_new_spec(1) [OF r] by (simp add: plain_names_def)
qed (simp_all add: maildir_carrier_def maildir_mark_other)

interpretation rc: inbound_carrier
  "routed_carrier inbox cfg opened (plain_names names) stamp" "Collect plain_name" "maildir_held inbox"
  for inbox cfg opened names stamp
proof (unfold_locales, goal_cases)
  case (1 c i)
  then show ?case by (simp add: maildir_held_def routed_carrier_def check_new_files)
next
  case (2 c ms c' m)
  then show ?case using md.fetched [where outbox = inbox and stamp = stamp and inbox = inbox and names = names and c = c and ms = ms and c' = c' and m = m] by (simp add: maildir_carrier_def routed_carrier_def)
next
  case (3 c ms c')
  then show ?case using md.fetched_once [where outbox = inbox and stamp = stamp and inbox = inbox and names = names and c = c and ms = ms and c' = c'] by (simp add: maildir_carrier_def routed_carrier_def)
qed (simp_all add: routed_carrier_def maildir_mark_other)

section \<open>Properties\<close>

text \<open>C25.  With a routing table, a reply is written into exactly the directory its recipient's domain names, or
  refused: sending succeeds only by putting the whole mail under a fresh name into \<open>new/\<close> of that outbox, and
  a recipient without a route leaves the file system as it was.\<close>

theorem routed_send_exact:
  assumes "routed_send cfg (map rt_outbox (ob_route cfg)) (ts, pid, u) to raw w = (r, w')"
  shows "case outbox_for cfg to of
      Inr (Some dir) \<Rightarrow>
        (if r = Inr () then files w' (new_path dir (maildir_filename ts pid u)) = Some raw else True) \<and>
        (\<forall>p. if p = path_join (path_join dir ''tmp'') (maildir_filename ts pid u) \<or>
                p = new_path dir (maildir_filename ts pid u) then True else files w' p = files w p)
    | _ \<Rightarrow> w' = w \<and> r \<noteq> Inr ()"
proof (cases "outbox_for cfg to")
  case (Inl e)
  then show ?thesis using assms by (auto simp: routed_send_def)
next
  case (Inr d)
  show ?thesis
  proof (cases d)
    case None
    then show ?thesis using assms Inr by (auto simp: routed_send_def)
  next
    case (Some dir)
    have "dir \<in> set (map rt_outbox (ob_route cfg))"
      using Inr Some by (auto simp: outbox_for_def find_Some_iff split: if_splits option.splits)
    then have "maildir_send dir (ts, pid, u) raw w = (r, w')"
      using assms Inr Some by (simp add: routed_send_def)
    moreover obtain x w1 where x: "maildir_write_message dir ts pid u raw w = (x, w1)" by (metis surj_pair)
    ultimately have w: "w1 = w'" "r = res_bind (map_err (\<lambda>e. IoError e) x) (\<lambda>_. Inr ())"
      by (simp_all add: maildir_send_def via_io_def)
    have p: "files w' (new_path dir (maildir_filename ts pid u)) = Some raw" if "r = Inr ()"
      using maildir.put_done [of "(dir, ts, pid, u)" raw w _ w'] x w that
      by (cases x) (auto simp: new_path_def)
    have "files w' p = files w p" if "p \<noteq> path_join (path_join dir ''tmp'') (maildir_filename ts pid u)"
      "p \<noteq> new_path dir (maildir_filename ts pid u)" for p
      using maildir.put_frame [of "(dir, ts, pid, u)" raw w x w' p] x w that by (simp add: new_path_def)
    then show ?thesis using p Inr Some by auto
  qed
qed

lemma rsplit_examples:
  "rsplit_once CHR ''@'' ''v@axiom'' = Some (''v'', ''axiom'')" "rsplit_once CHR ''@'' ''v@AXIOM'' = Some (''v'', ''AXIOM'')"
  by (simp_all add: rsplit_once_Some)

lemma route_examples:
  "route_domain ''v@axiom'' = Some ''axiom''" "route_domain ''v@AXIOM'' = Some ''axiom''"
  by (simp_all add: route_domain_def rsplit_examples before_slash_def ascii_lower_def lower_char_def is_upper_def contains_str_def
      byte_val_def char_of_def bit_0 Let_def)

text \<open>The routing table and the older split disagree on a domain written in capitals.\<close>

lemma locality_disagrees:
  "outbox_for (default_outbound\<lparr>ob_route := [\<lparr>rt_domain = ''axiom'', rt_outbox = ''/o''\<rparr>]\<rparr>) ''v@AXIOM'' = Inr (Some ''/o'') \<and>
   \<not> recipient_is_local ''v@AXIOM''"
proof -
  have e: "eq_ignore_case ''axiom'' ''axiom''" by (simp add: eq_ignore_case_def)
  show ?thesis using e
    by (simp add: outbox_for_def route_examples rsplit_examples recipient_is_local_def before_slash_def)
qed

lemma routed_send_exact_witness:
  "\<exists>w'. routed_send (default_outbound\<lparr>ob_route := [\<lparr>rt_domain = ''axiom'', rt_outbox = ''/o''\<rparr>]\<rparr>) [''/o''] (1, 2, ''u'')
     ''v@axiom'' ''hi'' no_files = (Inr (), w') \<and>
   files w' (new_path ''/o'' (maildir_filename 1 2 ''u'')) = Some ''hi''"
proof -
  let ?cfg = "default_outbound\<lparr>ob_route := [\<lparr>rt_domain = ''axiom'', rt_outbox = ''/o''\<rparr>]\<rparr>"
  have e: "eq_ignore_case ''axiom'' ''axiom''" by (simp add: eq_ignore_case_def)
  have o': "outbox_for ?cfg ''v@axiom'' = Inr (Some ''/o'')"
    using e by (simp add: outbox_for_def route_examples)
  obtain w' where m: "maildir_write_message ''/o'' 1 2 ''u'' ''hi'' no_files =
      (Inr (path_join (path_join ''/o'' ''new'') (maildir_filename 1 2 ''u'')), w')"
    using maildir_write_unsynced by blast
  have r: "routed_send ?cfg (map rt_outbox (ob_route ?cfg)) (1, 2, ''u'') ''v@axiom'' ''hi'' no_files = (Inr (), w')"
    using o' m by (simp add: routed_send_def maildir_send_def via_io_def)
  show ?thesis using routed_send_exact [OF r] r o' by simp
qed

end
