(* ===== verification/CareOf.thy ===== *)
theory CareOf
  imports Deposits
begin

text \<open>
  Care-of addressing (\<open>antie/src/care_of.rs\<close>): the parser of \<open>inner@pickup/fingerprint\<close>, the domain a
  deposit is keyed by, and the single delivery decision.  The checksum of a wallet id
  (\<open>axiom_core_logic::wallet_id::validate_wallet_id\<close>, another crate) is the argument \<open>valid\<close>.
\<close>

record care_of =
  co_inner :: string
  co_pickup :: string
  co_fingerprint :: string

definition parse_care_of :: "string \<Rightarrow> care_of option" where
  "parse_care_of addr = do {
     (addressed, fp) \<leftarrow> rsplit_once CHR ''/'' addr;
     (user, rest) \<leftarrow> split_once CHR ''@'' addressed;
     (host, pickup) \<leftarrow> split_once CHR ''@'' rest;
     if fp = [] \<or> pickup = [] then None
     else Some \<lparr>co_inner = user @ ''@'' @ host, co_pickup = pickup, co_fingerprint = fp\<rparr>
   }"

definition pickup_domain :: "string \<Rightarrow> string" where
  "pickup_domain pickup = (case rsplit_once CHR ''@'' pickup of
     Some (_, d) \<Rightarrow> ascii_lower d | None \<Rightarrow> ascii_lower pickup)"

definition domain_char_ok :: "char \<Rightarrow> bool" where
  "domain_char_ok c = (is_alnum c \<or> c \<in> {CHR ''.'', CHR ''-'', CHR ''['', CHR '']'', CHR '':''})"

definition domain_is_depositable :: "string \<Rightarrow> bool" where
  "domain_is_depositable domain =
     (domain \<noteq> [] \<and> \<not> contains_str ''..'' domain \<and> list_all domain_char_ok domain)"

datatype delivery_plan =
    PlanEmail string
  | PlanDeposit (pd_domain: string) (pd_inner: string)
  | PlanRefuse (pr_reason: string)

definition debug_opt_str :: "string option \<Rightarrow> string" where
  "debug_opt_str x = (case x of None \<Rightarrow> ''None'' | Some s \<Rightarrow> ''Some('' @ debug_str s @ '')'')"

text \<open>\<open>dash\<close> is the em dash of the messages.\<close>

definition dash :: string where
  "dash = byte_str [0xE2, 0x80, 0x94]"

definition plan_receiver_delivery ::
  "(string \<Rightarrow> bool) \<Rightarrow> string option \<Rightarrow> string \<Rightarrow> bool \<Rightarrow> delivery_plan" where
  "plan_receiver_delivery valid receiver_address receiver_wallet_id pickup_supported =
     (case (case receiver_address of
              Some a \<Rightarrow> if contains_str ''/'' a then Some a else None
            | None \<Rightarrow> None) of
        None \<Rightarrow>
          (case rsplit_once CHR ''/'' receiver_wallet_id of
             Some (email, _) \<Rightarrow> PlanEmail email
           | None \<Rightarrow> PlanRefuse (''no deliverable receiver: address='' @ debug_opt_str receiver_address @
               '', wallet_id '' @ debug_str receiver_wallet_id @ '' has no '' @ [CHR 0x27] @ ''/'' @ [CHR 0x27]))
      | Some addr \<Rightarrow>
          (case parse_care_of addr of
             Some co \<Rightarrow>
               (let inner_wallet_id = co_inner co @ ''/'' @ co_fingerprint co in
                if \<not> valid inner_wallet_id then
                  PlanRefuse (''care-of fingerprint mismatch: inner '' @ debug_str (co_inner co) @
                    '' does not checksum to '' @ debug_str (co_fingerprint co) @ '' '' @ dash @
                    '' not delivered anywhere'')
                else if pickup_supported \<and> domain_is_depositable (pickup_domain (co_pickup co)) then
                  PlanDeposit (pickup_domain (co_pickup co)) (co_inner co)
                else PlanEmail (co_inner co))
           | None \<Rightarrow>
               if \<not> valid addr then
                 PlanRefuse (''receiver_address '' @ debug_str addr @ '' fails wallet-id checksum '' @ dash @
                   '' not delivered anywhere'')
               else (case rsplit_once CHR ''/'' addr of
                   Some (email, _) \<Rightarrow> PlanEmail email
                 | None \<Rightarrow> PlanRefuse [])))"

section \<open>The parser\<close>

lemma parse_care_of_Some:
  "parse_care_of addr = Some co \<longleftrightarrow>
     (\<exists>user host. addr = user @ ''@'' @ host @ ''@'' @ co_pickup co @ ''/'' @ co_fingerprint co \<and>
        co_inner co = user @ ''@'' @ host \<and> CHR ''@'' \<notin> set user \<and> CHR ''@'' \<notin> set host \<and>
        CHR ''/'' \<notin> set (co_fingerprint co) \<and> co_pickup co \<noteq> [] \<and> co_fingerprint co \<noteq> [])"
proof
  assume "parse_care_of addr = Some co"
  then show "\<exists>user host. addr = user @ ''@'' @ host @ ''@'' @ co_pickup co @ ''/'' @ co_fingerprint co \<and>
        co_inner co = user @ ''@'' @ host \<and> CHR ''@'' \<notin> set user \<and> CHR ''@'' \<notin> set host \<and>
        CHR ''/'' \<notin> set (co_fingerprint co) \<and> co_pickup co \<noteq> [] \<and> co_fingerprint co \<noteq> []"
    by (auto simp: parse_care_of_def bind_eq_Some_conv split_once_Some rsplit_once_Some
        split: if_splits) blast
next
  assume "\<exists>user host. addr = user @ ''@'' @ host @ ''@'' @ co_pickup co @ ''/'' @ co_fingerprint co \<and>
        co_inner co = user @ ''@'' @ host \<and> CHR ''@'' \<notin> set user \<and> CHR ''@'' \<notin> set host \<and>
        CHR ''/'' \<notin> set (co_fingerprint co) \<and> co_pickup co \<noteq> [] \<and> co_fingerprint co \<noteq> []"
  then obtain user host where s: "addr = user @ ''@'' @ host @ ''@'' @ co_pickup co @ ''/'' @ co_fingerprint co"
      "co_inner co = user @ ''@'' @ host" "CHR ''@'' \<notin> set user" "CHR ''@'' \<notin> set host"
      "CHR ''/'' \<notin> set (co_fingerprint co)" "co_pickup co \<noteq> []" "co_fingerprint co \<noteq> []"
    by blast
  have "rsplit_once CHR ''/'' addr = Some (user @ CHR ''@'' # host @ CHR ''@'' # co_pickup co, co_fingerprint co)"
    using s(1,5) by (simp add: rsplit_once_Some)
  then show "parse_care_of addr = Some co"
    using s by (cases co) (simp add: parse_care_of_def)
qed

lemma domain_char_not_slash: "domain_char_ok c \<Longrightarrow> c \<noteq> CHR ''/''"
  by (auto simp: domain_char_ok_def is_alnum_def is_digit_def is_upper_def is_lower_def byte_val_def)

lemma depositable_component:
  assumes "domain_is_depositable d"
  shows "CHR ''/'' \<notin> set d \<and> d \<noteq> [] \<and> d \<noteq> ''..''"
proof -
  have "contains_str ''..'' ''..''" by (simp add: contains_str_def)
  with assms show ?thesis
    by (auto simp: domain_is_depositable_def list_all_iff dest: domain_char_not_slash)
qed

lemma pickup_domain_lower [simp]: "ascii_lower (pickup_domain p) = pickup_domain p"
  by (auto simp: pickup_domain_def split: option.splits)

lemma debug_str_not_Nil [simp]: "debug_str s \<noteq> []"
  by (simp add: debug_str_def)

lemma plan_care_of:
  assumes "parse_care_of addr = Some co" "valid (co_inner co @ ''/'' @ co_fingerprint co)"
  shows "plan_receiver_delivery valid (Some addr) wid supported =
    (if supported \<and> domain_is_depositable (pickup_domain (co_pickup co))
     then PlanDeposit (pickup_domain (co_pickup co)) (co_inner co) else PlanEmail (co_inner co))"
proof -
  have "CHR ''/'' \<in> set addr" using assms(1) by (auto simp: parse_care_of_Some)
  then show ?thesis using assms by (simp add: plan_receiver_delivery_def contains_slash)
qed

lemma plan_wallet_fallback:
  assumes "\<And>a. receiver_address = Some a \<Longrightarrow> CHR ''/'' \<notin> set a" "CHR ''/'' \<notin> set tail"
  shows "plan_receiver_delivery valid receiver_address (email @ ''/'' @ tail) supported = PlanEmail email"
  using assms
  by (auto simp: plan_receiver_delivery_def contains_slash split: option.splits)

section \<open>Properties\<close>

text \<open>C8. Every delivery decided from an address override with a tail is checksum-verified: an email or
  a deposit goes to an inner address that the wallet-id check accepted together with the fingerprint
  the override carries, the inner address is a prefix of the override, and a refusal happens only when
  that check failed.  A deposit is keyed by one lower-case path component.\<close>

theorem plan_verified:
  assumes "CHR ''/'' \<in> set addr"
  shows "case plan_receiver_delivery valid (Some addr) wid supported of
      PlanEmail e \<Rightarrow> (\<exists>fp rest. valid (e @ ''/'' @ fp) \<and> addr = e @ rest @ ''/'' @ fp)
    | PlanDeposit d e \<Rightarrow> supported \<and> (\<exists>fp rest. valid (e @ ''/'' @ fp) \<and> addr = e @ ''@'' @ rest @ ''/'' @ fp) \<and>
        CHR ''/'' \<notin> set d \<and> d \<noteq> [] \<and> d \<noteq> ''..'' \<and> ascii_lower d = d
    | PlanRefuse _ \<Rightarrow> (case parse_care_of addr of
          Some co \<Rightarrow> \<not> valid (co_inner co @ ''/'' @ co_fingerprint co) | None \<Rightarrow> \<not> valid addr)"
proof (cases "parse_care_of addr")
  case None
  obtain e fp where s: "rsplit_once CHR ''/'' addr = Some (e, fp)"
    using assms rsplit_once_None [of "CHR ''/''" addr] by (cases "rsplit_once CHR ''/'' addr") auto
  then have "addr = e @ [] @ ''/'' @ fp" by (simp add: rsplit_once_Some)
  with None s assms show ?thesis
    by (auto simp: plan_receiver_delivery_def contains_slash)
next
  case (Some co)
  show ?thesis
  proof (cases "valid (co_inner co @ ''/'' @ co_fingerprint co)")
    case False
    then show ?thesis using Some assms by (simp add: plan_receiver_delivery_def contains_slash)
  next
    case True
    have shape: "addr = co_inner co @ ''@'' @ co_pickup co @ ''/'' @ co_fingerprint co"
      using Some by (auto simp: parse_care_of_Some)
    then have "addr = co_inner co @ (''@'' @ co_pickup co) @ ''/'' @ co_fingerprint co" by simp
    then show ?thesis
      using plan_care_of [OF Some, of valid wid supported, OF True] True shape depositable_component
      by (auto simp del: append.simps)
  qed
qed

lemma plan_verified_witness:
  "case plan_receiver_delivery (\<lambda>w. w = ''a@b/f'') (Some ''a@b@c@D.x/f'') ''z/z'' True of
      PlanEmail e \<Rightarrow> (\<exists>fp rest. e @ ''/'' @ fp = ''a@b/f'' \<and> ''a@b@c@D.x/f'' = e @ rest @ ''/'' @ fp)
    | PlanDeposit d e \<Rightarrow> True \<and> (\<exists>fp rest. e @ ''/'' @ fp = ''a@b/f'' \<and> ''a@b@c@D.x/f'' = e @ ''@'' @ rest @ ''/'' @ fp) \<and>
        CHR ''/'' \<notin> set d \<and> d \<noteq> [] \<and> d \<noteq> ''..'' \<and> ascii_lower d = d
    | PlanRefuse _ \<Rightarrow> (case parse_care_of ''a@b@c@D.x/f'' of
          Some co \<Rightarrow> co_inner co @ ''/'' @ co_fingerprint co \<noteq> ''a@b/f'' | None \<Rightarrow> ''a@b@c@D.x/f'' \<noteq> ''a@b/f'')"
  by (rule plan_verified) simp

text \<open>C32. A verified care-of delivery is never lost: whatever the pickup mailbox looks like and whether
  or not the operator supports pickup, the plan reaches the verified inner address, and it is a deposit
  exactly when pickup is supported and the pickup domain is a plain host label.\<close>

theorem care_of_never_lost:
  assumes "CHR ''@'' \<notin> set user" "CHR ''@'' \<notin> set host" "CHR ''/'' \<notin> set fp" "pickup \<noteq> []" "fp \<noteq> []"
    and "valid (user @ ''@'' @ host @ ''/'' @ fp)"
  shows "plan_receiver_delivery valid (Some (user @ ''@'' @ host @ ''@'' @ pickup @ ''/'' @ fp)) wid supported =
    (if supported \<and> domain_is_depositable (pickup_domain pickup)
     then PlanDeposit (pickup_domain pickup) (user @ ''@'' @ host) else PlanEmail (user @ ''@'' @ host))"
proof -
  let ?co = "\<lparr>co_inner = user @ ''@'' @ host, co_pickup = pickup, co_fingerprint = fp\<rparr>"
  have "parse_care_of (user @ ''@'' @ host @ ''@'' @ pickup @ ''/'' @ fp) = Some ?co"
    using assms by (auto simp: parse_care_of_Some)
  from plan_care_of [OF this] assms(6) show ?thesis by simp
qed

lemma care_of_never_lost_witness:
  "plan_receiver_delivery (\<lambda>w. w = ''a'' @ ''@'' @ ''b'' @ ''/'' @ ''f'')
     (Some (''a'' @ ''@'' @ ''b'' @ ''@'' @ ''c@D..x'' @ ''/'' @ ''f'')) ''z'' True =
   (if True \<and> domain_is_depositable (pickup_domain ''c@D..x'')
    then PlanDeposit (pickup_domain ''c@D..x'') (''a'' @ ''@'' @ ''b'') else PlanEmail (''a'' @ ''@'' @ ''b''))"
  by (rule care_of_never_lost) simp_all

end
