(* ===== verification/SkipList.thy ===== *)
theory SkipList
  imports Deposits Errors
begin

text \<open>
  The skip list (\<open>antie/src/skip_list.rs\<close>): the set of receivers whose cheques a sibling carrier
  delivers, loaded from a text file and reloaded on SIGHUP, and the depth of the directory the skipped
  cheques go to.  The atomic write itself is \<open>write_skipped\<close> of \<open>Deposits\<close>.
\<close>

record skip_list =
  sl_path :: string
  sl_dir :: string
  sl_entries :: "string set"

definition entry_of_line :: "string \<Rightarrow> string option" where
  "entry_of_line line =
     (let trimmed = trim line in
      if trimmed = [] \<or> starts_with ''#'' trimmed then None else Some trimmed)"

text \<open>\<open>content\<close> is what reading the file returned; \<open>read_to_string\<close> also fails on invalid UTF-8.\<close>

definition load_entries :: "(string + bytes) \<Rightarrow> string set" where
  "load_entries content = (case content of
     Inl e \<Rightarrow> {}
   | Inr s \<Rightarrow> if utf8_valid s then set (List.map_filter entry_of_line (str_lines s)) else {})"

definition skip_maybe_open ::
  "string option \<Rightarrow> string option \<Rightarrow> (world \<Rightarrow> (antie_error + skip_list option) \<times> world)" where
  "skip_maybe_open skip_list_path skipped_dir w =
     (case (skip_list_path, skipped_dir) of
        (Some slp, Some sdp) \<Rightarrow>
          (case create_dir_all sdp w of
             (Inl e, w1) \<Rightarrow> (Inl (ConfigError (''create skipped_dir '' @ sdp @ '': '' @ e)), w1)
           | (Inr _, w1) \<Rightarrow>
               (case maildir_read_message slp w1 of (content, w2) \<Rightarrow>
                  (Inr (Some \<lparr>sl_path = slp, sl_dir = sdp, sl_entries = load_entries content\<rparr>), w2)))
      | _ \<Rightarrow> (Inr None, w))"

definition skip_reload :: "skip_list \<Rightarrow> (string + bytes) \<Rightarrow> antie_error + (nat \<times> skip_list)" where
  "skip_reload sl content =
     (let new_entries = load_entries content in
      Inr (card new_entries, sl\<lparr>sl_entries := new_entries\<rparr>))"

definition skip_contains :: "skip_list \<Rightarrow> string \<Rightarrow> bool" where
  "skip_contains sl receiver_wallet_id = (receiver_wallet_id \<in> sl_entries sl)"

text \<open>\<open>names\<close>: the readable entries of the directory, \<open>None\<close> when the directory cannot be read.  A name
  that is not UTF-8 is not counted.\<close>

definition skipped_dir_count :: "string list option \<Rightarrow> nat" where
  "skipped_dir_count names = (case names of None \<Rightarrow> 0
     | Some ns \<Rightarrow> length (filter (\<lambda>n. utf8_valid n \<and> \<not> starts_with ''.tmp.'' n) ns))"

text \<open>The SIGHUP loop: every signal reloads, an error of the reload keeps the list, a closed signal
  stream ends it.  \<open>sigs\<close> are the contents of the file at each signal.\<close>

fun sighup_loop :: "skip_list \<Rightarrow> (string + bytes) list \<Rightarrow> skip_list" where
  "sighup_loop sl [] = sl"
| "sighup_loop sl (content # sigs) =
     (case skip_reload sl content of
        Inl e \<Rightarrow> sighup_loop sl sigs
      | Inr (_, sl') \<Rightarrow> sighup_loop sl' sigs)"

section \<open>Loading\<close>

lemma map_filter_mem: "x \<in> set (List.map_filter f l) \<longleftrightarrow> (\<exists>y \<in> set l. f y = Some x)"
  by (force simp: map_filter_def)

lemma entry_of_line_Some:
  "entry_of_line l = Some e \<longleftrightarrow> e = trim l \<and> e \<noteq> [] \<and> hd e \<noteq> CHR ''#''"
  by (cases "trim l") (auto simp: entry_of_line_def Let_def)

lemma load_entries_mem:
  "e \<in> load_entries (Inr s) \<longleftrightarrow>
     utf8_valid s \<and> e \<noteq> [] \<and> hd e \<noteq> CHR ''#'' \<and> (\<exists>l \<in> set (str_lines s). trim l = e)"
  by (auto simp: load_entries_def map_filter_mem entry_of_line_Some)

lemma load_entries_fail [simp]: "load_entries (Inl e) = {}"
  by (simp add: load_entries_def)

lemma chomp_cr_set: "set (chomp_cr l) \<subseteq> set l"
  by (auto simp: chomp_cr_def dest: in_set_butlastD)

lemma str_lines_no_newline: "l \<in> set (str_lines s) \<Longrightarrow> CHR 0x0A \<notin> set l"
  using chomp_cr_set
  by (fastforce simp: str_lines_def Let_def dest: in_set_butlastD split_on_parts split: if_splits)

lemma sighup_loop_last:
  "sighup_loop sl (sigs @ [content]) = sl\<lparr>sl_entries := load_entries content\<rparr>"
  by (induction sl sigs rule: sighup_loop.induct) (auto simp: skip_reload_def Let_def)

section \<open>Trimmed text\<close>

lemma trim_end_app: "\<exists>p. s = trim_end s @ p"
proof -
  obtain p where "rev s = p @ strip_front (map rev ws_encodings) (rev s)"
    using strip_front_suffix by blast
  then have "s = trim_end s @ rev p"
    unfolding trim_end_def by (metis rev_append rev_rev_ident)
  then show ?thesis by blast
qed

lemma trim_start_app: "\<exists>p. s = p @ trim_start s"
  unfolding trim_start_def by (rule strip_front_suffix)

lemma trim_end_fixed: "trim_end s = s \<longleftrightarrow> strip_one (map rev ws_encodings) (rev s) = None"
proof
  assume "trim_end s = s"
  then have "strip_front (map rev ws_encodings) (rev s) = rev s"
    unfolding trim_end_def by (metis rev_rev_ident)
  then show "strip_one (map rev ws_encodings) (rev s) = None" by (metis strip_front_fixed)
qed (simp add: trim_end_def strip_front_id)

text \<open>An entry that is already trimmed, has no line break and is no comment is found again in a file
  that lists it on a line of its own.\<close>

lemma trim_id:
  "trim_start e = e \<Longrightarrow> trim_end e = e \<Longrightarrow> trim e = e"
  by (simp add: trim_def)

definition unlines :: "string list \<Rightarrow> string" where
  "unlines es = concat (map (\<lambda>e. e @ [CHR 0x0A]) es)"

lemma split_unlines:
  "(\<And>e. e \<in> set es \<Longrightarrow> CHR 0x0A \<notin> set e) \<Longrightarrow> split_on CHR 0x0A (unlines es) = es @ [] # []"
  by (induction es) (auto simp: unlines_def)

lemma trim_no_cr:
  assumes "trim e = e" "e \<noteq> []"
  shows "last e \<noteq> CHR 0x0D"
proof
  assume cr: "last e = CHR 0x0D"
  have "trim_end (trim_start e) = e" using assms(1) by (simp add: trim_def)
  moreover have "trim_end (trim_end s) = trim_end s" for s
    by (simp add: trim_end_def strip_front_id strip_front_fixed)
  ultimately have "trim_end e = e" by metis
  then have none: "strip_one (map rev ws_encodings) (rev e) = None" by (simp add: trim_end_fixed)
  have "[CHR 0x0D] \<in> set (map rev ws_encodings)"
    by (simp add: ws_encodings_def byte_str_def) code_simp
  then have "\<not> starts_with [CHR 0x0D] (rev e)"
    using none unfolding strip_one_None by blast
  moreover have "rev e = CHR 0x0D # rev (butlast e)"
    using cr assms(2) by (metis append_butlast_last_id rev_eq_Cons_iff rev_rev_ident)
  ultimately show False by simp
qed

lemma str_lines_unlines:
  assumes "\<And>e. e \<in> set es \<Longrightarrow> CHR 0x0A \<notin> set e \<and> trim e = e \<and> e \<noteq> []"
  shows "str_lines (unlines es) = es"
proof -
  have "map (\<lambda>l. chomp_cr l) es = es"
    using assms trim_no_cr by (intro map_idI) (auto simp: chomp_cr_def)
  then show ?thesis using assms by (simp add: str_lines_def Let_def split_unlines)
qed

section \<open>Properties\<close>

text \<open>A skip list written one trimmed receiver per line is loaded back exactly, and a reload
  replaces the previous set by it: after the signals of a sibling carrier the list holds precisely the
  receivers of the file as it was at the last signal.\<close>

lemma skip_list_reload:
  assumes "\<And>e. e \<in> set es \<Longrightarrow> CHR 0x0A \<notin> set e \<and> trim e = e \<and> e \<noteq> [] \<and> hd e \<noteq> CHR ''#''"
    and "utf8_valid (unlines es)"
  shows "skip_contains (sighup_loop sl (sigs @ [Inr (unlines es)])) r \<longleftrightarrow> r \<in> set es"
proof -
  have "str_lines (unlines es) = es" using assms(1) by (intro str_lines_unlines) auto
  then have "r \<in> load_entries (Inr (unlines es)) \<longleftrightarrow> r \<in> set es"
    unfolding load_entries_mem using assms by (metis (no_types))
  then show ?thesis by (simp add: skip_contains_def sighup_loop_last)
qed

lemma skip_list_reload_witness:
  "skip_contains (sighup_loop \<lparr>sl_path = ''p'', sl_dir = ''d'', sl_entries = {''old''}\<rparr>
     ([Inl ''gone''] @ [Inr (unlines [''a/1'', ''b/2''])])) ''b/2'' \<longleftrightarrow> ''b/2'' \<in> set [''a/1'', ''b/2'']"
proof (rule skip_list_reload)
  have "trim ''a/1'' = ''a/1''" "trim ''b/2'' = ''b/2''" by code_simp+
  then show "CHR 0x0A \<notin> set e \<and> trim e = e \<and> e \<noteq> [] \<and> hd e \<noteq> CHR ''#''" if "e \<in> set [''a/1'', ''b/2'']" for e
    using that by auto
  show "utf8_valid (unlines [''a/1'', ''b/2''])"
    by (rule utf8_valid_ascii) (auto simp: unlines_def byte_val_def)
qed

text \<open>A failed read is not kept out of the list: after a signal at which the file could not be read
  (or was not UTF-8) no receiver is diverted any more, whatever the list held before.\<close>

lemma skip_list_unreadable:
  assumes "case content of Inl _ \<Rightarrow> True | Inr s \<Rightarrow> \<not> utf8_valid s"
  shows "\<not> skip_contains (sighup_loop sl (sigs @ [content])) r"
  using assms by (simp add: skip_contains_def sighup_loop_last load_entries_def split: sum.splits)

lemma skip_list_unreadable_witness:
  "\<not> skip_contains (sighup_loop \<lparr>sl_path = ''p'', sl_dir = ''d'', sl_entries = {''a/1''}\<rparr>
     ([Inr ''a/1''] @ [Inl ''gone''])) ''a/1''"
  by (rule skip_list_unreadable) simp

text \<open>Sibling carriers never see half a cheque: while any sequence of skipped cheques is written
  into the directory, whatever fails on the way, a file under a name that is not one of the hidden
  \<open>.tmp.\<close> names shows at every moment what it held before or the complete content of a cheque written
  under that very name.\<close>

lemma skipped_never_torn:
  assumes "\<And>n b. (n, b) \<in> set js \<Longrightarrow> q \<noteq> path_join dir (''.tmp.'' @ n)"
    and "h \<in> set (hist (run_puts (\<lambda>n b. write_skipped dir n b) js w))" "h \<notin> set (hist w)"
  shows "fst h q = files w q \<or> (\<exists>(n, b) \<in> set js. path_join dir n = q \<and> fst h q = Some b)"
proof -
  let ?put = "\<lambda>(dir, name) b. write_skipped dir name b"
  let ?js = "map (\<lambda>(n, b). ((dir, n), b)) js"
  have run: "run_puts (\<lambda>n b. write_skipped dir n b) js w = run_puts ?put ?js w" for w
    by (induction js arbitrary: w) auto
  have "fst h q = files w q \<or> (\<exists>(n, b) \<in> set ?js. (\<lambda>(dir, name). path_join dir name) n = q \<and> fst h q = Some b)"
    by (rule skipped.run_never_torn) (use assms in \<open>auto simp: run\<close>)
  then show ?thesis by fastforce
qed

lemma skipped_never_torn_witness:
  "let h = last (hist (run_puts (\<lambda>n b. write_skipped ''d'' n b) [(''x'', ''ab'')] no_files)) in
   fst h ''d/x'' = files no_files ''d/x'' \<or>
   (\<exists>(n, b) \<in> set [(''x'', ''ab'')]. path_join ''d'' n = ''d/x'' \<and> fst h ''d/x'' = Some b)"
  unfolding Let_def
proof (rule skipped_never_torn)
  show "''d/x'' \<noteq> path_join ''d'' (''.tmp.'' @ n)" for n
    by (simp add: path_join_def)
  have "0 < length (hist (run_puts (\<lambda>n b. write_skipped ''d'' n b) [(''x'', ''ab'')] no_files))"
    by code_simp
  then have "hist (run_puts (\<lambda>n b. write_skipped ''d'' n b) [(''x'', ''ab'')] no_files) \<noteq> []" by simp
  then show "last (hist (run_puts (\<lambda>n b. write_skipped ''d'' n b) [(''x'', ''ab'')] no_files)) \<in>
      set (hist (run_puts (\<lambda>n b. write_skipped ''d'' n b) [(''x'', ''ab'')] no_files))"
    by (rule last_in_set)
qed (simp add: no_files_def)

end
