(* ===== verification/CoreIpc.thy ===== *)
theory CoreIpc
  imports CoreTypes
begin

text \<open>
  The calls of Core (\<open>antie/src/core_ipc.rs\<close>).  The interpreter is a parameter from inputs to outputs or an
  execution error; the inputs are a record of the fields that a call sets to something other than empty.
\<close>

datatype core_mode = CL2_PREFILTER | CL10

datatype core_result = Accept | Fatal | Reject

text \<open>A rejection of Core: its text and the structured response made of it.\<close>

type_synonym core_rejection = "string \<times> error_response"

record core_inputs =
  ci_mode :: core_mode
  ci_transaction :: "transaction option"
  ci_prev_receipts :: "bytes list"
  ci_current_state :: "bytes option"
  ci_vbc_bundle :: "bytes option"
  ci_my_validator_pk :: "bytes option"
  ci_overlapped_signatures :: "bytes list"
  ci_sender_fact_chain :: "bytes option"
  ci_fact_certificates :: bytes
  ci_fanout_message :: "bytes option"
  ci_local_core_id :: bytes

record core_outputs =
  co_result :: core_result
  co_produced_state_id :: "bytes option"
  co_new_wallet_seq :: "nat option"
  co_commitment_hash :: "bytes option"
  co_rejection_reason :: "core_rejection option"
  co_fanout_new_ttl :: "nat option"

text \<open>\<open>ValidationOutput\<close>.\<close>

record cl2_verdict =
  cv_accepted :: bool
  cv_new_state_id :: "bytes option"
  cv_new_wallet_seq :: "nat option"
  cv_commitment_hash :: "bytes option"
  cv_rejection_reason :: "string option"
  cv_rejection :: "error_response option"

text \<open>A call returns a verdict or an error, or the process ends with an exit code.\<close>

datatype core_call = CoreExit int | CoreReturn "cl2_verdict res"

definition reason_text :: "core_outputs \<Rightarrow> string" where
  "reason_text o' = (case co_rejection_reason o' of Some r \<Rightarrow> fst r | None \<Rightarrow> ''Unknown'')"

definition cl2_inputs :: "witness_request \<Rightarrow> bytes option \<Rightarrow> bytes option \<Rightarrow> core_inputs" where
  "cl2_inputs req vbc_bundle my_validator_pk =
     \<lparr>ci_mode = CL2_PREFILTER, ci_transaction = Some (wr_transaction req), ci_prev_receipts = wr_prev_receipts req,
      ci_current_state = None, ci_vbc_bundle = vbc_bundle, ci_my_validator_pk = my_validator_pk,
      ci_overlapped_signatures = wr_overlapped_signatures req, ci_sender_fact_chain = wr_sender_fact_chain req,
      ci_fact_certificates = wr_fact_certificates req, ci_fanout_message = None,
      ci_local_core_id = replicate 32 (CHR 0x00)\<rparr>"

definition validate_transaction_cl2 ::
  "(core_inputs \<Rightarrow> string + core_outputs) \<Rightarrow> witness_request \<Rightarrow> bytes option \<Rightarrow> bytes option \<Rightarrow> core_call" where
  "validate_transaction_cl2 avm req vbc_bundle my_validator_pk =
     (case avm (cl2_inputs req vbc_bundle my_validator_pk) of
        Inl e \<Rightarrow> CoreReturn (Inl (CoreError (''AVM: '' @ e)))
      | Inr outputs \<Rightarrow>
          (case co_result outputs of
             Accept \<Rightarrow> CoreReturn (Inr \<lparr>cv_accepted = True, cv_new_state_id = co_produced_state_id outputs,
               cv_new_wallet_seq = co_new_wallet_seq outputs, cv_commitment_hash = co_commitment_hash outputs,
               cv_rejection_reason = None, cv_rejection = None\<rparr>)
           | Fatal \<Rightarrow> CoreExit 78
           | Reject \<Rightarrow> CoreReturn (Inr \<lparr>cv_accepted = False, cv_new_state_id = None, cv_new_wallet_seq = None,
               cv_commitment_hash = None, cv_rejection_reason = Some (reason_text outputs),
               cv_rejection = map_option snd (co_rejection_reason outputs)\<rparr>)))"

record fanout_verdict =
  fv_accepted :: bool
  fv_new_ttl :: nat
  fv_rejection_reason :: "string option"
  fv_rejection :: "error_response option"

definition cl10_inputs :: "bytes \<Rightarrow> bytes option \<Rightarrow> core_inputs" where
  "cl10_inputs fanout_message vbc_bundle =
     \<lparr>ci_mode = CL10, ci_transaction = None, ci_prev_receipts = [], ci_current_state = None,
      ci_vbc_bundle = vbc_bundle, ci_my_validator_pk = None, ci_overlapped_signatures = [],
      ci_sender_fact_chain = None, ci_fact_certificates = [], ci_fanout_message = Some fanout_message,
      ci_local_core_id = replicate 32 (CHR 0x00)\<rparr>"

definition verify_fanout_cl10 ::
  "(core_inputs \<Rightarrow> string + core_outputs) \<Rightarrow> bytes \<Rightarrow> bytes option \<Rightarrow> fanout_verdict res" where
  "verify_fanout_cl10 avm fanout_message vbc_bundle =
     (case avm (cl10_inputs fanout_message vbc_bundle) of
        Inl e \<Rightarrow> Inl (CoreError (''CL10 AVM: '' @ e))
      | Inr outputs \<Rightarrow>
          (case co_result outputs of
             Accept \<Rightarrow> Inr \<lparr>fv_accepted = True,
               fv_new_ttl = (case co_fanout_new_ttl outputs of Some t \<Rightarrow> t | None \<Rightarrow> 0),
               fv_rejection_reason = None, fv_rejection = None\<rparr>
           | Reject \<Rightarrow> Inr \<lparr>fv_accepted = False, fv_new_ttl = 0, fv_rejection_reason = Some (reason_text outputs),
               fv_rejection = map_option snd (co_rejection_reason outputs)\<rparr>
           | Fatal \<Rightarrow> Inr \<lparr>fv_accepted = False, fv_new_ttl = 0, fv_rejection_reason = Some ''Fatal error in CL10'',
               fv_rejection = None\<rparr>))"

end
