(* ===== verification/Sealing.thy ===== *)
theory Sealing
  imports Email
begin

text \<open>
  Encryption at the mail boundary: the lookup of a receiver's PGP key with its cache and the encryption that falls
  back to the plain text (\<open>antie/src/pgp.rs\<close>), and the loading of the key that opens incoming envelopes
  (\<open>antie/src/decrypt.rs\<close>).  The OpenPGP library, the keyserver and the curve arithmetic are parameters.
\<close>

section \<open>Receiver keys\<close>

definition default_keyserver :: string where
  "default_keyserver = ''https://keys.openpgp.org''"

text \<open>In milliseconds, as the clock.\<close>

definition key_cache_ttl :: nat where
  "key_cache_ttl = 3600 * 1000"

text \<open>What is known of an address, a key or that there is none, and when it was fetched.\<close>

type_synonym key_cache = "string \<Rightarrow> (bytes option \<times> nat) option"

datatype key_answer = NoClient | NoAnswer | BadStatus | BadBody | KeyFound bytes

record pgp_env =
  pg_ask :: "nat \<Rightarrow> string \<Rightarrow> key_answer"
  pg_cert_ok :: "bytes \<Rightarrow> bool"
  pg_recipients :: "bytes \<Rightarrow> string + bytes list"
  pg_seal :: "bytes list \<Rightarrow> bytes \<Rightarrow> string + bytes"

definition key_url :: "string \<Rightarrow> string" where
  "key_url email = default_keyserver @ ''/vks/v1/by-email/'' @ concat (map (\<lambda>c. if c = CHR ''@'' then ''%40'' else [c]) email)"

text \<open>The cached answer while it is fresh.\<close>

definition cached_key :: "nat \<Rightarrow> string \<Rightarrow> key_cache \<Rightarrow> bytes option option" where
  "cached_key now email cache =
     (case cache email of
        Some (b, fetched_at) \<Rightarrow> if now - fetched_at < key_cache_ttl then Some b else None
      | None \<Rightarrow> None)"

text \<open>\<open>k\<close> numbers the query, \<open>done\<close> is the clock once it is answered.\<close>

definition lookup_key_bytes :: "pgp_env \<Rightarrow> nat \<Rightarrow> nat \<Rightarrow> nat \<Rightarrow> string \<Rightarrow> key_cache \<Rightarrow> bytes option \<times> key_cache" where
  "lookup_key_bytes env k now done email cache =
     (if ends_with ''@axiom'' email then (None, cache)
      else case cached_key now email cache of
          Some b \<Rightarrow> (b, cache)
        | None \<Rightarrow>
            (case pg_ask env k (key_url email) of
               KeyFound b \<Rightarrow>
                 (if pg_cert_ok env b then (Some b, cache(email \<mapsto> (Some b, done)))
                  else (None, cache(email \<mapsto> (None, done))))
             | _ \<Rightarrow> (None, cache(email \<mapsto> (None, done)))))"

definition pgp_encrypt :: "pgp_env \<Rightarrow> bytes \<Rightarrow> bytes \<Rightarrow> string + bytes" where
  "pgp_encrypt env cert_bytes plaintext =
     (case pg_recipients env cert_bytes of
        Inl e \<Rightarrow> Inl (''PGP cert parse: '' @ e)
      | Inr recipients \<Rightarrow>
          (if recipients = [] then Inl ''No usable encryption key in cert'' else pg_seal env recipients plaintext))"

definition try_encrypt_for_email ::
  "pgp_env \<Rightarrow> nat \<Rightarrow> nat \<Rightarrow> nat \<Rightarrow> string \<Rightarrow> bytes \<Rightarrow> key_cache \<Rightarrow> (bytes \<times> bool) \<times> key_cache" where
  "try_encrypt_for_email env k now done email plaintext cache =
     (case lookup_key_bytes env k now done email cache of
        (Some cert_bytes, cache') \<Rightarrow>
          (case pgp_encrypt env cert_bytes plaintext of
             Inr encrypted \<Rightarrow> ((encrypted, True), cache')
           | Inl _ \<Rightarrow> ((plaintext, False), cache'))
      | (None, cache') \<Rightarrow> ((plaintext, False), cache'))"

text \<open>Decryption.  A certificate gives the secret keys usable for transport; a key of them may fail to become a pair, a pair may
  fail on an encrypted session key, and a session key may not fit the message.\<close>

record pgp_message =
  pm_session_packets :: "bytes list"
  pm_fits :: "bytes \<Rightarrow> bool"
  pm_setup :: "string + unit"
  pm_read :: "bytes \<Rightarrow> string + bytes"

record pgp_secret_env =
  ps_secret_keys :: "bytes \<Rightarrow> string + bytes list"
  ps_pair :: "bytes \<Rightarrow> bytes option"
  ps_unlock :: "bytes \<Rightarrow> bytes \<Rightarrow> bytes option"
  ps_parse :: "bytes \<Rightarrow> string + pgp_message"

definition session_key :: "pgp_secret_env \<Rightarrow> pgp_message \<Rightarrow> bytes \<Rightarrow> bytes \<Rightarrow> bytes option" where
  "session_key env m pkesk k = do { kp \<leftarrow> ps_pair env k; s \<leftarrow> ps_unlock env kp pkesk; if pm_fits m s then Some s else None }"

fun try_keys :: "pgp_secret_env \<Rightarrow> pgp_message \<Rightarrow> bytes \<Rightarrow> bytes list \<Rightarrow> bytes option" where
  "try_keys env m pkesk [] = None"
| "try_keys env m pkesk (k # ks) =
     (case session_key env m pkesk k of Some s \<Rightarrow> Some s | None \<Rightarrow> try_keys env m pkesk ks)"

text \<open>The helper's double loop.\<close>

fun unlock_message :: "pgp_secret_env \<Rightarrow> pgp_message \<Rightarrow> bytes list \<Rightarrow> bytes list \<Rightarrow> bytes option" where
  "unlock_message env m keys [] = None"
| "unlock_message env m keys (p # ps) =
     (case try_keys env m p keys of Some s \<Rightarrow> Some s | None \<Rightarrow> unlock_message env m keys ps)"

text \<open>\<open>manipulated\<close> is the text of the library's error; \<open>pm_setup\<close> is what else it may find wrong with the message.\<close>

definition pgp_decrypt :: "pgp_secret_env \<Rightarrow> string \<Rightarrow> bytes \<Rightarrow> bytes \<Rightarrow> string + bytes" where
  "pgp_decrypt env manipulated secret_cert ciphertext =
     res_bind (map_err (\<lambda>e. ''PGP secret cert parse: '' @ e) (ps_secret_keys env secret_cert)) (\<lambda>keys.
     res_bind (map_err (\<lambda>e. ''PGP decrypt parse: '' @ e) (ps_parse env ciphertext)) (\<lambda>m.
     res_bind (map_err (\<lambda>e. ''PGP decrypt setup: '' @ e)
       (res_bind (pm_setup m) (\<lambda>_. ok_or manipulated (unlock_message env m keys (pm_session_packets m))))) (\<lambda>s.
     map_err (\<lambda>e. ''PGP decrypt read: '' @ e) (pm_read m s))))"

lemma try_keys_None: "try_keys env m p ks = None \<longleftrightarrow> (\<forall>k \<in> set ks. session_key env m p k = None)"
  by (induction ks) (auto split: option.splits)

text \<open>Any key of the certificate that opens any session packet is found.\<close>

lemma unlock_message_None:
  "unlock_message env m keys ps = None \<longleftrightarrow> (\<forall>p \<in> set ps. \<forall>k \<in> set keys. session_key env m p k = None)"
  by (induction ps) (auto simp: try_keys_None [symmetric] split: option.split)

lemma unlock_message_fits: "unlock_message env m keys ps = Some s \<Longrightarrow> pm_fits m s"
proof (induction ps)
  case (Cons p ps)
  have "try_keys env m p ks = Some s \<Longrightarrow> pm_fits m s" for ks
    by (induction ks) (auto simp: session_key_def bind_eq_Some_conv split: option.splits if_splits)
  then show ?case using Cons by (auto split: option.splits)
qed simp

definition is_pgp_encrypted :: "bytes \<Rightarrow> bool" where
  "is_pgp_encrypted d =
     (case d of [] \<Rightarrow> False | c # _ \<Rightarrow> 128 \<le> byte_val c \<or> starts_with ''-----BEGIN PGP MESSAGE-----'' d)"

section \<open>The key of incoming envelopes\<close>

record envelope_decryptor =
  ed_ed25519_pk :: bytes
  ed_x25519_sk :: bytes

text \<open>\<open>seed_file\<close> is what reading the key file gave; \<open>verifying\<close> and \<open>to_x25519\<close> derive the keys of a seed.\<close>

definition decryptor_from_key_file ::
  "(bytes \<Rightarrow> bytes) \<Rightarrow> (bytes \<Rightarrow> bytes) \<Rightarrow> string \<Rightarrow> string + bytes \<Rightarrow> envelope_decryptor res" where
  "decryptor_from_key_file verifying to_x25519 path seed_file =
     (case seed_file of
        Inl e \<Rightarrow> Inl (ConfigError (''validator.private_key_path read failed at '' @ debug_str path @ '': '' @ e))
      | Inr seed \<Rightarrow>
          (if length seed \<noteq> 32 then
             Inl (ConfigError (''validator.private_key_path: expected 32-byte Ed25519 seed at '' @ debug_str path @
               '', got '' @ dec (length seed) @ '' bytes''))
           else Inr \<lparr>ed_ed25519_pk = verifying seed, ed_x25519_sk = to_x25519 seed\<rparr>))"

text \<open>Opening: \<open>unseal\<close> is \<open>open\_for\_validator\<close> of the core crate; the reason of a failure is dropped.\<close>

definition open_envelope ::
  "(bytes \<Rightarrow> bytes \<Rightarrow> bytes \<Rightarrow> string + bytes) \<Rightarrow> envelope_decryptor \<Rightarrow> bytes \<Rightarrow> unit + bytes" where
  "open_envelope unseal d envelope = map_err (\<lambda>_. ()) (unseal envelope (ed_ed25519_pk d) (ed_x25519_sk d))"

section \<open>Queries to the keyserver\<close>

text \<open>Successive lookups of any addresses: the clock at each, the clock once it is answered; the result lists the
  queries made.\<close>

fun lookup_run :: "pgp_env \<Rightarrow> nat \<Rightarrow> (string \<times> nat \<times> nat) list \<Rightarrow> key_cache \<Rightarrow> (string \<times> nat) list" where
  "lookup_run env k [] cache = []"
| "lookup_run env k ((email, now, done) # ls) cache =
     ((if ends_with ''@axiom'' email \<or> cached_key now email cache \<noteq> None then [] else [(email, done)]) @
      lookup_run env (k + 1) ls (snd (lookup_key_bytes env k now done email cache)))"

end
