(* ===== verification/Gateway.thy ===== *)
theory Gateway
  imports Admission MailCarrier CareOf SkipList CoreIpc Sealing
begin

text \<open>
  The gateway of \<open>antie/src/gateway.rs\<close>: its surroundings and state, the state-passing sequencing the handlers are
  written in, and the steps they share: counting, reading the clocks, calling Lambda, sending mail and
  writing files.  A step ends with a value, with an error, or by leaving the process.
\<close>

section \<open>Surroundings and state\<close>

text \<open>Everything the gateway is given: the configuration, the sender, the codecs and the rules of the core crate, and
  the clocks.  A \<open>nat\<close> argument is the number of the interaction.\<close>

record 'n gateway_env =
  ge_config :: antie_config
  ge_mail :: mail_env
  ge_decryptor :: "decryptor option"
  ge_lambda :: lambda_port
  ge_send :: "nat \<Rightarrow> string \<Rightarrow> bytes \<Rightarrow> world \<times> 'n \<Rightarrow> unit res \<times> world \<times> 'n"
  ge_clock :: "nat \<Rightarrow> nat"
  ge_unix :: "nat \<Rightarrow> nat"
  ge_stamp :: "nat \<Rightarrow> mail_stamp"
  ge_tee_ids :: "nat \<Rightarrow> nat \<times> nat"
  ge_entries :: "nat \<Rightarrow> string \<Rightarrow> string list option"
  ge_encode_reply :: "response_payload \<Rightarrow> string + bytes"
  ge_with_id :: "string \<Rightarrow> error_response \<Rightarrow> error_response"
  ge_is_dev :: "string \<Rightarrow> bool"
  ge_valid_wallet :: "string \<Rightarrow> bool"
  ge_decode_witness :: "bytes \<Rightarrow> string + witness_request"
  ge_decode_redeem :: "bytes \<Rightarrow> string + redeem_request"
  ge_sig_prefilter :: bool
  ge_sig_ok :: "transaction \<Rightarrow> bool"
  ge_tier :: "string \<Rightarrow> nat option"
  ge_bucket :: "bytes \<Rightarrow> nat \<Rightarrow> bytes"
  ge_decode_bundle :: "bytes \<Rightarrow> string + bytes"
  ge_bundle_ok :: "bytes \<Rightarrow> bool"
  ge_subject_pk :: "bytes \<Rightarrow> bytes"
  ge_avm :: "core_inputs \<Rightarrow> string + core_outputs"
  ge_burn_address :: string
  ge_origin :: "transaction \<Rightarrow> string + bytes"
  ge_encode_cheque :: "artifact \<Rightarrow> bytes option \<Rightarrow> bytes \<Rightarrow> string + bytes"
  ge_origin_matches :: "bytes \<Rightarrow> bytes \<Rightarrow> bool"
  ge_encode_scar :: "artifact \<Rightarrow> string + bytes"
  ge_pgp :: pgp_env
  ge_sender_leg :: "witness_reply \<Rightarrow> response_payload"
  ge_vbc_signer :: "string \<Rightarrow> bytes"
  ge_status_value :: "bytes \<Rightarrow> string + cbor_value"
  ge_admin_url :: "string option"

datatype gateway_event =
    Called lambda_call
  | Mailed string bytes bool
  | Posted string string

record 'n gateway =
  gw_world :: world
  gw_net :: 'n
  gw_stats :: antie_stats
  gw_limiter :: limiter
  gw_skip :: "skip_list option"
  gw_keys :: key_cache
  gw_tick :: nat
  gw_trace :: "gateway_event list"

datatype 'a outcome = Done 'a | Failed antie_error | Exited int

type_synonym ('n, 'a) gw = "'n gateway \<Rightarrow> 'a outcome \<times> 'n gateway"

section \<open>Sequencing\<close>

definition gw_return :: "'a \<Rightarrow> ('n, 'a) gw" where
  "gw_return a g = (Done a, g)"

definition gw_fail :: "antie_error \<Rightarrow> ('n, 'a) gw" where
  "gw_fail e g = (Failed e, g)"

definition gw_exit :: "int \<Rightarrow> ('n, 'a) gw" where
  "gw_exit c g = (Exited c, g)"

definition gw_bind :: "('n, 'a) gw \<Rightarrow> ('a \<Rightarrow> ('n, 'b) gw) \<Rightarrow> ('n, 'b) gw" where
  "gw_bind m f g = (case m g of
      (Done a, g') \<Rightarrow> f a g'
    | (Failed e, g') \<Rightarrow> (Failed e, g')
    | (Exited c, g') \<Rightarrow> (Exited c, g'))"

fun outcome_of :: "'a res \<Rightarrow> 'a outcome" where
  "outcome_of (Inl e) = Failed e"
| "outcome_of (Inr a) = Done a"

definition gw_res :: "'a res \<Rightarrow> ('n, 'a) gw" where
  "gw_res r g = (outcome_of r, g)"

text \<open>\<open>match m\<close> with the error as a value.\<close>

definition gw_try :: "('n, 'a) gw \<Rightarrow> ('n, 'a res) gw" where
  "gw_try m g = (case m g of
      (Done a, g') \<Rightarrow> (Done (Inr a), g')
    | (Failed e, g') \<Rightarrow> (Done (Inl e), g')
    | (Exited c, g') \<Rightarrow> (Exited c, g'))"

definition gw_get :: "('n gateway \<Rightarrow> 'a) \<Rightarrow> ('n, 'a) gw" where
  "gw_get f g = (Done (f g), g)"

section \<open>Shared steps\<close>

text \<open>\<open>fetch_add(1)\<close> on a counter, named by its update.\<close>

definition bump :: "((nat \<Rightarrow> nat) \<Rightarrow> antie_stats \<Rightarrow> antie_stats) \<Rightarrow> ('n, unit) gw" where
  "bump upd g = (Done (), g\<lparr>gw_stats := upd (\<lambda>n. wadd n 1) (gw_stats g)\<rparr>)"

text \<open>A value read from the surroundings.\<close>

definition gw_fresh :: "(nat \<Rightarrow> 'a) \<Rightarrow> ('n, 'a) gw" where
  "gw_fresh f g = (Done (f (gw_tick g)), g\<lparr>gw_tick := gw_tick g + 1\<rparr>)"

definition gw_io :: "'a io \<Rightarrow> ('n, string + 'a) gw" where
  "gw_io m g = (case m (gw_world g) of (r, w) \<Rightarrow> (Done r, g\<lparr>gw_world := w\<rparr>))"

definition send_mail :: "'n gateway_env \<Rightarrow> string \<Rightarrow> bytes \<Rightarrow> ('n, unit) gw" where
  "send_mail env to raw g =
     (case ge_send env (gw_tick g) to raw (gw_world g, gw_net g) of (r, w, n) \<Rightarrow>
        (outcome_of r, g\<lparr>gw_world := w, gw_net := n, gw_tick := gw_tick g + 1, gw_trace := gw_trace g @ [Mailed to raw (is_ok r)]\<rparr>))"

definition call_lambda :: "lambda_call \<Rightarrow> (nat \<Rightarrow> 'r res) \<Rightarrow> ('n, 'r) gw" where
  "call_lambda call answer g =
     (outcome_of (answer (gw_tick g)), g\<lparr>gw_tick := gw_tick g + 1, gw_trace := gw_trace g @ [Called call]\<rparr>)"

definition track_lambda :: "lambda_call \<Rightarrow> (nat \<Rightarrow> 'r res) \<Rightarrow> ('n, 'r) gw" where
  "track_lambda call answer =
     gw_bind (bump st_lambda_requests_update) (\<lambda>_.
     gw_bind (gw_try (call_lambda call answer)) (\<lambda>r.
     case r of
       Inr v \<Rightarrow> gw_return v
     | Inl e \<Rightarrow> gw_bind (bump st_lambda_errors_update) (\<lambda>_. gw_fail e)))"

text \<open>The structured twin of a rejection the gateway itself originates.\<close>

definition antie_rejection ::
  "'n gateway_env \<Rightarrow> string \<Rightarrow> error_category \<Rightarrow> string \<Rightarrow> string \<Rightarrow> error_response option" where
  "antie_rejection env c category message request_id = Some (ge_with_id env request_id (new_response c category message))"

named_theorems gw_simps \<open>unfolding of the sequencing\<close>

lemma gw_basic [gw_simps]:
  "gw_return a g = (Done a, g)" "gw_fail e g = (Failed e, g)" "gw_exit c g = (Exited c, g)"
  "gw_res r g = (outcome_of r, g)" "gw_get h g = (Done (h g), g)"
  "bump upd g = (Done (), g\<lparr>gw_stats := upd (\<lambda>n. wadd n 1) (gw_stats g)\<rparr>)"
  "gw_fresh f g = (Done (f (gw_tick g)), g\<lparr>gw_tick := gw_tick g + 1\<rparr>)"
  by (simp_all add: gw_return_def gw_fail_def gw_exit_def gw_res_def gw_get_def bump_def gw_fresh_def)

lemma gw_bind_eqs [gw_simps]:
  "m g = (Done a, g') \<Longrightarrow> gw_bind m f g = f a g'"
  "m g = (Failed e, g') \<Longrightarrow> gw_bind m f g = (Failed e, g')"
  "m g = (Exited c, g') \<Longrightarrow> gw_bind m f g = (Exited c, g')"
  by (simp_all add: gw_bind_def)

lemma gw_bind_basic [gw_simps]:
  "gw_bind (gw_return a) f = f a" "gw_bind (gw_fail e) f = gw_fail e" "gw_bind (gw_exit c) f = gw_exit c"
  "gw_bind (gw_res (Inl e)) f = gw_fail e" "gw_bind (gw_res (Inr a)) f = f a"
  by (simp_all add: gw_bind_def gw_return_def gw_fail_def gw_exit_def gw_res_def fun_eq_iff)

section \<open>What a step leaves alone\<close>

text \<open>\<open>keeps P m\<close>: whatever the state, the run of \<open>m\<close> from \<open>g\<close> to \<open>g'\<close> satisfies \<open>P g g'\<close>.  With a reflexive and
  transitive \<open>P\<close> it passes from the parts of a handler to the whole.\<close>

definition keeps :: "('n gateway \<Rightarrow> 'n gateway \<Rightarrow> bool) \<Rightarrow> ('n, 'a) gw \<Rightarrow> bool" where
  "keeps P m = (\<forall>g. P g (snd (m g)))"

locale frame_rule =
  fixes P :: "'n gateway \<Rightarrow> 'n gateway \<Rightarrow> bool"
  assumes refl: "P g g"
    and trans: "P g h \<Longrightarrow> P h k \<Longrightarrow> P g k"
begin

lemma keeps_return: "keeps P (gw_return a)" and keeps_fail: "keeps P (gw_fail e)" and keeps_exit: "keeps P (gw_exit c)"
  and keeps_res: "keeps P (gw_res r)" and keeps_get: "keeps P (gw_get f)"
  by (simp_all add: keeps_def gw_simps refl)

lemma keeps_bind: "keeps P m \<Longrightarrow> (\<And>a. keeps P (f a)) \<Longrightarrow> keeps P (gw_bind m f)"
  by (auto simp: keeps_def gw_bind_def split: prod.splits outcome.splits) (metis snd_conv trans)+

lemma keeps_try: "keeps P m \<Longrightarrow> keeps P (gw_try m)"
  by (simp add: keeps_def gw_try_def case_prod_beta split: outcome.splits)

lemma keeps_if: "(b \<Longrightarrow> keeps P m) \<Longrightarrow> (\<not> b \<Longrightarrow> keeps P n) \<Longrightarrow> keeps P (if b then m else n)"
  by simp

lemma keeps_option: "(x = None \<Longrightarrow> keeps P m) \<Longrightarrow> (\<And>a. x = Some a \<Longrightarrow> keeps P (f a)) \<Longrightarrow> keeps P (case x of None \<Rightarrow> m | Some a \<Rightarrow> f a)"
  by (cases x) simp_all

lemma keeps_sum: "(\<And>e. x = Inl e \<Longrightarrow> keeps P (h e)) \<Longrightarrow> (\<And>a. x = Inr a \<Longrightarrow> keeps P (f a)) \<Longrightarrow> keeps P (case x of Inl e \<Rightarrow> h e | Inr a \<Rightarrow> f a)"
  by (cases x) simp_all

lemma keeps_prod: "(\<And>a b. x = (a, b) \<Longrightarrow> keeps P (f a b)) \<Longrightarrow> keeps P (case x of (a, b) \<Rightarrow> f a b)"
  by (cases x) simp

lemmas keeps_intros = keeps_return keeps_fail keeps_exit keeps_res keeps_get keeps_bind keeps_try keeps_if keeps_option keeps_sum keeps_prod

end

end
