(* ===== verification/Handlers.thy ===== *)
theory Handlers
  imports Gateway "HOL-Library.List_Lexorder" "HOL-Library.Char_ord"
begin

text \<open>
  The reply path and the handlers of \<open>antie/src/gateway.rs\<close> that translate a request into one call of Lambda and
  its answer into a reply: query, validator status, genesis, redeem, acknowledgement, the certificate requests,
  \<open>set_auth_hash\<close>, peer audit and the refusal of fan-out relays.
\<close>

section \<open>The reply\<close>

text \<open>\<open>send_response\<close> in its three parts: the copy for UNCLE, the custody deposit, the mail.  \<open>custody_reply\<close> answers
  whether the reply is done with.\<close>

definition tee_reply :: "'n gateway_env \<Rightarrow> antie_email \<Rightarrow> bytes \<Rightarrow> ('n, unit) gw" where
  "tee_reply env original email_bytes =
     (case (ob_uncle (ac_outbound (ge_config env)), em_uncle_correlate original) of
        (Some outbox, Some correlate) \<Rightarrow>
          gw_bind (gw_fresh (ge_tee_ids env)) (\<lambda>(pid, nanos).
          gw_bind (gw_io (uncle_tee outbox pid nanos correlate email_bytes)) (\<lambda>_. gw_return ()))
      | _ \<Rightarrow> gw_return ())"

definition custody_reply :: "'n gateway_env \<Rightarrow> antie_email \<Rightarrow> string \<Rightarrow> bytes \<Rightarrow> ('n, bool) gw" where
  "custody_reply env original request_id email_bytes =
     (case em_custody original of
        None \<Rightarrow> gw_return False
      | Some (hdr, i) \<Rightarrow>
          (if eq_ignore_case hdr ''X-TOT-Session'' \<and> ge_is_dev env (em_from original) then
             gw_fail (InvalidPayload (''custody: '' @ hdr @ '' is the normal-wallet stamp; sender '' @ em_from original @
               '' is a dev wallet '' @ dash @ '' stamp and address disagree''))
           else case find (\<lambda>r. eq_ignore_case (cr_header r) hdr) (ob_custody (ac_outbound (ge_config env))) of
               None \<Rightarrow> gw_return False
             | Some row \<Rightarrow>
                 gw_bind (gw_io (custody_deposit (path_join (cr_outbox row) i) (request_id @ ''.cbor'') email_bytes)) (\<lambda>r.
                 case r of
                   Inr _ \<Rightarrow> gw_return (cr_suppress_email row)
                 | Inl e \<Rightarrow>
                     (if cr_suppress_email row
                      then gw_fail (MaildirError (''custody deposit failed for '' @ hdr @ '': '' @ e))
                      else gw_return False))))"

definition mail_reply :: "'n gateway_env \<Rightarrow> antie_email \<Rightarrow> bytes \<Rightarrow> ('n, unit) gw" where
  "mail_reply env original email_bytes =
     gw_bind (send_mail env (em_from original) email_bytes) (\<lambda>_.
     gw_bind (bump st_emails_sent_update) (\<lambda>_.
     gw_bind (gw_fresh (ge_unix env)) (\<lambda>now g.
       (Done (), g\<lparr>gw_stats := note_round_served now (gw_stats g)\<rparr>))))"

definition reply_type :: "response_payload \<Rightarrow> string" where
  "reply_type payload = (if rp_success payload then ''witness_response'' else ''error'')"

definition send_response :: "'n gateway_env \<Rightarrow> antie_email \<Rightarrow> response_payload \<Rightarrow> ('n, unit) gw" where
  "send_response env original payload =
     gw_bind (gw_fresh (ge_stamp env)) (\<lambda>st.
     gw_bind (gw_res (build_response (me_b64_encode (ge_mail env)) (ge_encode_reply env) st (em_from original)
       (ac_identity_email (ge_config env)) (reply_type payload) (rp_request_id payload) (em_message_id original) payload))
     (\<lambda>email_bytes.
     gw_bind (tee_reply env original email_bytes) (\<lambda>_.
     gw_bind (custody_reply env original (rp_request_id payload) email_bytes) (\<lambda>served.
     if served then gw_return () else mail_reply env original email_bytes))))"

section \<open>Query\<close>

fun byte_values :: "cbor_value list \<Rightarrow> bytes option" where
  "byte_values [] = Some []"
| "byte_values (CvInteger i # vs) =
     (if 0 \<le> i \<and> i < 256 then map_option (\<lambda>b. char_of (nat i) # b) (byte_values vs) else None)"
| "byte_values (v # vs) = None"

fun query_wallet_pk :: "cbor_value \<Rightarrow> bytes option" where
  "query_wallet_pk (CvMap entries) =
     (case find (\<lambda>e. fst e = CvText ''wallet_pk'') entries of
        None \<Rightarrow> None
      | Some (_, CvBytes b) \<Rightarrow> Some b
      | Some (_, CvArray vs) \<Rightarrow> byte_values vs
      | Some _ \<Rightarrow> None)"
| "query_wallet_pk v = None"

text \<open>Serialisation of the two kinds of values: an integer, and bytes as an array of integers.\<close>

definition query_nat :: "nat \<Rightarrow> cbor_value" where
  "query_nat n = CvInteger (int n)"

definition query_bytes :: "bytes \<Rightarrow> cbor_value" where
  "query_bytes b = CvArray (map (\<lambda>c. CvInteger (int (byte_val c))) b)"

definition query_data_map :: "(string \<times> cbor_value) list \<Rightarrow> cbor_value" where
  "query_data_map entries = CvMap (map (\<lambda>(k, v). (CvText k, v)) (sort_key fst entries))"

definition wallet_query_projection :: "stored_wallet \<Rightarrow> cbor_value" where
  "wallet_query_projection s = query_data_map
     [(''balance'', query_nat (sw_balance s)), (''wallet_seq'', query_nat (sw_wallet_seq s)),
      (''public_key'', query_bytes (sw_public_key s)), (''state_id'', query_bytes (sw_state_id s))]"

definition gw_require :: "string \<Rightarrow> 'a option \<Rightarrow> ('n, 'a) gw" where
  "gw_require what x = gw_res (ok_or (InvalidPayload what) x)"

text \<open>A reply that carries a refusal: its text, code and structured form.\<close>

definition refusal ::
  "'n gateway_env \<Rightarrow> string \<Rightarrow> string option \<Rightarrow> string option \<Rightarrow> string \<Rightarrow> error_category \<Rightarrow> string \<Rightarrow> response_payload" where
  "refusal env request_id err rejection_code c category message =
     (plain_reply False request_id)\<lparr>rp_error := err, rp_rejection_code := rejection_code,
        rp_error_response := antie_rejection env c category message request_id\<rparr>"

definition handle_query :: "'n gateway_env \<Rightarrow> antie_email \<Rightarrow> ('n, response_payload) gw" where
  "handle_query env email =
     gw_bind (gw_require ''Query requires query_params.wallet_pk (byte array)''
       (Option.bind (pl_query_params (em_payload email)) query_wallet_pk)) (\<lambda>wallet_pk.
     gw_bind (track_lambda (CallQuery wallet_pk) (\<lambda>k. la_query (ge_lambda env) k wallet_pk)) (\<lambda>(found, wallet_state).
     gw_return
       (if found then
          (plain_reply True (em_request_id email))\<lparr>rp_query_data := map_option wallet_query_projection wallet_state\<rparr>
        else refusal env (em_request_id email) (Some ''Wallet not found'') (Some ''NOT_FOUND'')
          ''E_ANTIE_NOT_FOUND'' ProtocolReject ''Wallet not found'')))"

section \<open>Validator status and genesis\<close>

definition vsp_reply :: "'n gateway_env \<Rightarrow> string \<Rightarrow> bytes list \<times> bytes \<Rightarrow> response_payload res" where
  "vsp_reply env request_id vsp =
     res_bind (map_err (\<lambda>e. SerializationError (''query_data: '' @ e)) (ge_status_value env (snd vsp))) (\<lambda>v.
     Inr ((plain_reply True request_id)\<lparr>rp_validator_hints := fst vsp, rp_query_data := Some v\<rparr>))"

definition handle_validator_status :: "'n gateway_env \<Rightarrow> antie_email \<Rightarrow> ('n, response_payload) gw" where
  "handle_validator_status env email =
     gw_bind (track_lambda (CallStatus (em_request_id email)) (\<lambda>k. la_status (ge_lambda env) k (em_request_id email))) (\<lambda>vsp.
     gw_res (vsp_reply env (em_request_id email) vsp))"

definition handle_genesis_dev :: "'n gateway_env \<Rightarrow> antie_email \<Rightarrow> ('n, response_payload) gw" where
  "handle_genesis_dev env email =
     (let p = em_payload email; rid = em_request_id email in
      gw_bind (gw_require ''Missing public_key'' (pl_public_key p)) (\<lambda>public_key.
      gw_bind (gw_require ''Missing balance'' (pl_balance p)) (\<lambda>balance.
      gw_bind (track_lambda (CallGenesis rid public_key balance (pl_group_members p) (pl_auth_hash p))
        (\<lambda>k. la_genesis (ge_lambda env) k rid public_key balance (pl_group_members p) (pl_auth_hash p))) (\<lambda>r.
      gw_return ((plain_reply (gr_success r) rid)\<lparr>
        rp_state_id := gr_state_id r,
        rp_error := gr_error r,
        rp_rejection_code := (if gr_success r then None else Some ''GENESIS_FAILED''),
        rp_error_response := (if gr_success r then None
          else antie_rejection env ''E_ANTIE_GENESIS_FAILED'' ProtocolReject (opt_or ''genesis refused'' (gr_error r)) rid)\<rparr>)))))"

section \<open>Redeem and acknowledgement\<close>

definition code_and_message :: "error_response \<Rightarrow> string" where
  "code_and_message er = er_code er @ '': '' @ er_message er"

definition handle_redeem_request :: "'n gateway_env \<Rightarrow> antie_email \<Rightarrow> ('n, response_payload) gw" where
  "handle_redeem_request env email =
     (let body = pl_raw_ump_body (em_payload email); rid = em_request_id email in
      gw_bind (gw_res (map_err (\<lambda>e. InvalidPayload (''RedeemRequestEnvelope CBOR decode failed: '' @ e @ '' (body_len='' @
        dec (length body) @ '')'')) (ge_decode_redeem env body))) (\<lambda>redeem_req.
      let req = (if rd_request_id redeem_req = [] then redeem_req\<lparr>rd_request_id := rid\<rparr> else redeem_req) in
      gw_bind (track_lambda (CallRedeem req) (\<lambda>k. la_redeem (ge_lambda env) k req)) (\<lambda>r.
      gw_return ((plain_reply (rr_success r) rid)\<lparr>
        rp_witness_signature := rr_witness_signature r,
        rp_produced_state_id := rr_new_state_id r,
        rp_commitment_hash := rr_commitment_hash r,
        rp_state_hash := rr_state_hash r,
        rp_receipt_commitment := rr_receipt_commitment r,
        rp_error := map_option code_and_message (rr_error_response r),
        rp_rejection_code := (if rr_success r then None else Some ''REDEEM_FAILED''),
        rp_error_response := rr_error_response r,
        rp_receiver_fact_chain := rr_receiver_fact_chain r,
        rp_fact_signature := rr_fact_signature r\<rparr>))))"

definition handle_ack_request :: "'n gateway_env \<Rightarrow> antie_email \<Rightarrow> ('n, response_payload) gw" where
  "handle_ack_request env email =
     (let p = em_payload email; rid = em_request_id email in
      gw_bind (gw_require ''Missing txid'' (pl_txid p)) (\<lambda>txid.
      if length txid \<noteq> 32 then gw_fail (InvalidPayload ''txid must be 32 bytes'') else
      gw_bind (gw_require ''Missing validator_pk'' (pl_validator_pk p)) (\<lambda>validator_pk.
      gw_bind (gw_require ''Missing sender_sig'' (pl_sender_sig p)) (\<lambda>sender_sig.
      gw_bind (gw_require ''Missing client_pk'' (pl_client_pk p)) (\<lambda>client_pk.
      let req = \<lparr>ak_request_id = rid, ak_txid = txid, ak_validator_pk = validator_pk, ak_sender_sig = sender_sig,
        ak_client_pk = client_pk\<rparr> in
      gw_bind (track_lambda (CallAck req) (\<lambda>k. la_ack (ge_lambda env) k req)) (\<lambda>(success, er).
      gw_return ((plain_reply success rid)\<lparr>
        rp_error := map_option code_and_message er,
        rp_rejection_code := (if success then None else Some ''ACK_FAILED''),
        rp_error_response := (if success then None else er)\<rparr>)))))))"

section \<open>Certificates\<close>

text \<open>The reply to a call that reports success and an optional error text.\<close>

definition verdict_reply ::
  "'n gateway_env \<Rightarrow> string \<Rightarrow> bool \<times> string option \<Rightarrow> string \<Rightarrow> string \<Rightarrow> string \<Rightarrow> response_payload" where
  "verdict_reply env rid v rejection_code c otherwise =
     (plain_reply (fst v) rid)\<lparr>rp_error := snd v,
        rp_rejection_code := (if fst v then None else Some rejection_code),
        rp_error_response := (if fst v then None else antie_rejection env c ProtocolReject (opt_or otherwise (snd v)) rid)\<rparr>"

definition vbc_fields :: "antie_email \<Rightarrow> ('n, vbc_sign_request) gw" where
  "vbc_fields email =
     (let p = em_payload email in
      gw_bind (gw_require ''Missing sphincs_pk_hex'' (pl_sphincs_pk_hex p)) (\<lambda>sphincs.
      gw_bind (gw_require ''Missing dilithium_pk_hex'' (pl_dilithium_pk_hex p)) (\<lambda>dilithium.
      gw_bind (gw_require ''Missing ed25519_pk_hex'' (pl_ed25519_pk_hex p)) (\<lambda>ed25519.
      gw_return \<lparr>vs_request_id = em_request_id email, vs_sphincs_pk_hex = sphincs, vs_dilithium_pk_hex = dilithium,
        vs_ed25519_pk_hex = ed25519, vs_pgp_fingerprint_hex = opt_or [] (pl_pgp_fingerprint_hex p),
        vs_proof_cap = opt_or [] (pl_proof_cap p), vs_node_name = opt_or [] (pl_node_name_field p)\<rparr>))))"

definition handle_vbc_sign_request :: "'n gateway_env \<Rightarrow> antie_email \<Rightarrow> ('n, response_payload) gw" where
  "handle_vbc_sign_request env email =
     gw_bind (vbc_fields email) (\<lambda>payload.
     gw_bind (track_lambda (CallVbcSign payload) (\<lambda>k. la_vbc_sign (ge_lambda env) k payload)) (\<lambda>approval.
     gw_return (verdict_reply env (em_request_id email) approval ''VBC_SIGN_FAILED'' ''E_ANTIE_VBC_SIGN_FAILED''
       ''certificate sign refused'')))"

definition handle_vbc_sign_commit :: "'n gateway_env \<Rightarrow> antie_email \<Rightarrow> ('n, response_payload) gw" where
  "handle_vbc_sign_commit env email =
     (let p = em_payload email in
      gw_bind (vbc_fields email) (\<lambda>f.
      gw_bind (gw_require ''Missing issued_at'' (pl_issued_at p)) (\<lambda>issued_at.
      gw_bind (gw_require ''Missing expires_at'' (pl_expires_at p)) (\<lambda>expires_at.
      gw_bind (gw_require ''Missing chain_depth'' (pl_chain_depth p)) (\<lambda>chain_depth.
      if length (pl_issuer_set_hex p) \<noteq> 3 then
        gw_fail (InvalidPayload (''issuer_set_hex must have 3 entries, got '' @ dec (length (pl_issuer_set_hex p))))
      else
        (let payload = vbc_sign_request.extend f (vbc_sign_commit.fields issued_at expires_at chain_depth (pl_issuer_set_hex p)) in
         gw_bind (track_lambda (CallVbcCommit payload) (\<lambda>k. la_vbc_commit (ge_lambda env) k payload)) (\<lambda>commit.
         gw_return (verdict_reply env (em_request_id email) commit ''VBC_SIGN_COMMIT_FAILED''
           ''E_ANTIE_VBC_SIGN_COMMIT_FAILED'' ''certificate commit refused''))))))))"

definition handle_set_auth_hash :: "'n gateway_env \<Rightarrow> antie_email \<Rightarrow> ('n, response_payload) gw" where
  "handle_set_auth_hash env email =
     (let p = em_payload email; rid = em_request_id email in
      gw_bind (gw_require ''Missing public_key'' (pl_public_key p)) (\<lambda>public_key.
      gw_bind (gw_require ''Missing auth_hash'' (pl_auth_hash p)) (\<lambda>auth_hash.
      if length auth_hash \<noteq> 32 then
        gw_fail (InvalidPayload (''auth_hash must be 32 bytes, got '' @ dec (length auth_hash)))
      else
        gw_bind (track_lambda (CallSetAuth rid public_key auth_hash)
          (\<lambda>k. la_set_auth (ge_lambda env) k rid public_key auth_hash)) (\<lambda>result.
        gw_return (verdict_reply env rid result ''SET_AUTH_HASH_FAILED'' ''E_ANTIE_SET_AUTH_HASH_FAILED''
          ''set_auth_hash refused'')))))"

section \<open>Peer audit and fan-out\<close>

text \<open>One answer of the audit, when both the answer and an address exist; a failing send is only logged.\<close>

definition mail_audit_answer ::
  "'n gateway_env \<Rightarrow> (mail_stamp \<Rightarrow> string \<Rightarrow> string \<Rightarrow> string \<Rightarrow> bytes res) \<Rightarrow> string option \<Rightarrow> string option \<Rightarrow> ('n, unit) gw" where
  "mail_audit_answer env build answer reply_to =
     (case (answer, reply_to) of
        (Some a, Some to) \<Rightarrow>
          gw_bind (gw_fresh (ge_stamp env)) (\<lambda>st.
          gw_bind (gw_res (build st (ac_identity_email (ge_config env)) to a)) (\<lambda>b.
          gw_bind (gw_try (send_mail env to b)) (\<lambda>_. gw_return ())))
      | _ \<Rightarrow> gw_return ())"

definition handle_peer_audit_request :: "'n gateway_env \<Rightarrow> antie_email \<Rightarrow> ('n, response_payload) gw" where
  "handle_peer_audit_request env email =
     gw_bind (gw_require ''Missing peer_audit_request'' (pl_peer_audit_request (em_payload email))) (\<lambda>request.
     gw_bind (track_lambda (CallPeerAudit request) (\<lambda>k. la_peer_audit (ge_lambda env) k request)) (\<lambda>result.
     let reply_to = peer_audit_reply_address (pa_requester_email result) (em_from email) in
     gw_bind (mail_audit_answer env (build_peer_audit_response_email (ge_mail env)) (pa_response result) reply_to) (\<lambda>_.
     gw_bind (mail_audit_answer env (build_peer_audit_not_held_email (ge_mail env)) (pa_not_held result) reply_to) (\<lambda>_.
     gw_return ((plain_reply (pa_success result) (em_request_id email))\<lparr>rp_error := pa_error result\<rparr>)))))"

definition handle_peer_audit_response :: "'n gateway_env \<Rightarrow> antie_email \<Rightarrow> ('n, response_payload) gw" where
  "handle_peer_audit_response env email =
     gw_bind
       (case pl_peer_audit_not_held (em_payload email) of
          Some not_held \<Rightarrow>
            gw_bind (gw_try (track_lambda (CallPeerNotHeld not_held) (\<lambda>k. la_tell (ge_lambda env) k (CallPeerNotHeld not_held))))
              (\<lambda>_. gw_return ())
        | None \<Rightarrow>
            gw_bind (gw_require ''Missing peer_audit_response'' (pl_peer_audit_response (em_payload email))) (\<lambda>response.
            gw_bind (gw_try (track_lambda (CallPeerResponse response) (\<lambda>k. la_tell (ge_lambda env) k (CallPeerResponse response))))
              (\<lambda>_. gw_return ())))
       (\<lambda>_. gw_return (plain_reply True (em_request_id email)))"

definition fanout_reason :: string where
  "fanout_reason = ''fan-out relay refused: ANTIE is a gateway, not a validator-to-validator channel (YP '' @
     byte_str [0xC2, 0xA7] @ ''28, KI#175) '' @ dash @ '' send fan-out as a wallet-carried transaction''"

definition handle_fanout_relay :: "'n gateway_env \<Rightarrow> antie_email \<Rightarrow> ('n, response_payload) gw" where
  "handle_fanout_relay env email =
     gw_bind (bump st_fanout_relay_refused_update) (\<lambda>_.
     gw_return (refusal env (em_request_id email) (Some fanout_reason) (Some ''FANOUT_RELAY_REFUSED'')
       ''E_ANTIE_INVALID_PAYLOAD'' ClientBug fanout_reason))"

end
