(* ===== verification/Witness.thy ===== *)
theory Witness
  imports Handlers
begin

text \<open>
  The witness request of \<open>antie/src/gateway.rs\<close>: the pre-filters, the CL2 check of Core, the call of Lambda and the
  deliveries to the receiver that follow it (cheque, certificate, consent notification, outgoing peer audit).
  Each stage is a definition; \<open>handle_witness_request\<close> composes them.
\<close>

section \<open>Decoding and pre-filters\<close>

definition decode_witness_request :: "'n gateway_env \<Rightarrow> antie_email \<Rightarrow> ('n, witness_request) gw" where
  "decode_witness_request env email =
     (let body = pl_raw_ump_body (em_payload email) in
      gw_bind (gw_res (map_err (\<lambda>e. InvalidPayload (''WitnessRequest CBOR decode failed: '' @ e @ '' (body_len='' @
        dec (length body) @ '')'')) (ge_decode_witness env body))) (\<lambda>req.
      let req1 = (if wr_request_id req = [] then req\<lparr>wr_request_id := em_request_id email\<rparr> else req);
          req2 = (if wr_requester_address req1 = [] then req1\<lparr>wr_requester_address := em_from email\<rparr> else req1) in
      gw_return req2))"

definition cooldown_ms :: "'n gateway_env \<Rightarrow> nat" where
  "cooldown_ms env = opt_or default_cooldown_ms (ac_wallet_witness_cooldown_ms (ge_config env))"

definition check_rate :: "'n gateway_env \<Rightarrow> witness_request \<Rightarrow> ('n, unit) gw" where
  "check_rate env req =
     (let wallet_id = tx_sender_wallet_id (wr_transaction req) in
      if wr_overlapped_signatures req \<noteq> [] \<or> wallet_id = [] then gw_return ()
      else
        gw_bind (gw_fresh (ge_clock env)) (\<lambda>now.
        gw_bind (gw_fresh (ge_clock env)) (\<lambda>later.
        gw_bind (\<lambda>g. case rate_gate (cooldown_ms env) now later wallet_id (gw_limiter g) of
                   (ok, l) \<Rightarrow> (Done ok, g\<lparr>gw_limiter := l\<rparr>)) (\<lambda>ok.
        if ok then gw_return ()
        else
          gw_bind (bump st_rate_limited_update) (\<lambda>_.
          gw_fail (RateLimited (''E_WALLET_RATE_LIMITED: wallet '' @ wallet_id @ '' '' @ dash @ '' retry after cooldown'')))))))"

text \<open>The ban file is read only for requests without overlap signatures.\<close>

definition check_ban :: "'n gateway_env \<Rightarrow> witness_request \<Rightarrow> ('n, unit) gw" where
  "check_ban env req =
     (if wr_overlapped_signatures req \<noteq> [] then gw_return ()
      else
        (let tx = wr_transaction req in
         gw_bind (case ac_nabla_ban_list_path (ge_config env) of
                    None \<Rightarrow> gw_return None
                  | Some path \<Rightarrow> gw_bind (gw_io (maildir_read_message path)) (\<lambda>c. gw_return (Some c))) (\<lambda>contents.
         gw_bind (\<lambda>g. case nabla_ban_file_lists contents
                        (nabla_ban_keys (ge_tier env) (ge_bucket env) (tx_client_pk tx) (tx_sender_wallet_id tx)) (gw_stats g) of
                    (banned, s) \<Rightarrow> (Done banned, g\<lparr>gw_stats := s\<rparr>)) (\<lambda>banned.
         if banned then
           gw_bind (bump st_ban_rejected_update) (\<lambda>_.
           gw_fail (WalletBanned (''E_WALLET_BANNED: wallet '' @ tx_sender_wallet_id tx @ '' is banned (YP '' @
             byte_str [0xC2, 0xA7] @ ''32)'')))
         else gw_return ()))))"

definition check_signature :: "'n gateway_env \<Rightarrow> witness_request \<Rightarrow> ('n, unit) gw" where
  "check_signature env req =
     (let tx = wr_transaction req in
      if wr_overlapped_signatures req = [] \<and> ge_sig_prefilter env \<and> tx_client_sig tx \<noteq> [] \<and> tx_client_pk tx \<noteq> [] \<and>
         \<not> ge_sig_ok env tx
      then
        gw_bind (bump st_parse_fail_update) (\<lambda>_.
        gw_fail (EmailParseError ''E_SIG_PREFILTER: client signature did not verify''))
      else gw_return ())"

section \<open>CL2\<close>

definition load_bundle :: "'n gateway_env \<Rightarrow> ('n, bytes option) gw" where
  "load_bundle env =
     (case vc_vbc_path (ac_validator (ge_config env)) of
        None \<Rightarrow> gw_return None
      | Some path \<Rightarrow>
          gw_bind (gw_io (maildir_read_message path)) (\<lambda>content.
          gw_return (load_vbc (\<lambda>_. content) (ge_decode_bundle env) (ge_bundle_ok env) (ac_validator (ge_config env)))))"

text \<open>What CL2 decides: the reply that refuses the request, or the request with the values Core computed; an
  interpreter that fails lets the request through without them.\<close>

definition cl2_refusal :: "'n gateway_env \<Rightarrow> string \<Rightarrow> cl2_verdict \<Rightarrow> response_payload" where
  "cl2_refusal env request_id v =
     (plain_reply False request_id)\<lparr>rp_error := cv_rejection_reason v,
        rp_rejection_code := Some ''CL2_VALIDATION_FAILED'',
        rp_error_response := (case cv_rejection v of
            Some er \<Rightarrow> Some (ge_with_id env request_id er)
          | None \<Rightarrow> antie_rejection env ''E_ANTIE_VALIDATION_FAILED'' ProtocolReject
              (opt_or ''CL2 rejected'' (cv_rejection_reason v)) request_id)\<rparr>"

definition with_cl2 :: "cl2_verdict option \<Rightarrow> witness_request \<Rightarrow> witness_request" where
  "with_cl2 v req = req\<lparr>wr_produced_state_id := Option.bind v cv_new_state_id,
     wr_commitment_hash := Option.bind v cv_commitment_hash\<rparr>"

definition check_cl2 :: "'n gateway_env \<Rightarrow> string \<Rightarrow> witness_request \<Rightarrow> ('n, response_payload + witness_request) gw" where
  "check_cl2 env request_id req =
     gw_bind (load_bundle env) (\<lambda>vbc_bundle.
     case validate_transaction_cl2 (ge_avm env) req vbc_bundle (map_option (ge_subject_pk env) vbc_bundle) of
       CoreExit c \<Rightarrow> gw_exit c
     | CoreReturn (Inl e) \<Rightarrow> gw_return (Inr (with_cl2 None req))
     | CoreReturn (Inr v) \<Rightarrow>
         gw_return (if cv_accepted v then Inr (with_cl2 (Some v) req) else Inl (cl2_refusal env request_id v)))"

section \<open>Deliveries\<close>

definition receiver_plan :: "'n gateway_env \<Rightarrow> transaction \<Rightarrow> ('n, delivery_plan \<times> string option) gw" where
  "receiver_plan env tx =
     (let plan = plan_receiver_delivery (ge_valid_wallet env) (tx_receiver_address tx) (tx_receiver_wallet_id tx)
                   (ac_pickup_dir (ge_config env) \<noteq> None) in
      case plan of
        PlanEmail e \<Rightarrow> gw_return (plan, Some e)
      | PlanDeposit domain inner \<Rightarrow> gw_return (plan, Some inner)
      | PlanRefuse reason \<Rightarrow> gw_bind (bump st_care_of_verify_rejects_update) (\<lambda>_. gw_return (plan, None)))"

definition encrypt_for :: "'n gateway_env \<Rightarrow> string \<Rightarrow> bytes \<Rightarrow> ('n, bytes \<times> bool) gw" where
  "encrypt_for env email plaintext =
     gw_bind (gw_fresh (ge_clock env)) (\<lambda>now.
     gw_bind (gw_fresh (ge_clock env)) (\<lambda>later.
     (\<lambda>g. case try_encrypt_for_email (ge_pgp env) (gw_tick g) now later email plaintext (gw_keys g) of
        (r, keys) \<Rightarrow> (Done r, g\<lparr>gw_keys := keys\<rparr>))))"

text \<open>A deposit at the pickup point, for a plan that asks for one; such a plan exists only with a pickup
  directory (\<open>plan_deposit_pickup\<close> below).  The result says whether the artifact is deposited.\<close>

definition deposit_artifact :: "'n gateway_env \<Rightarrow> delivery_plan \<Rightarrow> string \<Rightarrow> bytes \<Rightarrow> ('n, bool) gw" where
  "deposit_artifact env plan filename b =
     (case (plan, ac_pickup_dir (ge_config env)) of
        (PlanDeposit domain _, Some base) \<Rightarrow>
          gw_bind (gw_io (deposit_atomic base domain filename b)) (\<lambda>r.
          if is_ok r then gw_bind (bump st_care_of_deposits_update) (\<lambda>_. gw_return True) else gw_return False)
      | _ \<Rightarrow> gw_return False)"

definition count_default_delivery :: "delivery_plan \<Rightarrow> transaction \<Rightarrow> ('n, unit) gw" where
  "count_default_delivery plan tx =
     (case plan of
        PlanEmail _ \<Rightarrow>
          (if Option.bind (tx_receiver_address tx) parse_care_of \<noteq> None
           then bump st_care_of_default_deliveries_update else gw_return ())
      | _ \<Rightarrow> gw_return ())"

definition divert_skipped :: "string \<Rightarrow> string \<Rightarrow> bytes \<Rightarrow> ('n, bool) gw" where
  "divert_skipped receiver filename b =
     gw_bind (gw_get gw_skip) (\<lambda>skip.
     case skip of
       None \<Rightarrow> gw_return False
     | Some sl \<Rightarrow>
         (if skip_contains sl receiver then
            gw_bind (gw_io (write_skipped (sl_dir sl) filename b)) (\<lambda>r. gw_return (is_ok r))
          else gw_return False))"

text \<open>The note to Lambda's delivery log.\<close>

definition post_delivery_update :: "'n gateway_env \<Rightarrow> bytes \<Rightarrow> bool \<Rightarrow> ('n, unit) gw" where
  "post_delivery_update env txid encrypted =
     (case ge_admin_url env of
        None \<Rightarrow> gw_return ()
      | Some admin_url \<Rightarrow>
          (\<lambda>g. (Done (), g\<lparr>gw_trace := gw_trace g @ [Posted (admin_url @ ''/delivery-update'')
             (''{'' @ quoted ''txid'' @ '':'' @ quoted (hex_encode txid) @ '','' @ quoted ''encrypted'' @ '':'' @
              (if encrypted then ''true'' else ''false'') @ ''}'')]\<rparr>)))"

definition deliver_cheque_to ::
  "'n gateway_env \<Rightarrow> witness_request \<Rightarrow> artifact \<Rightarrow> delivery_plan \<Rightarrow> string \<Rightarrow> bytes \<Rightarrow> ('n, unit) gw" where
  "deliver_cheque_to env req cheque plan recv_email email_bytes =
     (let tx = wr_transaction req in
      gw_bind (encrypt_for env recv_email email_bytes) (\<lambda>(final_bytes, encrypted).
      gw_bind (deposit_artifact env plan (hex_encode (fst cheque) @ ''.cheque.eml'') final_bytes) (\<lambda>deposited.
      gw_bind (count_default_delivery plan tx) (\<lambda>_.
      gw_bind (if deposited then gw_return False
               else divert_skipped (tx_receiver_wallet_id tx) (hex_encode (fst cheque) @ ''.cheque'') final_bytes) (\<lambda>skipped.
      if deposited \<or> skipped then gw_return ()
      else
        gw_bind (gw_try (send_mail env recv_email final_bytes)) (\<lambda>r.
        if is_ok r then post_delivery_update env (fst cheque) encrypted else gw_return ()))))))"

definition cheque_email :: "'n gateway_env \<Rightarrow> mail_stamp \<Rightarrow> transaction \<Rightarrow> witness_reply \<Rightarrow> artifact \<Rightarrow> string \<Rightarrow> bytes res" where
  "cheque_email env st tx reply cheque recv_email =
     res_bind (map_err (\<lambda>e. InvalidPayload (''cheque send_origin: '' @ e)) (ge_origin env tx)) (\<lambda>send_origin.
     build_cheque_delivery_email (me_b64_encode (ge_mail env)) (ge_encode_cheque env) (ge_origin_matches env) fst st
       (ac_identity_email (ge_config env)) recv_email cheque (wp_sender_fact_chain reply) send_origin)"

definition deliver_cheque :: "'n gateway_env \<Rightarrow> witness_request \<Rightarrow> witness_reply \<Rightarrow> ('n, unit) gw" where
  "deliver_cheque env req reply =
     (case wp_cheque reply of
        None \<Rightarrow> gw_return ()
      | Some cheque \<Rightarrow>
          (if tx_receiver_wallet_id (wr_transaction req) = ge_burn_address env then gw_return ()
           else
             gw_bind (receiver_plan env (wr_transaction req)) (\<lambda>(plan, receiver_email).
             case receiver_email of
               None \<Rightarrow> gw_return ()
             | Some recv_email \<Rightarrow>
                 gw_bind (gw_fresh (ge_stamp env)) (\<lambda>st.
                 case cheque_email env st (wr_transaction req) reply cheque recv_email of
                   Inl e \<Rightarrow> gw_return ()
                 | Inr email_bytes \<Rightarrow> deliver_cheque_to env req cheque plan recv_email email_bytes))))"

definition deliver_certificate :: "'n gateway_env \<Rightarrow> witness_request \<Rightarrow> witness_reply \<Rightarrow> ('n, unit) gw" where
  "deliver_certificate env req reply =
     (case wp_vbc_signature reply of
        None \<Rightarrow> gw_return ()
      | Some signature \<Rightarrow>
          (let to = before_slash (tx_sender_wallet_id (wr_transaction req)) in
           if \<not> contains_str ''@'' to then gw_return ()
           else
             gw_bind (gw_fresh (ge_stamp env)) (\<lambda>st.
             case build_vbc_delivery_email (ge_mail env) st (ac_identity_email (ge_config env)) to signature of
               Inl e \<Rightarrow> gw_return ()
             | Inr b \<Rightarrow>
                 gw_bind (encrypt_for env to b) (\<lambda>(final_bytes, encrypted).
                 gw_bind (gw_try (send_mail env to final_bytes)) (\<lambda>_. gw_return ())))))"

definition deliver_scar_consent :: "'n gateway_env \<Rightarrow> witness_request \<Rightarrow> witness_reply \<Rightarrow> ('n, unit) gw" where
  "deliver_scar_consent env req reply =
     (case wp_scar_consent reply of
        None \<Rightarrow> gw_return ()
      | Some scar \<Rightarrow>
          gw_bind (receiver_plan env (wr_transaction req)) (\<lambda>(plan, receiver_email).
          case receiver_email of
            None \<Rightarrow> gw_return ()
          | Some recv_email \<Rightarrow>
              gw_bind (gw_fresh (ge_stamp env)) (\<lambda>st.
              case build_scar_consent_email (me_b64_encode (ge_mail env)) (ge_encode_scar env) st
                     (ac_identity_email (ge_config env)) recv_email scar of
                Inl e \<Rightarrow> gw_return ()
              | Inr email_bytes \<Rightarrow>
                  gw_bind (encrypt_for env recv_email email_bytes) (\<lambda>(final_bytes, encrypted).
                  gw_bind (deposit_artifact env plan (hex_encode (fst scar) @ ''.scar_consent.eml'') final_bytes) (\<lambda>deposited.
                  if deposited then gw_return ()
                  else gw_bind (gw_try (send_mail env recv_email final_bytes)) (\<lambda>_. gw_return ()))))))"

definition send_outbound_audit :: "'n gateway_env \<Rightarrow> witness_reply \<Rightarrow> ('n, unit) gw" where
  "send_outbound_audit env reply =
     (case wp_outbound_peer_audit reply of
        None \<Rightarrow> gw_return ()
      | Some (target, request) \<Rightarrow>
          gw_bind (gw_fresh (ge_stamp env)) (\<lambda>st.
          case build_peer_audit_request_email (ge_mail env) st (ac_identity_email (ge_config env)) target request of
            Inl e \<Rightarrow> gw_return ()
          | Inr b \<Rightarrow>
              gw_bind (gw_try (send_mail env target b)) (\<lambda>r.
              case r of
                Inr _ \<Rightarrow> gw_return ()
              | Inl e \<Rightarrow>
                  (let call = CallDispatchFailed target (display_error e) in
                   gw_bind (gw_try (call_lambda call (\<lambda>k. la_tell (ge_lambda env) k call))) (\<lambda>_. gw_return ())))))"

section \<open>The handler\<close>

definition handle_witness_request :: "'n gateway_env \<Rightarrow> antie_email \<Rightarrow> ('n, response_payload) gw" where
  "handle_witness_request env email =
     gw_bind (decode_witness_request env email) (\<lambda>req.
     gw_bind (check_rate env req) (\<lambda>_.
     gw_bind (check_ban env req) (\<lambda>_.
     gw_bind (check_signature env req) (\<lambda>_.
     gw_bind (check_cl2 env (em_request_id email) req) (\<lambda>v.
     case v of
       Inl refused \<Rightarrow> gw_return refused
     | Inr lambda_request \<Rightarrow>
         gw_bind (track_lambda (CallWitness lambda_request) (\<lambda>k. la_witness (ge_lambda env) k lambda_request)) (\<lambda>reply.
         gw_bind (deliver_cheque env lambda_request reply) (\<lambda>_.
         gw_bind (deliver_certificate env lambda_request reply) (\<lambda>_.
         gw_bind (deliver_scar_consent env lambda_request reply) (\<lambda>_.
         gw_bind (send_outbound_audit env reply) (\<lambda>_.
         gw_return (ge_sender_leg env reply)))))))))))"

lemma plan_deposit_pickup:
  "plan_receiver_delivery valid a w supported = PlanDeposit domain inner \<Longrightarrow> supported"
  by (auto simp: plan_receiver_delivery_def Let_def split: option.splits if_splits)

end
