(* ===== verification/Dispatch.thy ===== *)
theory Dispatch
  imports Witness
begin

text \<open>
  The dispatch of \<open>antie/src/gateway.rs\<close>: what happens to one incoming mail (\<open>process_message\<close>), the busy refusal, and
  the pass over the inbox that refuses, processes and marks each message.
\<close>

section \<open>Certificate mail\<close>

definition stake_dirs :: "string list option \<Rightarrow> string list" where
  "stake_dirs entries = (case entries of None \<Rightarrow> [] | Some ns \<Rightarrow> filter (\<lambda>n. utf8_valid n \<and> ends_with ''_Stake'' n) ns)"

definition file_vbc_delivery :: "'n gateway_env \<Rightarrow> bytes \<Rightarrow> string \<Rightarrow> ('n, unit) gw" where
  "file_vbc_delivery env raw signature =
     (case cc_maildir (ac_carriers (ge_config env)) of
        None \<Rightarrow> gw_return ()
      | Some md \<Rightarrow>
          (let vdir = (case Option.bind (path_parent (mc_inbox md)) path_parent of Some p \<Rightarrow> p | None \<Rightarrow> mc_inbox md) in
           gw_bind (gw_fresh (\<lambda>k. ge_entries env k (path_join vdir ''wallets''))) (\<lambda>entries.
           gw_bind (gw_fresh (ge_unix env)) (\<lambda>now.
           let dest_dir = (case stake_dirs entries of
                  [d] \<Rightarrow> path_join (path_join (path_join vdir ''wallets'') d) ''maildir/inbox/new''
                | _ \<Rightarrow> path_join vdir ''maildir/vbc/new'');
               path = path_join dest_dir (dec now @ ''.vbc-'' @ hex_encode (take 8 (ge_vbc_signer env signature)) @ ''.eml'') in
           gw_bind (gw_io (io_bind (create_dir_all dest_dir) (\<lambda>_. fs_write path raw))) (\<lambda>_. gw_return ())))))"

section \<open>One message\<close>

definition max_message_bytes :: nat where
  "max_message_bytes = 8 * 1024 * 1024"

definition unknown_type_reply :: "'n gateway_env \<Rightarrow> antie_email \<Rightarrow> response_payload" where
  "unknown_type_reply env email =
     (let m = ''Unknown message type: '' @ em_message_type email in
      refusal env (em_request_id email) (Some m) (Some ''UNKNOWN_TYPE'') ''E_ANTIE_UNKNOWN_MESSAGE_TYPE'' ClientBug m)"

definition handle_by_type :: "'n gateway_env \<Rightarrow> antie_email \<Rightarrow> ('n, response_payload) gw" where
  "handle_by_type env email =
     (let t = em_message_type email in
      if t = ''witness'' then handle_witness_request env email
      else if t = ''redeem'' then handle_redeem_request env email
      else if t = ''ack'' then handle_ack_request env email
      else if t = ''query'' then handle_query env email
      else if t = ''validator_status'' then handle_validator_status env email
      else if t = ''init_genesis_dev'' then handle_genesis_dev env email
      else if t = ''vbc_sign_request'' then handle_vbc_sign_request env email
      else if t = ''vbc_sign_commit'' then handle_vbc_sign_commit env email
      else if t = ''set_auth_hash'' then handle_set_auth_hash env email
      else if t = ''peer_audit_request'' then handle_peer_audit_request env email
      else if t = ''peer_audit_response'' then handle_peer_audit_response env email
      else if t = ''fanout_relay'' then handle_fanout_relay env email
      else gw_return (unknown_type_reply env email))"

text \<open>The reply to a handler's error: the verdict of Lambda as it came, any other error in its structured form.\<close>

definition error_reply :: "'n gateway_env \<Rightarrow> string \<Rightarrow> antie_error \<Rightarrow> response_payload" where
  "error_reply env request_id e =
     (let typed = (case e of LambdaRejected er \<Rightarrow> Some er | _ \<Rightarrow> None) in
      (plain_reply False request_id)\<lparr>
        rp_error := Some (display_error e),
        rp_rejection_code := Some (case typed of Some er \<Rightarrow> er_code er | None \<Rightarrow> ''INTERNAL_ERROR''),
        rp_error_response := (case typed of Some er \<Rightarrow> Some er
          | None \<Rightarrow> Some (ge_with_id env request_id (error_response_of e)))\<rparr>)"

definition answer_email :: "'n gateway_env \<Rightarrow> antie_email \<Rightarrow> ('n, unit) gw" where
  "answer_email env email =
     gw_bind (gw_try (handle_by_type env email)) (\<lambda>response.
     if answers_out_of_band (em_message_type email) then gw_return ()
     else send_response env email
       (case response of Inr payload \<Rightarrow> payload | Inl e \<Rightarrow> error_reply env (em_request_id email) e))"

definition process_message :: "'n gateway_env \<Rightarrow> incoming_message \<Rightarrow> ('n, unit) gw" where
  "process_message env msg =
     (if max_message_bytes < length (inc_raw msg) then bump st_oversize_dropped_update
      else case try_parse_vbc_delivery (ge_mail env) (inc_raw msg) of
          Some signature \<Rightarrow> file_vbc_delivery env (inc_raw msg) signature
        | None \<Rightarrow>
            (case parse_email_outcome (ge_mail env) (inc_raw msg) (ge_decryptor env) of
               Inl e \<Rightarrow> bump st_parse_fail_update
             | Inr PDecryptFailed \<Rightarrow> bump st_decrypt_fail_update
             | Inr (POk email) \<Rightarrow> answer_email env email))"

section \<open>Busy\<close>

definition busy_reply :: "'n gateway_env \<Rightarrow> nat \<Rightarrow> string \<Rightarrow> response_payload" where
  "busy_reply env avg_ms request_id =
     refusal env request_id
       (Some (''E_VALIDATOR_BUSY: estimated wait exceeds threshold (avg_witness_ms='' @ dec avg_ms @ '')''))
       (Some ''E_VALIDATOR_BUSY'') ''E_ANTIE_VALIDATOR_BUSY'' Operational
       (''validator busy: estimated wait exceeds threshold (avg_witness_ms='' @ dec avg_ms @ '')'')"

definition send_busy_rejection :: "'n gateway_env \<Rightarrow> incoming_message \<Rightarrow> ('n, unit) gw" where
  "send_busy_rejection env msg =
     (case parse_email (ge_mail env) (inc_raw msg) of
        Inl _ \<Rightarrow> gw_return ()
      | Inr email \<Rightarrow>
          gw_bind (gw_get (\<lambda>g. st_avg_witness_ms (gw_stats g))) (\<lambda>avg_ms.
          send_response env email (busy_reply env avg_ms (em_request_id email))))"

section \<open>A pass over the inbox\<close>

text \<open>The carrier acts on the gateway's own file system; \<open>on_world\<close> lifts it to the gateway's state.\<close>

definition on_world :: "world mail_carrier \<Rightarrow> 'n gateway mail_carrier" where
  "on_world mc = \<lparr>mk_name = mk_name mc,
     mk_check_new = (\<lambda>g. case mk_check_new mc (gw_world g) of (r, w) \<Rightarrow> (r, g\<lparr>gw_world := w\<rparr>)),
     mk_mark_processed = (\<lambda>i g. case mk_mark_processed mc i (gw_world g) of (r, w) \<Rightarrow> (r, g\<lparr>gw_world := w\<rparr>)),
     mk_mark_failed = (\<lambda>i reason g. case mk_mark_failed mc i reason (gw_world g) of (r, w) \<Rightarrow> (r, g\<lparr>gw_world := w\<rparr>)),
     mk_send = (\<lambda>to b g. case mk_send mc to b (gw_world g) of (r, w) \<Rightarrow> (r, g\<lparr>gw_world := w\<rparr>))\<rparr>"

definition beat_gateway :: "'n gateway_env \<Rightarrow> nat option \<Rightarrow> ('n, unit) gw" where
  "beat_gateway env hb =
     (case hb of
        None \<Rightarrow> gw_return ()
      | Some h \<Rightarrow> gw_bind (gw_fresh (ge_clock env)) (\<lambda>now g. (Done (), g\<lparr>gw_stats := beat (gw_stats g) (now div 1000) h\<rparr>)))"

definition mark_gateway :: "('n gateway \<Rightarrow> unit res \<times> 'n gateway) \<Rightarrow> ('n, unit) gw" where
  "mark_gateway f g = (Done (), snd (f g))"

text \<open>One message with \<open>queue_depth\<close> messages behind it: refused, or processed and counted, and marked.\<close>

definition dispatch_one ::
  "'n gateway_env \<Rightarrow> nat option \<Rightarrow> 'n gateway mail_carrier \<Rightarrow> nat \<Rightarrow> incoming_message \<Rightarrow> ('n, unit) gw" where
  "dispatch_one env hb mc queue_depth msg =
     gw_bind (beat_gateway env hb) (\<lambda>_.
     gw_bind (bump st_messages_received_update) (\<lambda>_.
     gw_bind (gw_get (\<lambda>g. should_reject_busy (pf_busy_threshold_ms (ac_performance (ge_config env))) (gw_stats g) queue_depth)) (\<lambda>busy.
     if busy then
       gw_bind (gw_try (send_busy_rejection env msg)) (\<lambda>_.
       gw_bind (bump st_busy_rejections_update) (\<lambda>_.
       mark_gateway (mk_mark_processed mc (inc_id msg))))
     else
       gw_bind (gw_try (process_message env msg)) (\<lambda>r.
       case r of
         Inl e \<Rightarrow> gw_bind (bump st_messages_failed_update) (\<lambda>_. mark_gateway (mk_mark_failed mc (inc_id msg) (display_error e)))
       | Inr _ \<Rightarrow> gw_bind (bump st_messages_processed_update) (\<lambda>_. mark_gateway (mk_mark_processed mc (inc_id msg)))))))"

fun dispatch_all ::
  "'n gateway_env \<Rightarrow> nat option \<Rightarrow> 'n gateway mail_carrier \<Rightarrow> incoming_message list \<Rightarrow> ('n, unit) gw" where
  "dispatch_all env hb mc [] = gw_return ()"
| "dispatch_all env hb mc (m # ms) =
     gw_bind (dispatch_one env hb mc (length ms) m) (\<lambda>_. dispatch_all env hb mc ms)"

definition process_carrier_messages ::
  "'n gateway_env \<Rightarrow> nat option \<Rightarrow> 'n gateway mail_carrier \<Rightarrow> ('n, unit) gw" where
  "process_carrier_messages env hb mc g =
     (case mk_check_new mc g of
        (Inl e, g') \<Rightarrow> (Done (), g')
      | (Inr ms, g') \<Rightarrow>
          gw_bind
            (if ms = [] then gw_return ()
             else gw_bind (gw_fresh (ge_unix env)) (\<lambda>now g. (Done (), g\<lparr>gw_stats := note_inbox_write now (gw_stats g)\<rparr>)))
            (\<lambda>_. dispatch_all env hb mc ms) g')"

section \<open>The dispatch loop\<close>

text \<open>What the watcher gives within half a second: an event, a closed channel, or nothing.\<close>

datatype watch = Event | Closed | Quiet

definition dispatch_max_silence_secs :: nat where
  "dispatch_max_silence_secs = 600"

fun maildir_loop ::
  "'n gateway_env \<Rightarrow> nat option \<Rightarrow> 'n gateway mail_carrier \<Rightarrow> (bool \<times> watch) list \<Rightarrow> ('n, unit) gw" where
  "maildir_loop env hb mc [] = gw_return ()"
| "maildir_loop env hb mc ((running, w) # rounds) =
     (if \<not> running then gw_return ()
      else
        gw_bind (beat_gateway env hb) (\<lambda>_.
        if w = Closed then gw_return ()
        else
          gw_bind (process_carrier_messages env hb mc) (\<lambda>_.
          gw_bind (process_carrier_messages env hb mc) (\<lambda>_.
          maildir_loop env hb mc rounds))))"

text \<open>The carrier's names may differ in every pass over the directory; \<open>carrier\<close> is opened on both directories first.\<close>

definition run_maildir_carrier ::
  "'n gateway_env \<Rightarrow> maildir_config \<Rightarrow> 'n gateway mail_carrier \<Rightarrow> (bool \<times> watch) list \<Rightarrow> ('n, unit) gw" where
  "run_maildir_carrier env md mc rounds =
     gw_bind (gw_io (maildir_new (mc_inbox md) (mc_outbox md))) (\<lambda>opened.
     gw_bind (gw_res (map_err (\<lambda>e. IoError e) opened)) (\<lambda>_.
     gw_bind (gw_fresh (ge_clock env)) (\<lambda>now.
     gw_bind (\<lambda>g. case register_heartbeat (gw_stats g) (now div 1000) ''dispatch'' dispatch_max_silence_secs of
                (h, s) \<Rightarrow> (Done h, g\<lparr>gw_stats := s\<rparr>)) (\<lambda>h.
     gw_bind (process_carrier_messages env (Some h) mc) (\<lambda>_.
     maildir_loop env (Some h) mc rounds)))))"

end
