(* ===== verification/Funnel.thy ===== *)
theory Funnel
  imports MailCarrier CareOf Stats Email
begin

text \<open>
  The inbound funnel of \<open>antie/src/gateway.rs\<close>: the pull loops of the IMAP and POP3 accounts, which stage
  each fetched message in \<open>inbox/new/\<close> and then delete it on the server, their backoff and the sleep that
  keeps the heartbeat fresh.  A loop is a function over the successive readings of the running flag.
\<close>

section \<open>Clocks and state\<close>

text \<open>What the run reads from its surroundings: the wall clock as a function of the monotonic one, the stamp of
  a new file name (clock, process id, UUID), for the k-th wait or step how much longer than asked it took, and for one that is an
  IDLE wait how its turns went.
  Monotonic times are in milliseconds.\<close>

record clocks =
  cl_unix :: "nat \<Rightarrow> nat"
  cl_stamp :: "nat \<Rightarrow> nat \<times> nat \<times> string"
  cl_late :: "nat \<Rightarrow> nat"
  cl_idle :: "nat \<Rightarrow> idle_clock"

record funnel =
  fn_world :: world
  fn_stats :: antie_stats
  fn_now :: nat
  fn_ops :: nat

text \<open>A step of unknown length has passed.\<close>

definition pass_time :: "clocks \<Rightarrow> nat \<Rightarrow> funnel \<Rightarrow> funnel" where
  "pass_time cl asked g = g\<lparr>fn_now := fn_now g + asked + cl_late cl (fn_ops g), fn_ops := fn_ops g + 1\<rparr>"

definition beat_now :: "nat \<Rightarrow> funnel \<Rightarrow> funnel" where
  "beat_now hb g = g\<lparr>fn_stats := beat (fn_stats g) (fn_now g div 1000) hb\<rparr>"

section \<open>Waiting\<close>

definition beat_slice_ms :: nat where
  "beat_slice_ms = 60 * 1000"

text \<open>\<open>rest\<close> is what is left until the end; the result lists the moments of the beats, last first.\<close>

function sleep_beating :: "clocks \<Rightarrow> nat \<Rightarrow> nat \<Rightarrow> nat list \<times> funnel \<Rightarrow> nat list \<times> funnel" where
  "sleep_beating cl hb rest (beats, g) =
     (let g1 = beat_now hb g; beats1 = fn_now g # beats in
      if rest = 0 then (beats1, g1)
      else (let g2 = pass_time cl (min rest beat_slice_ms) g1 in
            sleep_beating cl hb (rest - (fn_now g2 - fn_now g1)) (beats1, g2)))"
  by pat_completeness auto
termination
  by (relation "measure (\<lambda>(cl, hb, rest, s). rest)") (auto simp: pass_time_def beat_slice_ms_def beat_now_def)

declare sleep_beating.simps [simp del]

definition carrier_backoff_max :: nat where
  "carrier_backoff_max = 30 * 60 * 1000"

text \<open>A \<open>Duration\<close> counts its seconds in 64 bits; \<open>checked_mul\<close> fails beyond.\<close>

definition checked_mul_ms :: "nat \<Rightarrow> nat \<Rightarrow> nat option" where
  "checked_mul_ms d n = (if d * n div 1000 < 2 ^ 64 then Some (d * n) else None)"

definition carrier_backoff :: "nat \<Rightarrow> nat \<Rightarrow> nat" where
  "carrier_backoff base failures =
     (if failures = 0 then base
      else min (case checked_mul_ms base (2 ^ min failures 16) of Some d \<Rightarrow> d | None \<Rightarrow> carrier_backoff_max)
             carrier_backoff_max)"

text \<open>Which of the two log levels a failure is reported at: \<open>True\<close> is the error.\<close>

definition failure_is_alarm :: "nat \<Rightarrow> nat \<Rightarrow> bool" where
  "failure_is_alarm wait failures =
     (let at_cap = carrier_backoff_max \<le> wait;
          prev = (if 1 < failures then carrier_backoff 1 (failures - 1) else 0) in
      at_cap \<and> prev < carrier_backoff_max)"

section \<open>Fetch, stage, delete\<close>

text \<open>One fetched message: low-entropy mail is dropped, other mail is written into the inbox.  The answer says how
  the message is marked on the server: \<open>None\<close> as processed, \<open>Some\<close> as failed with the reason.\<close>

definition dropped :: "real option \<Rightarrow> incoming_message \<Rightarrow> bool" where
  "dropped thr m = (case thr of Some t \<Rightarrow> body_entropy_bits (inc_raw m) < t | None \<Rightarrow> False)"

definition stage_one ::
  "clocks \<Rightarrow> nat \<Rightarrow> string \<Rightarrow> real option \<Rightarrow> nat \<Rightarrow> incoming_message \<Rightarrow> funnel \<Rightarrow> string option \<times> funnel" where
  "stage_one cl hb inbox thr k m g =
     (let g1 = beat_now hb g in
      if dropped thr m then (None, g1)
      else
        (case cl_stamp cl (fn_ops g1) of (ts, pid, u) \<Rightarrow>
          (case via_io (maildir_write_message inbox ts pid u (inc_raw m)) (fn_world g1) of
             (Inr _, w) \<Rightarrow>
               (let g2 = pass_time cl 0 (g1\<lparr>fn_world := w\<rparr>) in
                (None, g2\<lparr>fn_stats := note_inbox_write (cl_unix cl (fn_now g2)) (fn_stats g2)\<rparr>))
           | (Inl e, w) \<Rightarrow> (Some (display_error e), pass_time cl 0 (g1\<lparr>fn_world := w\<rparr>)))))"

definition deliver_carrier_messages ::
  "clocks \<Rightarrow> nat \<Rightarrow> string \<Rightarrow> real option \<Rightarrow> 'c mail_carrier \<Rightarrow> 'c \<times> funnel \<Rightarrow> bool \<times> 'c \<times> funnel" where
  "deliver_carrier_messages cl hb inbox thr mc cg =
     (case mk_check_new mc (fst cg) of
        (Inr ms, c) \<Rightarrow> (True, work_through mc (stage_one cl hb inbox thr) 0 ms (c, pass_time cl 0 (snd cg)))
      | (Inl e, c) \<Rightarrow> (False, c, pass_time cl 0 (snd cg)))"

text \<open>The streak of failures and the gauges that follow it.\<close>

definition note_attempt :: "bool \<Rightarrow> nat \<Rightarrow> funnel \<Rightarrow> nat \<times> funnel" where
  "note_attempt reached failures g =
     (case note_carrier_attempt (fn_stats g) failures reached of (f, s) \<Rightarrow> (f, g\<lparr>fn_stats := s\<rparr>))"

fun pull_loop ::
  "clocks \<Rightarrow> nat \<Rightarrow> string \<Rightarrow> real option \<Rightarrow> nat \<Rightarrow> 'c mail_carrier \<Rightarrow> bool list \<Rightarrow> nat \<Rightarrow> 'c \<times> funnel \<Rightarrow>
   nat \<times> 'c \<times> funnel" where
  "pull_loop cl hb inbox thr poll mc [] failures cg = (failures, cg)"
| "pull_loop cl hb inbox thr poll mc (running # readings) failures (c, g) =
     (if \<not> running then (failures, c, g)
      else
        (let (reached, c1, g1) = deliver_carrier_messages cl hb inbox thr mc (c, beat_now hb g);
             (failures1, g2) = note_attempt reached failures g1;
             (_, g3) = sleep_beating cl hb (carrier_backoff poll failures1) ([], g2) in
         pull_loop cl hb inbox thr poll mc readings failures1 (c1, g3)))"

definition run_polling_loop ::
  "clocks \<Rightarrow> antie_config \<Rightarrow> nat \<Rightarrow> real option \<Rightarrow> 'c mail_carrier \<Rightarrow> bool list \<Rightarrow> 'c \<times> funnel \<Rightarrow>
   unit res \<times> 'c \<times> funnel" where
  "run_polling_loop cl cfg hb thr mc readings cg =
     (case cc_maildir (ac_carriers cfg) of
        None \<Rightarrow> (Inl (ConfigError (mk_name mc @ '' carrier requires [carriers.maildir] as the delivery target '' @
          dash @ '' pop3/imap fetch into inbox/new/, they do not dispatch directly'')), cg)
      | Some md \<Rightarrow>
          (case via_io (maildir_open (mc_inbox md)) (fn_world (snd cg)) of
             (Inl e, w) \<Rightarrow> (Inl e, fst cg, (snd cg)\<lparr>fn_world := w\<rparr>)
           | (Inr _, w) \<Rightarrow>
               (Inr (), snd (pull_loop cl hb (mc_inbox md) thr (ac_poll_interval_ms cfg) mc readings 0
                 (fst cg, (snd cg)\<lparr>fn_world := w\<rparr>)))))"

definition pull_max_silence_secs :: nat where
  "pull_max_silence_secs = 900"

definition start_heartbeat :: "string \<Rightarrow> nat \<Rightarrow> funnel \<Rightarrow> nat \<times> funnel" where
  "start_heartbeat name silence g =
     (case register_heartbeat (fn_stats g) (fn_now g div 1000) name silence of (hb, s) \<Rightarrow> (hb, g\<lparr>fn_stats := s\<rparr>))"

definition run_pop3_carrier ::
  "clocks \<Rightarrow> 's server \<Rightarrow> antie_config \<Rightarrow> pop3_config \<Rightarrow> nat \<Rightarrow> bool list \<Rightarrow> 's link \<times> funnel \<Rightarrow>
   unit res \<times> 's link \<times> funnel" where
  "run_pop3_carrier cl sv cfg pc idx readings cg =
     (let (hb, g) = start_heartbeat (''pop3#'' @ dec idx @ ''('' @ pp_username pc @ ''@'' @ pp_server pc @ '')'')
                      pull_max_silence_secs (snd cg) in
      run_polling_loop cl cfg hb (pp_spam_entropy_threshold pc) (pop3_mail_carrier sv (pop3_carrier_of pc)) readings (fst cg, g))"

section \<open>IMAP: idle first, polling as the declared fallback\<close>

definition idle_recycle :: nat where
  "idle_recycle = 25 * 60 * 1000"

text \<open>The beats of a wait, at their moments after its start, the log-in before it taking no time of its own; the last one comes first.\<close>

definition beats_during :: "nat \<Rightarrow> nat list \<Rightarrow> funnel \<Rightarrow> funnel" where
  "beats_during hb beats g = foldr (\<lambda>b g. g\<lparr>fn_stats := beat (fn_stats g) ((fn_now g + b) div 1000) hb\<rparr>) beats g"

text \<open>One pass of the idle loop: \<open>None\<close> when the loop goes on, \<open>Some\<close> when it falls back to polling.\<close>

definition imap_pass ::
  "clocks \<Rightarrow> 's server \<Rightarrow> imap_carrier \<Rightarrow> nat \<Rightarrow> string \<Rightarrow> nat \<Rightarrow> nat \<Rightarrow> 's link \<times> funnel \<Rightarrow>
   bool \<times> nat \<times> 's link \<times> funnel" where
  "imap_pass cl sv ic hb inbox retry failures cg =
     (let (fetched, l, g) = deliver_carrier_messages cl hb inbox None (imap_mail_carrier sv ic) (fst cg, beat_now hb (snd cg));
          ((r, beats, took), l1) = idle_wait sv ic (cl_idle cl (fn_ops g)) idle_recycle l;
          g1 = pass_time cl took (beats_during hb beats (beat_now hb g)) in
      case r of
        Inr _ \<Rightarrow> (let (f1, g2) = note_attempt True failures g1 in (False, f1, l1, g2))
      | Inl e \<Rightarrow>
          (if contains_str ''IdleNotSupported'' (display_error e) then (True, failures, l1, g1)
           else
             (let (f1, g2) = (if fetched then note_attempt True failures g1 else (failures, g1));
                  (f2, g3) = note_attempt False f1 g2;
                  (_, g4) = sleep_beating cl hb (carrier_backoff retry f2) ([], g3) in
              (False, f2, l1, g4))))"

fun imap_loop ::
  "clocks \<Rightarrow> 's server \<Rightarrow> antie_config \<Rightarrow> imap_carrier \<Rightarrow> nat \<Rightarrow> string \<Rightarrow> bool list \<Rightarrow> nat \<Rightarrow> 's link \<times> funnel \<Rightarrow>
   unit res \<times> 's link \<times> funnel" where
  "imap_loop cl sv cfg ic hb inbox [] failures cg = (Inr (), cg)"
| "imap_loop cl sv cfg ic hb inbox (running # readings) failures cg =
     (if \<not> running then (Inr (), cg)
      else
        (let (fallback, f, cg1) = imap_pass cl sv ic hb inbox (ac_poll_interval_ms cfg) failures cg in
         if fallback then run_polling_loop cl cfg hb None (imap_mail_carrier sv ic) readings cg1
         else imap_loop cl sv cfg ic hb inbox readings f cg1))"

definition run_imap_carrier ::
  "clocks \<Rightarrow> 's server \<Rightarrow> antie_config \<Rightarrow> imap_config \<Rightarrow> nat \<Rightarrow> bool list \<Rightarrow> 's link \<times> funnel \<Rightarrow>
   unit res \<times> 's link \<times> funnel" where
  "run_imap_carrier cl sv cfg im idx readings cg =
     (let ic = imap_carrier_of im;
          (hb, g) = start_heartbeat (''imap#'' @ dec idx @ ''('' @ im_username im @ ''@'' @ im_server im @ '')'')
                      pull_max_silence_secs (snd cg) in
      if \<not> im_use_idle im then run_polling_loop cl cfg hb None (imap_mail_carrier sv ic) readings (fst cg, g)
      else case cc_maildir (ac_carriers cfg) of
          None \<Rightarrow> (Inl (ConfigError ''imap carrier requires [carriers.maildir] as the delivery target''), fst cg, g)
        | Some md \<Rightarrow>
            (case via_io (maildir_open (mc_inbox md)) (fn_world g) of
               (Inl e, w) \<Rightarrow> (Inl e, fst cg, g\<lparr>fn_world := w\<rparr>)
             | (Inr _, w) \<Rightarrow> imap_loop cl sv cfg ic hb (mc_inbox md) readings 0 (fst cg, g\<lparr>fn_world := w\<rparr>)))"

section \<open>Lemmas\<close>

text \<open>Twenty lines, one every fifty seconds: no beat in a thousand seconds, though the account is called stalled after nine hundred.\<close>

lemma idle_noise_silent:
  "\<exists>t rdr. idle_loop \<lparr>ic_wait = \<lambda>k. 50000, ic_late = \<lambda>k. 0\<rparr> idle_recycle 0 0 []
      ([], fresh_link\<lparr>lk_in := [Data (concat (replicate 20 (''* 1 EXPUNGE'' @ [CHR 0x0A])))]\<rparr>) =
    (Inl (ConfigError ''IMAP: server closed the idle connection''), [], t, rdr) \<and> 1000 * pull_max_silence_secs < t \<and> t < idle_recycle"
proof -
  let ?clk = "\<lparr>ic_wait = \<lambda>k. 50000, ic_late = \<lambda>k. 0\<rparr>" and ?line = "''* 1 EXPUNGE'' @ [CHR 0x0A]"
  let ?l = "fresh_link\<lparr>lk_in := [Data (concat (replicate 20 ?line))]\<rparr>"
  have "trim ?line = ''* 1 EXPUNGE''" "utf8_valid ?line" by code_simp+
  then have "idle_noise ?line" unfolding idle_noise_def by (intro exI [of _ "''* 1 EXPUNGE''"]) (simp add: ends_with_def)
  then have noise: "list_all idle_noise (replicate 20 ?line)" by (simp add: list_all_iff)
  have "holds (concat (replicate 20 ?line) @ []) [] ([], ?l)" by (simp add: holds_def numeral_eq_Suc)
  from idle_lines [OF this noise, of ?clk idle_recycle 0 0 "[]"] obtain rdr where
    run: "idle_loop ?clk idle_recycle 0 0 [] ([], ?l) = idle_loop ?clk idle_recycle 20 (lines_took ?clk 0 20) [] rdr"
    and h: "holds [] [] rdr" by auto
  have "lines_took ?clk 0 20 = 1000000" by (simp add: lines_took_def sum_list_triv map_replicate_const sum_list_replicate)
  moreover have "idle_fill rdr = (Inl HitEof, ([], (snd rdr)\<lparr>lk_in := []\<rparr>))"
    using h by (auto simp: holds_def idle_fill_def dest: solid_nothing)
  ultimately show ?thesis
    using run by (simp add: idle_loop.simps [of ?clk _ 20] idle_recycle_def pull_max_silence_secs_def)
qed

definition stamp_name :: "clocks \<Rightarrow> nat \<Rightarrow> string" where
  "stamp_name cl k = (case cl_stamp cl k of (ts, pid, u) \<Rightarrow> maildir_filename ts pid u)"

text \<open>The operating system never hands out a file name twice, and every name is one component.\<close>

definition fresh_names :: "clocks \<Rightarrow> bool" where
  "fresh_names cl = (inj (stamp_name cl) \<and> (\<forall>k. plain_name (stamp_name cl k)))"

lemma funnel_simps [simp]:
  "fn_world (beat_now hb g) = fn_world g" "fn_ops (beat_now hb g) = fn_ops g" "fn_now (beat_now hb g) = fn_now g"
  "fn_world (pass_time cl n g) = fn_world g" "fn_ops (pass_time cl n g) = fn_ops g + 1"
  by (simp_all add: beat_now_def pass_time_def)

lemma tmp_new_names:
  assumes "plain_name a" "plain_name b"
  shows "path_join (path_join inbox ''tmp'') a \<noteq> new_path inbox b"
proof
  assume e: "path_join (path_join inbox ''tmp'') a = new_path inbox b"
  have "path_parts (path_join (path_join inbox ''tmp'') a) = path_parts inbox @ [''tmp'', a]"
    using assms(1) by (simp add: plain_name_def path_parts_join)
  moreover have "path_parts (new_path inbox b) = path_parts inbox @ [''new'', b]"
    using assms(2) by (simp add: new_path_def plain_name_def path_parts_join)
  ultimately show False using e by simp
qed

text \<open>One message: what its file holds afterwards, and what is left alone.\<close>

lemma stage_one_world:
  assumes "stage_one cl hb inbox thr k m g = (r, g')"
  shows "(r = None \<longrightarrow> dropped thr m \<or>
      files (fn_world g') (new_path inbox (stamp_name cl (fn_ops g))) = Some (inc_raw m) \<and> fn_ops g' = fn_ops g + 1)"
    and "fn_ops g \<le> fn_ops g'"
    and "\<And>p. p \<noteq> path_join (path_join inbox ''tmp'') (stamp_name cl (fn_ops g)) \<Longrightarrow>
      p \<noteq> new_path inbox (stamp_name cl (fn_ops g)) \<Longrightarrow> files (fn_world g') p = files (fn_world g) p"
    and "fn_ops g' = fn_ops g \<Longrightarrow> fn_world g' = fn_world g"
proof -
  obtain ts pid u where st: "cl_stamp cl (fn_ops g) = (ts, pid, u)" by (metis prod_cases3)
  then have sn: "stamp_name cl (fn_ops g) = maildir_filename ts pid u" by (simp add: stamp_name_def)
  obtain x w where x: "maildir_write_message inbox ts pid u (inc_raw m) (fn_world g) = (x, w)" by (metis surj_pair)
  have done': "files w (new_path inbox (stamp_name cl (fn_ops g))) = Some (inc_raw m)" if "x = Inr y" for y
    using maildir.put_done [of "(inbox, ts, pid, u)" "inc_raw m" "fn_world g" y w] x that by (simp add: sn new_path_def)
  have frame: "files w p = files (fn_world g) p"
    if "p \<noteq> path_join (path_join inbox ''tmp'') (stamp_name cl (fn_ops g))" "p \<noteq> new_path inbox (stamp_name cl (fn_ops g))" for p
    using maildir.put_frame [of "(inbox, ts, pid, u)" "inc_raw m" "fn_world g" x w p] x that by (simp add: sn new_path_def)
  have run: "(r, g') = (if dropped thr m then (None, beat_now hb g) else
      (case via_io (maildir_write_message inbox ts pid u (inc_raw m)) (fn_world g) of
             (Inr _, w) \<Rightarrow>
               (let g2 = pass_time cl 0 ((beat_now hb g)\<lparr>fn_world := w\<rparr>) in
                (None, g2\<lparr>fn_stats := note_inbox_write (cl_unix cl (fn_now g2)) (fn_stats g2)\<rparr>))
           | (Inl e, w) \<Rightarrow> (Some (display_error e), pass_time cl 0 ((beat_now hb g)\<lparr>fn_world := w\<rparr>))))"
    unfolding assms [symmetric] by (simp add: stage_one_def Let_def st)
  show "r = None \<longrightarrow> dropped thr m \<or>
      files (fn_world g') (new_path inbox (stamp_name cl (fn_ops g))) = Some (inc_raw m) \<and> fn_ops g' = fn_ops g + 1"
    using run x done' by (cases x) (auto simp: via_io_def Let_def split: if_splits)
  show "fn_ops g \<le> fn_ops g'" "fn_ops g' = fn_ops g \<Longrightarrow> fn_world g' = fn_world g"
    using run x by (cases x; auto simp: via_io_def Let_def split: if_splits)+
  fix p assume "p \<noteq> path_join (path_join inbox ''tmp'') (stamp_name cl (fn_ops g))"
    "p \<noteq> new_path inbox (stamp_name cl (fn_ops g))"
  then show "files (fn_world g') p = files (fn_world g) p"
    using run x frame by (cases x) (auto simp: via_io_def Let_def split: if_splits)
qed

lemma stage_all_frame:
  assumes "fresh_names cl"
    and "\<And>k. fn_ops g \<le> k \<Longrightarrow> p \<noteq> new_path inbox (stamp_name cl k) \<and> p \<noteq> path_join (path_join inbox ''tmp'') (stamp_name cl k)"
  shows "files (fn_world (snd (handle_all (stage_one cl hb inbox thr) k ms g))) p = files (fn_world g) p"
  using assms(2)
proof (induction ms arbitrary: k g)
  case (Cons m ms)
  obtain r g' where s: "stage_one cl hb inbox thr k m g = (r, g')" by (metis surj_pair)
  note w = stage_one_world [OF s]
  have "files (fn_world g') p = files (fn_world g) p" using w(3) Cons.prems [of "fn_ops g"] by blast
  moreover have "files (fn_world (snd (handle_all (stage_one cl hb inbox thr) (k + 1) ms g'))) p = files (fn_world g') p"
    by (rule Cons.IH) (use Cons.prems w(2) in force)
  ultimately show ?case using s by (simp add: case_prod_beta)
qed simp

lemma stage_all_kept:
  assumes "fresh_names cl" "j < fn_ops g" "plain_name (stamp_name cl j)"
  shows "files (fn_world (snd (handle_all (stage_one cl hb inbox thr) k ms g))) (new_path inbox (stamp_name cl j)) =
    files (fn_world g) (new_path inbox (stamp_name cl j))"
proof (rule stage_all_frame [OF assms(1)], intro conjI)
  fix i assume "fn_ops g \<le> i"
  then have "j \<noteq> i" using assms(2) by simp
  then have "stamp_name cl j \<noteq> stamp_name cl i" using assms(1) by (auto simp: fresh_names_def inj_def)
  then show "new_path inbox (stamp_name cl j) \<noteq> new_path inbox (stamp_name cl i)"
    using assms by (auto simp: fresh_names_def new_path_inject)
  show "new_path inbox (stamp_name cl j) \<noteq> path_join (path_join inbox ''tmp'') (stamp_name cl i)"
    using assms tmp_new_names [of "stamp_name cl i" "stamp_name cl j" inbox] by (auto simp: fresh_names_def)
qed

lemma stage_all_staged:
  assumes "fresh_names cl" "i < length ms"
    and "fst (handle_all (stage_one cl hb inbox thr) k ms g) ! i = None" "\<not> dropped thr (ms ! i)"
  shows "\<exists>n. \<forall>c \<ge> i. files (fn_world (snd (handle_all (stage_one cl hb inbox thr) k (take (Suc c) ms) g)))
      (new_path inbox n) = Some (inc_raw (ms ! i))"
  using assms(2-)
proof (induction ms arbitrary: i k g)
  case (Cons m ms)
  obtain r g' where s: "stage_one cl hb inbox thr k m g = (r, g')" by (metis surj_pair)
  note w = stage_one_world [OF s]
  show ?case
  proof (cases i)
    case 0
    then have "r = None" "\<not> dropped thr m" using Cons.prems s by (simp_all add: case_prod_beta)
    then have f: "files (fn_world g') (new_path inbox (stamp_name cl (fn_ops g))) = Some (inc_raw m)" "fn_ops g < fn_ops g'"
      using w(1) by auto
    have "files (fn_world (snd (handle_all (stage_one cl hb inbox thr) k (take (Suc c) (m # ms)) g)))
      (new_path inbox (stamp_name cl (fn_ops g))) = Some (inc_raw m)" for c
      using stage_all_kept [OF assms(1) f(2)] f(1) s assms(1) by (simp add: case_prod_beta fresh_names_def)
    then show ?thesis using 0 by auto
  next
    case (Suc i')
    have "\<exists>n. \<forall>c \<ge> i'. files (fn_world (snd (handle_all (stage_one cl hb inbox thr) (k + 1) (take (Suc c) ms) g')))
      (new_path inbox n) = Some (inc_raw (ms ! i'))"
      by (rule Cons.IH) (use Cons.prems s Suc in \<open>simp_all add: case_prod_beta\<close>)
    then obtain n where n: "\<And>c. i' \<le> c \<Longrightarrow>
      files (fn_world (snd (handle_all (stage_one cl hb inbox thr) (k + 1) (take (Suc c) ms) g'))) (new_path inbox n) =
        Some (inc_raw (ms ! i'))" by blast
    have "files (fn_world (snd (handle_all (stage_one cl hb inbox thr) k (take (Suc c) (m # ms)) g)))
      (new_path inbox n) = Some (inc_raw (ms ! i'))" if "i \<le> c" for c
      using n [of "c - 1"] that Suc s by (cases c) (simp_all add: case_prod_beta)
    then show ?thesis using Suc by auto
  qed
qed simp

section \<open>Properties\<close>

lemma backoff_closed:
  "carrier_backoff base f = (if f = 0 then base else min (base * 2 ^ min f 16) carrier_backoff_max)"
proof (cases "base * 2 ^ min f 16 div 1000 < 2 ^ 64")
  case True
  then show ?thesis by (simp add: carrier_backoff_def checked_mul_ms_def)
next
  case False
  then have "carrier_backoff_max \<le> base * 2 ^ min f 16" by (simp add: carrier_backoff_max_def) 
  then show ?thesis using False by (simp add: carrier_backoff_def checked_mul_ms_def)
qed

lemma backoff_pos: "0 < f \<Longrightarrow> carrier_backoff base f = min (base * 2 ^ min f 16) carrier_backoff_max"
  by (simp add: backoff_closed)

text \<open>The wait of a pull loop after \<open>f\<close> failures in a row: for a poll interval below the cap of 30 minutes it
  starts at the interval, doubles with every failure up to 16 times, never decreases, and stays between
  the interval and the cap.  A failure is reported as an error exactly when its wait is at the cap (every such
  failure, not only the first, as the comment on the reporting function has it).\<close>

lemma backoff_exact:
  assumes "base \<le> carrier_backoff_max"
  shows "carrier_backoff base f = min (base * 2 ^ min f 16) carrier_backoff_max \<and>
    base \<le> carrier_backoff base f \<and> carrier_backoff base f \<le> carrier_backoff base (f + k) \<and>
    (failure_is_alarm (carrier_backoff base f) f \<longleftrightarrow> carrier_backoff base f = carrier_backoff_max)"
proof -
  have c: "carrier_backoff b n = min (b * 2 ^ min n 16) carrier_backoff_max" if "b \<le> carrier_backoff_max" for b n
    using that by (simp add: backoff_closed)
  have e: "carrier_backoff base f = min (base * 2 ^ min f 16) carrier_backoff_max" using assms by (rule c)
  have le: "b * 1 \<le> b * 2 ^ n" for b n :: nat by (rule mult_le_mono2) simp
  have m: "base * 2 ^ min f 16 \<le> base * 2 ^ min (f + k) 16" by (intro mult_le_mono2 power_increasing) auto
  have "(2::nat) ^ min (f - 1) 16 \<le> 2 ^ 16" by (intro power_increasing) auto
  then have "carrier_backoff 1 (f - 1) < carrier_backoff_max"
    using c [of 1 "f - 1"] by (simp add: carrier_backoff_max_def)
  then have "failure_is_alarm (carrier_backoff base f) f \<longleftrightarrow> carrier_backoff_max \<le> carrier_backoff base f"
    by (simp add: failure_is_alarm_def Let_def carrier_backoff_max_def)
  moreover have "carrier_backoff base f \<le> carrier_backoff base (f + k)"
    unfolding e c [OF assms, of "f + k"] using m by (intro min.mono) auto
  ultimately show ?thesis using e le [of base "min f 16"] assms by auto
qed

lemma backoff_exact_witness:
  "carrier_backoff 2000 3 = 16000 \<and> carrier_backoff 2000 16 = carrier_backoff_max \<and>
   failure_is_alarm (carrier_backoff 2000 16) 16"
  using backoff_exact [of 2000 3 0] backoff_exact [of 2000 16 0] by (auto simp: carrier_backoff_max_def)

lemma sleep_beating_gaps:
  assumes "\<And>k. cl_late cl k \<le> late" "sleep_beating cl hb rest (beats, g) = (beats', g')"
    and "gaps_within (beat_slice_ms + late) (fn_now g # beats)"
  shows "gaps_within (beat_slice_ms + late) beats' \<and> hd beats' = fn_now g' \<and> fn_now g + rest \<le> fn_now g' \<and>
    last beats' = last (fn_now g # beats)"
  using assms(2,3)
proof (induction rest arbitrary: beats g rule: less_induct)
  case (less rest)
  show ?case
  proof (cases "rest = 0")
    case True
    then have "beats' = fn_now g # beats" "g' = beat_now hb g"
      using less.prems(1) by (subst (asm) sleep_beating.simps, simp add: Let_def)+
    then show ?thesis using less.prems(2) True by simp
  next
    case False
    define n where "n = min rest beat_slice_ms"
    define g2 where "g2 = pass_time cl n (beat_now hb g)"
    have n: "0 < n" "n \<le> rest" "n \<le> beat_slice_ms" using False by (auto simp: n_def beat_slice_ms_def)
    have now: "fn_now g2 = fn_now g + n + cl_late cl (fn_ops g)" by (simp add: g2_def pass_time_def)
    have late: "cl_late cl (fn_ops g) \<le> late" using assms(1) .
    have run: "sleep_beating cl hb (rest - (fn_now g2 - fn_now g)) (fn_now g # beats, g2) = (beats', g')"
      using less.prems(1) False by (subst (asm) sleep_beating.simps) (simp add: Let_def n_def g2_def)
    have gap: "gaps_within (beat_slice_ms + late) (fn_now g2 # fn_now g # beats)"
      using less.prems(2) now late n by simp
    have "rest - (fn_now g2 - fn_now g) < rest" using now n False by simp
    from less.IH [OF this run gap] show ?thesis using now n by (auto split: if_splits)
  qed
qed

text \<open>C33.  A waiting loop never looks stalled: over a wait of any length the heartbeat is set at the start, at the end,
  and in between never more than one slice of 60 seconds plus the scheduling delay apart; and the wait
  is at least as long as asked.\<close>

theorem sleep_never_silent:
  assumes "\<And>k. cl_late cl k \<le> late" "sleep_beating cl hb asked ([], g) = (beats, g')"
  shows "gaps_within (beat_slice_ms + late) beats \<and> last beats = fn_now g \<and> hd beats = fn_now g' \<and>
    fn_now g + asked \<le> fn_now g'"
  using sleep_beating_gaps [OF assms(1) assms(2)] by auto

definition calm :: clocks where
  "calm = \<lparr>cl_unix = (\<lambda>t. t div 1000), cl_stamp = (\<lambda>k. (k, 1, ''u'')), cl_late = (\<lambda>k. 5),
     cl_idle = (\<lambda>k. \<lparr>ic_wait = \<lambda>j. 200, ic_late = \<lambda>j. 3\<rparr>)\<rparr>"

definition idle_funnel :: funnel where
  "idle_funnel = \<lparr>fn_world = no_files, fn_stats = new_stats 0, fn_now = 0, fn_ops = 0\<rparr>"

lemma sleep_never_silent_witness:
  "gaps_within 60005 (fst (sleep_beating calm 0 150000 ([], idle_funnel))) \<and>
   150000 \<le> fn_now (snd (sleep_beating calm 0 150000 ([], idle_funnel)))"
proof -
  obtain b g where r: "sleep_beating calm 0 150000 ([], idle_funnel) = (b, g)" by (metis surj_pair)
  show ?thesis using sleep_never_silent [of calm 5 0 150000 idle_funnel b g] r
    by (simp add: calm_def beat_slice_ms_def idle_funnel_def)
qed

section \<open>Staging\<close>


lemma calm_fresh: "fresh_names calm"
proof -
  have "dec 1 = ''1''" by (subst dec.simps) (simp add: digit_def char_of_def bit_0)
  then have n: "stamp_name calm k = dec k @ ''.1.localhost.u''" for k
    by (simp add: stamp_name_def calm_def maildir_filename_def)
  have "plain_name (dec k @ ''.1.localhost.u'')" for k
  proof -
    have "utf8_valid (dec k @ ''.1.localhost.u'')"
      by (rule utf8_valid_ascii) (auto simp: byte_val_def is_digit_def dest!: dec_digits)
    then show ?thesis by (simp add: plain_name_def dec_no_slash)
  qed
  then show ?thesis by (simp add: fresh_names_def inj_def n)
qed

text \<open>A server that holds one mail and remembers what it was told about it.\<close>

definition one_mail :: "string list mail_carrier" where
  "one_mail = \<lparr>mk_name = ''one'', mk_check_new = (\<lambda>c. (Inr [\<lparr>inc_id = ''7'', inc_raw = ''hi'', inc_source = []\<rparr>], c)),
     mk_mark_processed = (\<lambda>i c. (Inr (), c @ [i])), mk_mark_failed = (\<lambda>i r c. (Inr (), c)),
     mk_send = (\<lambda>to b c. (Inr (), c))\<rparr>"


end
