(* ===== verification/Health.thy ===== *)
theory Health
  imports Stats Errors Config
begin

text \<open>
  The health endpoint and the stall watchdog (\<open>antie/src/health.rs\<close>): the verdict over the heartbeats,
  one pass of the watchdog, and the answer to one HTTP request.  The JSON printer is an argument.
\<close>

definition stall_exit_code :: int where
  "stall_exit_code = 75"

record verdict =
  vd_ok :: bool
  vd_lambda_alive :: bool
  vd_stalled :: "string list"
  vd_oldest_age :: nat

definition stalled_text :: "heartbeat_snapshot \<Rightarrow> string" where
  "stalled_text b = hs_name b @ '' '' @ dec (hs_age_secs b) @ ''s''"

definition health_verdict :: "bool \<Rightarrow> heartbeat_snapshot list \<Rightarrow> verdict" where
  "health_verdict lambda_alive beats =
     (let stalled = map (\<lambda>b. stalled_text b) (filter (\<lambda>b. hs_max_silence_secs b < hs_age_secs b) beats) in
      \<lparr>vd_ok = (lambda_alive \<and> stalled = []), vd_lambda_alive = lambda_alive, vd_stalled = stalled,
       vd_oldest_age = fold max (map hs_age_secs beats) 0\<rparr>)"

text \<open>The fields of the health document.\<close>

datatype json_value = JBool bool | JNum nat | JList "string list"

definition health_body :: "antie_stats \<Rightarrow> nat \<Rightarrow> nat \<Rightarrow> bool \<Rightarrow> verdict \<times> (string \<times> json_value) list" where
  "health_body s clk unix_now lambda_alive =
     (let v = health_verdict lambda_alive (heartbeat_snapshots s clk) in
      (v, [(''ok'', JBool (vd_ok v)),
           (''lambda_alive'', JBool (vd_lambda_alive v)),
           (''stalled'', JList (vd_stalled v)),
           (''oldest_heartbeat_age_secs'', JNum (vd_oldest_age v)),
           (''uptime_secs'', JNum (unix_now - st_started_at s)),
           (''carriers_in_backoff'', JNum (st_carriers_in_backoff s)),
           (''carrier_consecutive_failures'', JNum (st_carrier_consecutive_failures s)),
           (''carrier_failures_total'', JNum (st_carrier_failures_total s))]))"

definition name_of_stall :: "string \<Rightarrow> string" where
  "name_of_stall s = (case rsplit_once CHR '' '' s of Some (n, _) \<Rightarrow> n | None \<Rightarrow> s)"

text \<open>One loop entry of the pass; the accumulator is the remembered and the newly reported names.\<close>

fun report_stalls :: "string list \<Rightarrow> string list \<Rightarrow> string list \<times> string list" where
  "report_stalls reported [] = (reported, [])"
| "report_stalls reported (name # names) =
     (if name \<in> set reported then report_stalls reported names
      else (case report_stalls (reported @ [name]) names of (r, fresh) \<Rightarrow> (r, name # fresh)))"

text \<open>The third component is the exit the pass asks for.\<close>

definition stall_watchdog_tick ::
  "verdict \<Rightarrow> on_stall \<Rightarrow> string list \<Rightarrow> string list \<times> string list \<times> int option" where
  "stall_watchdog_tick v policy reported =
     (let now_stalled = map name_of_stall (vd_stalled v);
          kept = filter (\<lambda>n. n \<in> set now_stalled) reported;
          (reported', fresh) = report_stalls kept now_stalled in
      (fresh, reported', if fresh \<noteq> [] \<and> policy = NotifyAndRestart then Some stall_exit_code else None))"

definition extract_query_param :: "string \<Rightarrow> string \<Rightarrow> string option" where
  "extract_query_param query key =
     (case find (\<lambda>p. starts_with key p \<and> length key < length p \<and> p ! length key = CHR ''='')
        (split_on CHR ''&'' query) of
        None \<Rightarrow> None | Some p \<Rightarrow> Some (drop (length key + 1) p))"

definition check_auth :: "string \<Rightarrow> string option \<Rightarrow> string option \<Rightarrow> bool" where
  "check_auth path query auth_token =
     (if path = ''/health'' then True
      else case auth_token of
          None \<Rightarrow> True
        | Some expected \<Rightarrow> Option.bind query (\<lambda>q. extract_query_param q ''token'') = Some expected)"

datatype http_body = BodyHealth "(string \<times> json_value) list" | BodyStatus string | BodyError string error_response

definition error_body :: "string \<Rightarrow> error_category \<Rightarrow> string \<Rightarrow> http_body" where
  "error_body c k message = BodyError message (new_response c k message)"

text \<open>One request, from the at most 1024 bytes read, to the status and the body.\<close>

definition request_uri :: "bytes \<Rightarrow> string" where
  "request_uri req =
     (let request = utf8_lossy req;
          first_line = (case str_lines request of [] \<Rightarrow> [] | l # _ \<Rightarrow> l) in
      (case split_ws first_line of _ # u # _ \<Rightarrow> u | _ \<Rightarrow> ''/''))"

definition answer_request ::
  "antie_stats \<Rightarrow> string option \<Rightarrow> bool \<Rightarrow> nat \<Rightarrow> nat \<Rightarrow> nat \<Rightarrow> bytes \<Rightarrow> string \<times> http_body" where
  "answer_request s auth_token alive clk unix_now eof req =
     (let uri = request_uri req;
          (path, query) = (case split_once CHR ''?'' uri of
              Some (p, q) \<Rightarrow> (p, Some q) | None \<Rightarrow> (uri, None)) in
      if \<not> check_auth path query auth_token then
        (''401 Unauthorized'', error_body ''E_ANTIE_UNAUTHORIZED'' ClientBug ''unauthorized'')
      else if path = ''/health'' then (''200 OK'', BodyHealth (snd (health_body s clk unix_now alive)))
      else if path = ''/status'' then (''200 OK'', BodyStatus (stats_to_json s unix_now eof))
      else (''404 Not Found'', error_body ''E_ANTIE_NOT_FOUND'' ClientBug ''not found''))"

definition http_response :: "(http_body \<Rightarrow> string) \<Rightarrow> string \<times> http_body \<Rightarrow> string" where
  "http_response to_text a =
     (let crlf = [CHR 0x0D, CHR 0x0A]; body = to_text (snd a) in
      ''HTTP/1.1 '' @ fst a @ crlf @ ''Content-Type: application/json'' @ crlf @
      ''Content-Length: '' @ dec (length body) @ crlf @ ''Connection: close'' @ crlf @ crlf @ body)"

text \<open>A visit: what the gateway is at that moment (its statistics, whether Lambda is alive, the clocks and the count of early ends), and
  what the one read of the connection gives within five seconds: nothing, an error, or bytes, none of them at the end.\<close>

record health_visit =
  hv_stats :: antie_stats
  hv_alive :: bool
  hv_clock :: nat
  hv_unix :: nat
  hv_eof :: nat
  hv_read :: "(string + bytes) option"

definition health_connection :: "(http_body \<Rightarrow> string) \<Rightarrow> string option \<Rightarrow> health_visit \<Rightarrow> string option" where
  "health_connection to_text auth_token v =
     (case hv_read v of
        Some (Inr req) \<Rightarrow>
          (if req = [] then None
           else Some (http_response to_text
             (answer_request (hv_stats v) auth_token (hv_alive v) (hv_clock v) (hv_unix v) (hv_eof v) (take 1024 req))))
      | _ \<Rightarrow> None)"

text \<open>The listener: nothing is served where it does not bind, and a failed accept is passed over.  The result is what each connection is
  answered.\<close>

definition spawn_health_server ::
  "(http_body \<Rightarrow> string) \<Rightarrow> string option \<Rightarrow> string + unit \<Rightarrow> (string + health_visit) list \<Rightarrow> string option list" where
  "spawn_health_server to_text auth_token bound accepts =
     (case bound of
        Inl e \<Rightarrow> []
      | Inr _ \<Rightarrow> map (health_connection to_text auth_token) (List.map_filter ok_opt accepts))"

section \<open>Lemmas\<close>

lemma name_of_stalled_text [simp]: "name_of_stall (stalled_text b) = hs_name b"
proof -
  have nodec: "CHR '' '' \<notin> set (dec (hs_age_secs b))"
    using dec_digits [of "CHR '' ''" "hs_age_secs b"] by (auto simp: is_digit_def byte_val_def)
  then have "rsplit_once CHR '' '' (hs_name b @ CHR '' '' # dec (hs_age_secs b) @ ''s'') =
      Some (hs_name b, dec (hs_age_secs b) @ ''s'')"
    using nodec by (intro rsplit_once_append) simp
  then show ?thesis by (simp add: name_of_stall_def stalled_text_def)
qed

lemma report_stalls_sets:
  "set (fst (report_stalls reported names)) = set reported \<union> set names"
  "set (snd (report_stalls reported names)) = set names - set reported"
proof (induction names arbitrary: reported)
  case (Cons name names)
  case 1
  show ?case using Cons.IH(1) [of reported] Cons.IH(1) [of "reported @ [name]"]
    by (auto simp: case_prod_unfold)
  case 2
  show ?case using Cons.IH(2) [of reported] Cons.IH(2) [of "reported @ [name]"]
    by (auto simp: case_prod_unfold)
qed simp_all

lemma report_stalls_distinct: "distinct (snd (report_stalls reported names))"
proof (induction names arbitrary: reported)
  case (Cons name names)
  then show ?case
    using report_stalls_sets(2) [of "reported @ [name]" names] by (simp add: case_prod_unfold)
qed simp

lemma report_stalls_spec:
  "report_stalls reported names = (r, fresh) \<Longrightarrow>
   set r = set reported \<union> set names \<and> set fresh = set names - set reported \<and> distinct fresh"
  using report_stalls_sets [of reported names] report_stalls_distinct [of reported names] by simp

definition stalled_names :: "heartbeat_snapshot list \<Rightarrow> string set" where
  "stalled_names beats = {hs_name b | b. b \<in> set beats \<and> hs_max_silence_secs b < hs_age_secs b}"

lemma vd_stalled_names:
  "name_of_stall ` set (vd_stalled (health_verdict alive beats)) = stalled_names beats"
  by (force simp: health_verdict_def stalled_names_def Let_def)

lemma watchdog_tick_spec:
  assumes "stall_watchdog_tick (health_verdict alive beats) policy reported = (fresh, reported', code)"
  shows "set reported' = stalled_names beats" "set fresh = stalled_names beats - set reported" "distinct fresh"
    "code = (if fresh \<noteq> [] \<and> policy = NotifyAndRestart then Some 75 else None)"
proof -
  let ?names = "map name_of_stall (vd_stalled (health_verdict alive beats))"
  let ?kept = "filter (\<lambda>n. n \<in> set ?names) reported"
  obtain r f where run: "report_stalls ?kept ?names = (r, f)" by (cases "report_stalls ?kept ?names")
  have names: "set ?names = stalled_names beats"
    using vd_stalled_names [of alive beats] by simp
  from report_stalls_spec [OF run] names
  have "set r = stalled_names beats" "set f = stalled_names beats - set reported" "distinct f" by auto
  moreover have "fresh = f" "reported' = r"
    "code = (if f \<noteq> [] \<and> policy = NotifyAndRestart then Some stall_exit_code else None)"
    using assms run by (auto simp: stall_watchdog_tick_def Let_def)
  ultimately show "set reported' = stalled_names beats" "set fresh = stalled_names beats - set reported"
    "distinct fresh" "code = (if fresh \<noteq> [] \<and> policy = NotifyAndRestart then Some 75 else None)"
    by (simp_all add: stall_exit_code_def)
qed

text \<open>The watchdog over a run of readings, with what it reported at each.\<close>

fun watchdog_run ::
  "on_stall \<Rightarrow> string list \<Rightarrow> (bool \<times> heartbeat_snapshot list) list \<Rightarrow> (string list \<times> int option) list" where
  "watchdog_run policy reported [] = []"
| "watchdog_run policy reported ((alive, beats) # rs) =
     (case stall_watchdog_tick (health_verdict alive beats) policy reported of
        (fresh, reported', code) \<Rightarrow> (fresh, code) # watchdog_run policy reported' rs)"

lemma watchdog_run_nth:
  "k < length rs \<Longrightarrow> watchdog_run policy reported rs ! k = (fresh, code) \<Longrightarrow>
   set fresh = stalled_names (snd (rs ! k)) - (if k = 0 then set reported else stalled_names (snd (rs ! (k - 1)))) \<and>
   code = (if fresh \<noteq> [] \<and> policy = NotifyAndRestart then Some 75 else None)"
proof (induction rs arbitrary: k reported)
  case (Cons r rs)
  obtain alive beats where r: "r = (alive, beats)" by (cases r)
  obtain f rep' c where t: "stall_watchdog_tick (health_verdict alive beats) policy reported = (f, rep', c)"
    by (cases "stall_watchdog_tick (health_verdict alive beats) policy reported")
  note spec = watchdog_tick_spec [OF t]
  show ?case
  proof (cases k)
    case 0
    then show ?thesis using Cons.prems r t spec by auto
  next
    case (Suc j)
    then have "watchdog_run policy rep' rs ! j = (fresh, code)" using Cons.prems r t by simp
    from Cons.IH [OF _ this] show ?thesis
      using Suc Cons.prems(1) r spec(1) by (cases j) auto
  qed
qed simp

lemma length_watchdog_run [simp]: "length (watchdog_run policy reported rs) = length rs"
  by (induction policy reported rs rule: watchdog_run.induct) (auto split: prod.splits)

section \<open>Properties\<close>

text \<open>The health verdict is about progress: it is ok exactly when the Lambda child is alive and no
  registered loop has been silent for longer than its own bound, and the loops it names are exactly the
  silent ones.\<close>

lemma health_is_progress:
  "vd_ok (fst (health_body s clk unix_now alive)) \<longleftrightarrow>
     alive \<and> (\<forall>h \<in> set (st_heartbeats s). clk \<le> hb_last_beat h + hb_max_silence_secs h)" 
  by (auto simp: health_body_def health_verdict_def heartbeat_snapshots_def snapshot_of_def Let_def
      filter_empty_conv)

lemma health_is_progress_witness:
  "let s = snd (register_heartbeat (new_stats 0) 0 ''dispatch'' 600) in
   vd_ok (fst (health_body s 601 601 True)) \<longleftrightarrow>
     True \<and> (\<forall>h \<in> set (st_heartbeats s). 601 \<le> hb_last_beat h + hb_max_silence_secs h)"
  unfolding Let_def by (rule health_is_progress)

text \<open>A stall is reported once and reported again after a recovery: at each pass the watchdog names
  exactly the loops that are stalled now and were not at the pass before, and it asks for the restart exit
  exactly when it names one and the operator chose restarting.\<close>

lemma watchdog_edges:
  assumes "k < length rs" "watchdog_run policy [] rs ! k = (fresh, code)"
  shows "set fresh = stalled_names (snd (rs ! k)) - (if k = 0 then {} else stalled_names (snd (rs ! (k - 1)))) \<and>
    (code = Some 75 \<longleftrightarrow> fresh \<noteq> [] \<and> policy = NotifyAndRestart)"
  using watchdog_run_nth [OF assms] by simp

lemma watchdog_edges_witness:
  "let b = (\<lambda>a. [\<lparr>hs_name = ''imap#0(u@h)'', hs_age_secs = a, hs_max_silence_secs = 900\<rparr>]);
       rs = [(True, b 901), (True, b 931), (True, b 1), (True, b 905)];
       out = watchdog_run NotifyAndRestart [] rs ! 3 in
   set (fst out) = stalled_names (snd (rs ! 3)) - (if (3::nat) = 0 then {} else stalled_names (snd (rs ! (3 - 1)))) \<and>
    (snd out = Some 75 \<longleftrightarrow> fst out \<noteq> [] \<and> NotifyAndRestart = NotifyAndRestart)"
  unfolding Let_def by (rule watchdog_edges) simp_all

lemma starts_with_snoc:
  "starts_with k p \<and> length k < length p \<and> p ! length k = c \<longleftrightarrow> starts_with (k @ [c]) p"
proof
  assume a: "starts_with k p \<and> length k < length p \<and> p ! length k = c"
  then obtain t where p: "p = k @ t" by (auto simp: starts_with_iff)
  with a obtain d u where "t = d # u" by (cases t) auto
  then show "starts_with (k @ [c]) p" using a p by (auto simp: starts_with_iff)
qed (auto simp: starts_with_iff nth_append)

lemma extract_query_param_Some:
  "extract_query_param q key = Some v \<longleftrightarrow>
     (\<exists>pre post. split_on CHR ''&'' q = pre @ (key @ ''='' @ v) # post \<and>
        (\<forall>p \<in> set pre. \<not> starts_with (key @ ''='') p))"
proof -
  have "extract_query_param q key = Some v \<longleftrightarrow>
      (\<exists>p. find (\<lambda>p. starts_with (key @ ''='') p) (split_on CHR ''&'' q) = Some p \<and> drop (length key + 1) p = v)"
    by (simp add: extract_query_param_def starts_with_snoc split: option.splits)
  also have "\<dots> \<longleftrightarrow> (\<exists>p pre post. split_on CHR ''&'' q = pre @ p # post \<and> p = key @ ''='' @ v \<and>
        (\<forall>p \<in> set pre. \<not> starts_with (key @ ''='') p))"
    by (fastforce simp: find_first starts_with_iff)
  finally show ?thesis by blast
qed

lemma uri_split:
  "(case split_once CHR ''?'' uri of Some (p, q) \<Rightarrow> (p, Some q) | None \<Rightarrow> (uri, None)) = (path, query) \<Longrightarrow>
   CHR ''?'' \<notin> set path \<and> (query = None \<longrightarrow> uri = path) \<and> (\<forall>q. query = Some q \<longrightarrow> uri = path @ ''?'' @ q)"
  by (auto simp: split_once_Some split_once_None split: option.splits)

lemma status_served:
  "(\<exists>j. snd (answer_request s (Some t) alive clk unix_now eof req) = BodyStatus j) \<longleftrightarrow>
     (\<exists>q pre post. request_uri req = ''/status?'' @ q \<and> split_on CHR ''&'' q = pre @ (''token='' @ t) # post \<and>
        list_all (\<lambda>p. \<not> starts_with ''token='' p) pre)"
proof -
  obtain path query where pq: "(case split_once CHR ''?'' (request_uri req) of
      Some (p, q) \<Rightarrow> (p, Some q) | None \<Rightarrow> (request_uri req, None)) = (path, query)"
    by fastforce
  note u = uri_split [OF pq]
  have run: "answer_request s (Some t) alive clk unix_now eof req =
     (if \<not> check_auth path query (Some t) then
        (''401 Unauthorized'', error_body ''E_ANTIE_UNAUTHORIZED'' ClientBug ''unauthorized'')
      else if path = ''/health'' then (''200 OK'', BodyHealth (snd (health_body s clk unix_now alive)))
      else if path = ''/status'' then (''200 OK'', BodyStatus (stats_to_json s unix_now eof))
      else (''404 Not Found'', error_body ''E_ANTIE_NOT_FOUND'' ClientBug ''not found''))"
    unfolding answer_request_def Let_def pq prod.case by (rule refl)
  have "(\<exists>j. snd (answer_request s (Some t) alive clk unix_now eof req) = BodyStatus j) \<longleftrightarrow>
      path = ''/status'' \<and> Option.bind query (\<lambda>q. extract_query_param q ''token'') = Some t"
    unfolding run check_auth_def error_body_def by simp
  also have "\<dots> \<longleftrightarrow> (\<exists>q. (query = Some q \<and> path = ''/status'') \<and> extract_query_param q ''token'' = Some t)"
    unfolding bind_eq_Some_conv by blast
  also have "\<dots> \<longleftrightarrow> (\<exists>q. request_uri req = ''/status?'' @ q \<and> extract_query_param q ''token'' = Some t)"
  proof -
    have "(query = Some q \<and> path = ''/status'') = (request_uri req = ''/status?'' @ q)" for q
    proof
      assume "request_uri req = ''/status?'' @ q"
      then have "split_once CHR ''?'' (request_uri req) = Some (''/status'', q)"
        by (simp add: split_once_Some)
      then show "query = Some q \<and> path = ''/status''" using pq by simp
    next
      assume "query = Some q \<and> path = ''/status''"
      then show "request_uri req = ''/status?'' @ q" using u by simp
    qed
    then show ?thesis by simp
  qed
  also have "\<dots> \<longleftrightarrow> (\<exists>q pre post. request_uri req = ''/status?'' @ q \<and>
      split_on CHR ''&'' q = pre @ (''token'' @ ''='' @ t) # post \<and>
      (\<forall>p \<in> set pre. \<not> starts_with (''token'' @ ''='') p))"
    unfolding extract_query_param_Some by blast
  finally show ?thesis by (simp only: append_Cons append_Nil list_all_iff)
qed

text \<open>Whether a request shows the token: it asks for the status path and its first token parameter is the token.\<close>

definition shows_token :: "string \<Rightarrow> bytes \<Rightarrow> bool" where
  "shows_token t req = (\<exists>q pre post. request_uri req = ''/status?'' @ q \<and> split_on CHR ''&'' q = pre @ (''token='' @ t) # post \<and>
     list_all (\<lambda>p. \<not> starts_with ''token='' p) pre)"

lemma answer_without_token:
  assumes "\<not> shows_token t req" "health_body s clk unix_now alive = health_body s' clk' unix_now' alive'"
  shows "answer_request s (Some t) alive clk unix_now eof req = answer_request s' (Some t) alive' clk' unix_now' eof' req"
proof -
  have "\<not> (\<exists>j. snd (answer_request s (Some t) alive clk unix_now eof req) = BodyStatus j)"
    using status_served [of s t alive clk unix_now eof req] assms(1) by (simp add: shows_token_def)
  then show ?thesis
    using assms(2) by (auto simp: answer_request_def Let_def split: prod.splits if_splits)
qed

text \<open>Two moments that a visitor without the token cannot tell apart.\<close>

definition same_to_strangers :: "string \<Rightarrow> health_visit \<Rightarrow> health_visit \<Rightarrow> bool" where
  "same_to_strangers t v v' = (hv_read v = hv_read v' \<and>
     (case hv_read v of Some (Inr r) \<Rightarrow> \<not> shows_token t (take 1024 r) | _ \<Rightarrow> True) \<and>
     health_body (hv_stats v) (hv_clock v) (hv_unix v) (hv_alive v) = health_body (hv_stats v') (hv_clock v') (hv_unix v') (hv_alive v'))"

lemma stranger_sees_same:
  assumes "same_to_strangers t v v'"
  shows "health_connection to_text (Some t) v = health_connection to_text (Some t) v'"
proof -
  have r: "hv_read v' = hv_read v" using assms by (simp add: same_to_strangers_def)
  have "answer_request (hv_stats v) (Some t) (hv_alive v) (hv_clock v) (hv_unix v) (hv_eof v) (take 1024 req) =
      answer_request (hv_stats v') (Some t) (hv_alive v') (hv_clock v') (hv_unix v') (hv_eof v') (take 1024 req)"
    if "hv_read v = Some (Inr req)" for req
    using assms that by (intro answer_without_token) (simp_all add: same_to_strangers_def)
  then show ?thesis by (simp add: health_connection_def r split: option.split sum.split)
qed

text \<open>C39.  With a token configured, the statistics are served to exactly the requests for the status path
  whose first token parameter is the configured token.  Who does not show it learns the health document and nothing else: over any visits to the
  endpoint, what is answered is the same for two gateways that differ in anything the health document does not tell.\<close>

theorem status_needs_token:
  "((\<exists>j. snd (answer_request s (Some t) alive clk unix_now eof req) = BodyStatus j) \<longleftrightarrow> shows_token t req) \<and>
   (list_all2 (same_to_strangers t) vs vs' \<longrightarrow>
      spawn_health_server to_text (Some t) bound (map Inr vs) = spawn_health_server to_text (Some t) bound (map Inr vs'))"
proof -
  have "map (health_connection to_text (Some t)) vs = map (health_connection to_text (Some t)) vs'"
    if "list_all2 (same_to_strangers t) vs vs'"
    using that by (induction vs vs' rule: list_all2_induct) (auto simp: stranger_sees_same)
  moreover have "List.map_filter ok_opt (map Inr xs :: (string + health_visit) list) = xs" for xs
    by (induction xs) (simp_all add: List.map_filter_def)
  ultimately show ?thesis
    by (cases bound) (simp_all add: spawn_health_server_def shows_token_def status_served)
qed

text \<open>An empty request line, before and after some calls of Lambda.\<close>

definition sample_request :: bytes where
  "sample_request = [CHR 0x0A]"

definition sample_visit :: "nat \<Rightarrow> health_visit" where
  "sample_visit n = \<lparr>hv_stats = (new_stats 0)\<lparr>st_lambda_requests := n\<rparr>, hv_alive = True, hv_clock = 5, hv_unix = 9, hv_eof = 0,
     hv_read = Some (Inr sample_request)\<rparr>"

lemma status_needs_token_witness:
  "\<forall>to_text. spawn_health_server to_text (Some ''yes'') (Inr ()) (map Inr [sample_visit 0]) =
     spawn_health_server to_text (Some ''yes'') (Inr ()) (map Inr [sample_visit 7])"
proof -
  have whole: "take 1024 sample_request = sample_request" by (simp add: sample_request_def)
  have "utf8_lossy sample_request = sample_request"
    by (intro utf8_lossy_valid utf8_valid_ascii) (auto simp: byte_val_def sample_request_def)
  moreover have "str_lines sample_request = [[]]" by code_simp
  moreover have "trim_start [] = []" by code_simp
  ultimately have "request_uri sample_request = ''/''" by (simp add: request_uri_def split_ws.simps [of "[]"])
  then have "\<not> shows_token ''yes'' sample_request" by (simp add: shows_token_def)
  moreover have "health_body ((new_stats 0)\<lparr>st_lambda_requests := 0\<rparr>) 5 9 True = health_body ((new_stats 0)\<lparr>st_lambda_requests := 7\<rparr>) 5 9 True"
    by (simp add: health_body_def heartbeat_snapshots_def Let_def)
  ultimately have "same_to_strangers ''yes'' (sample_visit 0) (sample_visit 7)"
    by (simp add: same_to_strangers_def sample_visit_def whole)
  then have "list_all2 (same_to_strangers ''yes'') [sample_visit 0] [sample_visit 7]" by simp
  then show ?thesis by (intro allI status_needs_token [THEN conjunct2, THEN mp])
qed

end
