(* ===== verification/Startup.thy ===== *)
theory Startup
  imports Supervision Dispatch Funnel SkipList Health
begin

text \<open>
  How the gateway comes up: \<open>Gateway::new\<close> and \<open>Gateway::run\<close> of \<open>antie/src/gateway.rs\<close>, the small loops \<open>run\<close> spawns
  itself, and the command line of \<open>antie/src/main.rs\<close>.  The AVM and the curve arithmetic are parameters; a spawned task
  is a value that names what it runs.
\<close>

section \<open>Construction\<close>

text \<open>What the system gives: the variable with the AVM file, which files exist, loading one (the fingerprint of the core or an
  error), the certificates and the server name of TLS, the derivation of keys, and the time.\<close>

record startup_env =
  sx_avm_var :: "string option"
  sx_exists :: "string \<Rightarrow> bool"
  sx_load_avm :: "string \<Rightarrow> string + bytes"
  sx_roots :: "string \<Rightarrow> string + unit"
  sx_name_ok :: "string \<Rightarrow> string + unit"
  sx_verifying :: "bytes \<Rightarrow> bytes"
  sx_to_x25519 :: "bytes \<Rightarrow> bytes"
  sx_unix :: nat

record built_gateway =
  bg_config :: antie_config
  bg_sender :: sender_choice
  bg_opened :: "string list"
  bg_uncle :: "string option"
  bg_stats :: antie_stats
  bg_lambda :: lambda_client
  bg_running :: bool
  bg_cooldown_ms :: nat
  bg_decryptor :: "envelope_decryptor option"
  bg_skip :: "skip_list option"

text \<open>Sequencing of fallible steps on the world.\<close>

type_synonym 'a step = "world \<Rightarrow> 'a res \<times> world"

definition then_step :: "'a step \<Rightarrow> ('a \<Rightarrow> 'b step) \<Rightarrow> 'b step" where
  "then_step m f w = (case m w of (Inl e, w1) \<Rightarrow> (Inl e, w1) | (Inr a, w1) \<Rightarrow> f a w1)"

definition pure_step :: "'a res \<Rightarrow> 'a step" where
  "pure_step r w = (r, w)"

text \<open>The sender is chosen, then its directories are opened; the second component are the outboxes of the routing table.\<close>

definition open_sender :: "antie_config \<Rightarrow> (sender_choice \<times> string list) step" where
  "open_sender c =
     then_step (pure_step (choose_sender c)) (\<lambda>choice.
     case choice of
       UseRoutes inbox \<Rightarrow> then_step (routed_new inbox (ac_outbound c)) (\<lambda>opened. pure_step (Inr (choice, opened)))
     | UseSplit local ext \<Rightarrow> pure_step (Inr (choice, []))
     | UseMaildir inbox outbox \<Rightarrow>
         then_step (via_io (maildir_new inbox outbox)) (\<lambda>_. pure_step (Inr (choice, []))))"

definition avm_elf_path :: "string option \<Rightarrow> core_config \<Rightarrow> string" where
  "avm_elf_path var core =
     (case co_avm_elf_path core of
        Some p \<Rightarrow> p
      | None \<Rightarrow> (case var of
          Some p \<Rightarrow> p
        | None \<Rightarrow> (case Option.bind (co_core_bin_path core) path_parent of
            Some dir \<Rightarrow> path_join dir ''axiom-core.elf''
          | None \<Rightarrow> ''./axiom-core.elf'')))"

text \<open>A file that does not exist stops the start.\<close>

definition load_avm :: "startup_env \<Rightarrow> string \<Rightarrow> bytes res" where
  "load_avm env path =
     (if sx_exists env path then
        (if utf8_valid path then map_err (\<lambda>e. ConfigError (''Failed to load AVM ELF: '' @ e)) (sx_load_avm env path)
         else Inl (ConfigError ''AVM ELF path is not valid UTF-8''))
      else Inl (ConfigError (''No AVM ELF found at '' @ debug_str path @
        ''. Set avm_elf_path in config, set AXIOM_AVM_ELF env var, or place axiom-core.elf there. Run build-zkvm.sh to build it.'')))"

definition load_decryptor :: "startup_env \<Rightarrow> validator_config \<Rightarrow> envelope_decryptor option step" where
  "load_decryptor env v =
     (case vc_private_key_path v of
        None \<Rightarrow> pure_step (Inr None)
      | Some path \<Rightarrow> (\<lambda>w. case maildir_read_message path w of (seed_file, w1) \<Rightarrow>
          (res_bind (decryptor_from_key_file (sx_verifying env) (sx_to_x25519 env) path seed_file) (\<lambda>d. Inr (Some d)), w1)))"

text \<open>\<open>UncleSink::new\<close>: the outbox directory exists from here on.\<close>

definition uncle_new :: "string \<Rightarrow> string step" where
  "uncle_new outbox_path = then_step (via_io (create_dir_all outbox_path)) (\<lambda>_. pure_step (Inr outbox_path))"

definition open_uncle :: "outbound_config \<Rightarrow> string option step" where
  "open_uncle ob =
     (case ob_uncle ob of
        None \<Rightarrow> pure_step (Inr None)
      | Some path \<Rightarrow> then_step (uncle_new path) (\<lambda>p. pure_step (Inr (Some p))))"

definition gateway_new :: "startup_env \<Rightarrow> antie_config \<Rightarrow> built_gateway step" where
  "gateway_new env c =
     then_step (pure_step (validate_carriers (ac_carriers c))) (\<lambda>_.
     then_step (skip_maybe_open (ac_skip_list_path c) (ac_skipped_dir_path c)) (\<lambda>skip.
     then_step (open_sender c) (\<lambda>(choice, opened).
     then_step (pure_step (load_avm env (avm_elf_path (sx_avm_var env) (ac_core c)))) (\<lambda>fingerprint.
     then_step (pure_step (client_of_config (sx_roots env) (sx_name_ok env) (ac_lambda c))) (\<lambda>lambda.
     then_step (load_decryptor env (ac_validator c)) (\<lambda>decryptor.
     then_step (open_uncle (ac_outbound c)) (\<lambda>uncle.
     pure_step (Inr \<lparr>bg_config = c, bg_sender = choice, bg_opened = opened, bg_uncle = uncle,
       bg_stats = (new_stats (sx_unix env))\<lparr>st_core_version := hex_encode (take 16 fingerprint)\<rparr>,
       bg_lambda = lambda, bg_running = True,
       bg_cooldown_ms = (case ac_wallet_witness_cooldown_ms c of Some n \<Rightarrow> n | None \<Rightarrow> 2000),
       bg_decryptor = decryptor, bg_skip = skip\<rparr>))))))))"

section \<open>Running\<close>

text \<open>What a spawned task runs.\<close>

datatype gateway_task =
    SuperviseLambda
  | ServeHealth nat "string option"
  | MaildirCarrier maildir_config
  | ImapCarrier imap_config nat
  | Pop3Carrier pop3_config nat
  | StallWatchdog on_stall
  | OldestScan string
  | SkippedCount
  | StatsPoller nat "string option" nat

text \<open>\<open>iter().enumerate()\<close>, the disabled entries left out with their positions kept.\<close>

definition enabled_with_index :: "('a \<Rightarrow> bool) \<Rightarrow> 'a list \<Rightarrow> (nat \<times> 'a) list" where
  "enabled_with_index on xs = filter (\<lambda>(i, x). on x) (List.enumerate 0 xs)"

definition active_carriers :: "carriers_config \<Rightarrow> string" where
  "active_carriers c = join_str '',''
     ((if cc_maildir c \<noteq> None then [''maildir''] else []) @
      (if cc_imap c \<noteq> [] then [''imap''] else []) @
      (if cc_pop3 c \<noteq> [] then [''pop3''] else []))"

definition carrier_tasks :: "carriers_config \<Rightarrow> gateway_task list" where
  "carrier_tasks c =
     (case cc_maildir c of Some md \<Rightarrow> [MaildirCarrier md] | None \<Rightarrow> []) @
     map (\<lambda>(i, a). ImapCarrier a i) (enabled_with_index im_enabled (cc_imap c)) @
     map (\<lambda>(i, a). Pop3Carrier a i) (enabled_with_index pp_enabled (cc_pop3 c))"

text \<open>The poller of Lambda's statistics, and the port the status document reports.\<close>

definition arm_backpressure :: "load_env \<Rightarrow> antie_config \<Rightarrow> antie_stats \<Rightarrow> gateway_task list \<times> antie_stats" where
  "arm_backpressure le c s =
     (if 0 < pf_busy_threshold_ms (ac_performance c) then
        (case resolve_lambda_admin_port le c of
           Some port \<Rightarrow> ([StatsPoller port (resolve_lambda_admin_token le c) (pf_lambda_stats_poll_ms (ac_performance c))],
             s\<lparr>st_lambda_stats_port := port\<rparr>)
         | None \<Rightarrow> ([], s))
      else ([], s))"

text \<open>The start ends in an error, never gets past the push of the carrier list, or spawns its tasks.\<close>

datatype run_start =
    RunFailed antie_error
  | RunStuck
  | RunStarted "gateway_task list"

definition lambda_paths :: "lambda_config \<Rightarrow> string \<times> string" where
  "lambda_paths c = (case c of LcSubprocess binary_path config_path \<Rightarrow> (binary_path, config_path) | LcTcp _ _ _ _ \<Rightarrow> ([], []))"

text \<open>\<open>alive\<close> is the flag of the health endpoint; a refused push is only logged.\<close>

definition gateway_run ::
  "spawn_env \<Rightarrow> lambda_env \<Rightarrow> load_env \<Rightarrow> nat \<Rightarrow> built_gateway \<times> bool \<Rightarrow> run_start \<times> built_gateway \<times> bool" where
  "gateway_run se env le pid = (\<lambda>(g, alive).
     let c = bg_config g in
     case validate_carriers (ac_carriers c) of
       Inl e \<Rightarrow> (RunFailed e, g, alive)
     | Inr _ \<Rightarrow>
         (case start_lambda se (fst (lambda_paths (ac_lambda c))) (snd (lambda_paths (ac_lambda c))) (bg_lambda g, alive) of
            (Inl e, lc, alive1) \<Rightarrow> (RunFailed e, g\<lparr>bg_lambda := lc\<rparr>, alive1)
          | (Inr _, lc, alive1) \<Rightarrow>
              (case send_set_carriers_request env (''set-carriers-startup-'' @ dec pid)
                      (to_uri_list (ac_carriers c) (ac_identity_email c)) lc of
                 (Blocked, lc1) \<Rightarrow> (RunStuck, g\<lparr>bg_lambda := lc1\<rparr>, alive1)
               | (Returned r, lc1) \<Rightarrow>
                   (let s1 = (bg_stats g)\<lparr>st_active_carriers := active_carriers (ac_carriers c)\<rparr>;
                        (poller, s2) = arm_backpressure le c s1 in
                    (RunStarted ([SuperviseLambda, ServeHealth (ac_health_port c) (ac_health_token c)] @
                        carrier_tasks (ac_carriers c) @ [StallWatchdog (ac_on_stall c)] @
                        (case cc_maildir (ac_carriers c) of Some md \<Rightarrow> [OldestScan (path_join (mc_inbox md) ''new'')] | None \<Rightarrow> []) @
                        (if bg_skip g \<noteq> None then [SkippedCount] else []) @ poller),
                     g\<lparr>bg_lambda := lc1, bg_stats := s2\<rparr>, alive1)))))"

text \<open>\<open>stop\<close>, which the loops see at their next reading of the flag, and the end of \<open>run\<close> once every task has ended.\<close>

definition gateway_stop :: "built_gateway \<Rightarrow> built_gateway" where
  "gateway_stop g = g\<lparr>bg_running := False\<rparr>"

definition gateway_finish :: "built_gateway \<Rightarrow> built_gateway" where
  "gateway_finish g = g\<lparr>bg_lambda := snd (stop_lambda (bg_lambda g))\<rparr>"

section \<open>The loops of \<open>run\<close> itself\<close>

text \<open>A round of each comes with the reading of the running flag and what its look gives.  The watchdog reports the newly stalled names
  of each round, up to the exit it asks for.\<close>

fun watchdog_loop :: "on_stall \<Rightarrow> (bool \<times> verdict) list \<Rightarrow> string list \<Rightarrow> string list list \<times> int option" where
  "watchdog_loop policy [] reported = ([], None)"
| "watchdog_loop policy ((running, v) # rounds) reported =
     (if \<not> running then ([], None)
      else
        (case stall_watchdog_tick v policy reported of (fresh, reported1, ex) \<Rightarrow>
          (case ex of
             Some code_ \<Rightarrow> ([fresh], Some code_)
           | None \<Rightarrow> (case watchdog_loop policy rounds reported1 of (reports, ex') \<Rightarrow> (fresh # reports, ex')))))"

text \<open>\<open>None\<close> for a directory that cannot be read.\<close>

fun oldest_scan_loop :: "(bool \<times> nat option list option \<times> nat) list \<Rightarrow> antie_stats \<Rightarrow> antie_stats" where
  "oldest_scan_loop [] s = s"
| "oldest_scan_loop ((running, entries, unix_now) # rounds) s =
     (if \<not> running then s
      else oldest_scan_loop rounds (s\<lparr>
        st_inbox_oldest_mtime_unix := (case oldest_mtime_unix entries of Some t \<Rightarrow> t | None \<Rightarrow> 0),
        st_inbox_scan_unix := unix_now\<rparr>))"

fun skipped_count_loop :: "(bool \<times> string list option) list \<Rightarrow> antie_stats \<Rightarrow> antie_stats" where
  "skipped_count_loop [] s = s"
| "skipped_count_loop ((running, names) # rounds) s =
     (if \<not> running then s else skipped_count_loop rounds (s\<lparr>st_skipped_dir_count := skipped_dir_count names\<rparr>))"

section \<open>The command line\<close>

text \<open>\<open>--lambda\<close> replaces the configured Lambda by a plain connection; \<open>load\<close> reads a configuration file.\<close>

definition config_of_cli :: "(string \<Rightarrow> antie_config res) \<Rightarrow> string option \<Rightarrow> string option \<Rightarrow> antie_config res" where
  "config_of_cli load config_path lambda =
     res_bind (case config_path of Some p \<Rightarrow> load p | None \<Rightarrow> Inr default_config) (\<lambda>c.
     Inr (case lambda of Some address \<Rightarrow> c\<lparr>ac_lambda := LcTcp address 30 None None\<rparr> | None \<Rightarrow> c))"

text \<open>\<open>--init-maildir\<close>: the six directories, and the configuration that is then saved beside them.\<close>

definition init_maildir_dirs :: "string \<Rightarrow> unit io" where
  "init_maildir_dirs path =
     (let inbox = path_join path ''inbox''; outbox = path_join path ''outbox'' in
      io_bind (create_dir_all (path_join inbox ''new'')) (\<lambda>_.
      io_bind (create_dir_all (path_join inbox ''cur'')) (\<lambda>_.
      io_bind (create_dir_all (path_join inbox ''tmp'')) (\<lambda>_.
      io_bind (create_dir_all (path_join outbox ''new'')) (\<lambda>_.
      io_bind (create_dir_all (path_join outbox ''cur'')) (\<lambda>_.
      create_dir_all (path_join outbox ''tmp'')))))))"

definition init_maildir_config :: "(string \<Rightarrow> bool) \<Rightarrow> string \<Rightarrow> antie_config" where
  "init_maildir_config exists_file path =
     (let lambda_path =
        (if exists_file ''./axiom-lambda/target/release/lambda'' then ''./axiom-lambda/target/release/lambda''
         else if exists_file ''../axiom-lambda/target/release/lambda'' then ''../axiom-lambda/target/release/lambda''
         else if exists_file ''./target/release/lambda'' then ''./target/release/lambda''
         else ''./axiom-lambda/target/debug/lambda'') in
      default_config\<lparr>
        ac_carriers := no_carriers\<lparr>cc_maildir := Some \<lparr>mc_inbox = path_join path ''inbox'', mc_outbox = path_join path ''outbox''\<rparr>\<rparr>,
        ac_lambda := LcSubprocess lambda_path ''../config/lambda-config.toml''\<rparr>)"

end
