(* ===== verification/LambdaSync.thy ===== *)
theory LambdaSync
  imports LambdaLink
begin

text \<open>
  What the exchange with Lambda guarantees: frames read back exactly, a child that keeps to the protocol answers every
  call with the answer to that call, and what happens when a response exceeds the bound or TLS is configured.
\<close>

section \<open>Frames\<close>

lemma length_be32 [simp]: "length (be32 n) = 4"
  by (simp add: be32_def)

lemma of_be32_be32:
  assumes "n < 2 ^ 32"
  shows "of_be32 (be32 n) = n"
proof -
  define x y z where "x = n div 256" and "y = x div 256" and "z = y div 256"
  have d: "n div 256 = x" "n div 65536 = y" "n div 16777216 = z"
    by (simp_all add: x_def y_def z_def div_mult2_eq [symmetric])
  have z: "z mod 256 = z" using assms by (simp add: d(3) [symmetric] less_mult_imp_div_less mod_less)
  have "n = (((z * 256 + y mod 256) * 256) + x mod 256) * 256 + n mod 256"
    unfolding x_def y_def z_def by (simp add: div_mod_decomp [symmetric] div_mult_mod_eq)
  then show ?thesis using z by (simp add: be32_def d byte_val_def algebra_simps)
qed

lemma length_framed [simp]: "length (framed b) = 4 + length b"
  by (simp add: framed_def)

lemma framed_not_short: "\<not> length (framed b) < 4"
  by simp

lemma take_framed [simp]: "take 4 (framed b) = be32 (length b)" "drop 4 (framed b) = b"
  by (simp_all add: framed_def)

lemma small_frame: "length b \<le> max_response \<Longrightarrow> of_be32 (be32 (length b)) = length b"
  by (rule of_be32_be32) (simp add: max_response_def)

section \<open>The buffered reads\<close>

declare buffered_exact.simps [simp del]

lemma buffered_exact_None: "buffered_exact n buf pipe = None \<longleftrightarrow> length buf + length pipe < n"
  by (induction n buf pipe rule: buffered_exact.induct) (subst buffered_exact.simps, auto simp: buffer_size_def)

lemma buffered_exact_Some:
  "buffered_exact n buf pipe = Some (b, buf', pipe') \<Longrightarrow> b = take n (buf @ pipe) \<and> buf' @ pipe' = drop n (buf @ pipe)"
proof (induction n buf pipe arbitrary: b buf' pipe' rule: buffered_exact.induct)
  case (1 n buf pipe)
  show ?case
  proof (cases "n \<le> length buf")
    case True
    then show ?thesis using "1.prems" by (subst (asm) buffered_exact.simps) auto
  next
    case short: False
    show ?thesis
    proof (cases "buf = []")
      case False
      then obtain c where c: "buffered_exact (n - length buf) [] pipe = Some (c, buf', pipe')" "b = buf @ c"
        using "1.prems" short by (subst (asm) buffered_exact.simps) auto
      then show ?thesis using "1.IH"(1) [OF short False c(1)] short by simp
    next
      case True
      then show ?thesis
        using "1.prems" "1.IH"(2) short
        by (subst (asm) buffered_exact.simps) (auto simp: take_drop [symmetric] split: if_splits)
    qed
  qed
qed

lemma buffered_frame:
  assumes "pipe = framed b" "length b \<le> max_response"
  shows "\<exists>buf p. buffered_exact 4 [] pipe = Some (be32 (length b), buf, p) \<and>
    (\<exists>q. buffered_exact (length b) buf p = Some (b, q, []))"
proof -
  have "buffered_exact 4 [] pipe \<noteq> None" using assms by (simp add: buffered_exact_None del: not_None_eq)
  then obtain l buf p where 1: "buffered_exact 4 [] pipe = Some (l, buf, p)" by auto
  have l: "l = be32 (length b)" "buf @ p = b" using buffered_exact_Some [OF 1] assms by simp_all
  have "length buf + length p = length b" using l(2) by (metis length_append)
  then have "buffered_exact (length b) buf p \<noteq> None" by (simp add: buffered_exact_None del: not_None_eq)
  then obtain x q r where 2: "buffered_exact (length b) buf p = Some (x, q, r)" by auto
  have "x = b" "q @ r = []" using buffered_exact_Some [OF 2] l(2) by simp_all
  then show ?thesis using 1 2 l(1) by auto
qed

section \<open>Reading one answer\<close>

lemma read_answer_frame:
  assumes "ch_pipe ch = framed b" "ch_late ch = []" "length b \<le> max_response"
  shows "read_answer r ch = (Returned (Inr b), ch\<lparr>ch_pipe := []\<rparr>)"
proof -
  obtain buf p q where buf: "buffered_exact 4 [] (framed b) = Some (be32 (length b), buf, p)"
    "buffered_exact (length b) buf p = Some (b, q, [])"
    using buffered_frame [OF refl assms(3)] by blast
  show ?thesis
    using assms buf
    by (cases r) (simp_all add: read_answer_def read_unbuffered_def read_buffered_def read_pipe_def small_frame)
qed

lemma read_answer_cut:
  assumes "framed b = ch_pipe ch @ missing" "missing \<noteq> []" "ch_late ch = []" "ch_dead ch" "length b \<le> max_response"
  shows "\<exists>e c. read_answer r ch = (Returned (Inl e), c) \<and> ch_dead c \<and> ch_late c = []"
proof -
  have short: "length (ch_pipe ch) < 4 + length b"
    using arg_cong [OF assms(1), of length] assms(2) by (simp add: length_greater_0_conv [symmetric] del: length_greater_0_conv)
  have four: "take 4 (ch_pipe ch) = be32 (length b)" if "4 \<le> length (ch_pipe ch)"
    using arg_cong [OF assms(1), of "take 4"] that by simp
  show ?thesis
  proof (cases "4 \<le> length (ch_pipe ch)")
    case True
    have "buffered_exact 4 [] (ch_pipe ch) \<noteq> None" using True by (simp add: buffered_exact_None del: not_None_eq)
    then obtain l buf p where 1: "buffered_exact 4 [] (ch_pipe ch) = Some (l, buf, p)" by auto
    have l: "l = be32 (length b)" "buf @ p = drop 4 (ch_pipe ch)" using buffered_exact_Some [OF 1] four [OF True] by simp_all
    have "length buf + length p < length b" using arg_cong [OF l(2), of length] short True by simp
    then have 2: "buffered_exact (length b) buf p = None" by (simp add: buffered_exact_None)
    show ?thesis
      using assms True four short 1 2 l(1)
      by (cases r) (auto simp: read_answer_def read_unbuffered_def read_buffered_def read_pipe_def small_frame)
  next
    case False
    then have "buffered_exact 4 [] (ch_pipe ch) = None" by (simp add: buffered_exact_None)
    then show ?thesis
      using assms False by (cases r) (auto simp: read_answer_def read_unbuffered_def read_buffered_def read_pipe_def)
  qed
qed

section \<open>Any number of calls\<close>

fun exchanges :: "lambda_env \<Rightarrow> (reader \<times> bytes) list \<Rightarrow> lambda_client \<Rightarrow> bytes answer list \<times> lambda_client" where
  "exchanges env [] lc = ([], lc)"
| "exchanges env ((r, buf) # calls) lc =
     (case piped_exchange env r (Inr buf) lc of (a, l1) \<Rightarrow>
        (case exchanges env calls l1 of (as, l2) \<Rightarrow> (a # as, l2)))"

text \<open>A child that keeps to the protocol: it writes one frame per request, within the bound and in time, unless it dies
  over it, and then it may have written any part of the frame.\<close>

definition keeps_protocol :: "child_program \<Rightarrow> (nat \<Rightarrow> bytes \<Rightarrow> bytes) \<Rightarrow> bool" where
  "keeps_protocol prog reply = (\<forall>k f. sv_late (prog k f) = [] \<and> length (reply k f) \<le> max_response \<and>
     (sv_now (prog k f) = framed (reply k f) \<or>
      sv_dies (prog k f) \<and> (\<exists>missing. framed (reply k f) = sv_now (prog k f) @ missing)))"

definition in_step :: "nat \<Rightarrow> lambda_client \<Rightarrow> bool" where
  "in_step k lc = (\<not> lc_locked lc \<and> (\<exists>c. lc_child lc = Some c \<and> ch_late c = [] \<and>
     (ch_dead c \<or> ch_pipe c = [] \<and> ch_asked c = k)))"

lemma exchange_in_step:
  assumes "keeps_protocol (le_prog env) reply" "in_step k lc"
  shows "\<exists>a lc'. piped_exchange env r (Inr buf) lc = (a, lc') \<and> in_step (k + 1) lc' \<and>
    (a = Returned (Inr (reply k (framed buf))) \<or> (\<exists>e. a = Returned (Inl e) \<and> (\<exists>c. lc_child lc' = Some c \<and> ch_dead c)))"
proof -
  obtain c where c: "lc_child lc = Some c" "\<not> lc_locked lc" "ch_late c = []" "ch_dead c \<or> ch_pipe c = [] \<and> ch_asked c = k"
    using assms(2) by (auto simp: in_step_def)
  show ?thesis
  proof (cases "ch_dead c")
    case True
    then show ?thesis using c by (simp add: piped_exchange_def send_frame_def in_step_def)
  next
    case False
    let ?s = "le_prog env k (framed buf)" and ?b = "reply k (framed buf)"
    define c1 where "c1 = c\<lparr>ch_pipe := sv_now ?s, ch_late := sv_late ?s, ch_dead := sv_dies ?s, ch_asked := k + 1\<rparr>"
    have sent: "send_frame (le_prog env) buf c = (Inr (), c1)" using c False by (simp add: send_frame_def c1_def Let_def)
    have s: "sv_late ?s = []" "length ?b \<le> max_response"
      "sv_now ?s = framed ?b \<or> sv_dies ?s \<and> (\<exists>missing. framed ?b = sv_now ?s @ missing)"
      using assms(1) by (auto simp: keeps_protocol_def)
    have run: "piped_exchange env r (Inr buf) lc =
        (case read_answer r c1 of (a, c2) \<Rightarrow> (a, lc\<lparr>lc_child := Some c2, lc_locked := (a = Blocked)\<rparr>))"
      using c sent by (simp add: piped_exchange_def)
    show ?thesis
    proof (cases "sv_now ?s = framed ?b")
      case True
      then have "read_answer r c1 = (Returned (Inr ?b), c1\<lparr>ch_pipe := []\<rparr>)"
        using s by (intro read_answer_frame) (simp_all add: c1_def)
      then show ?thesis using run s by (simp add: in_step_def c1_def)
    next
      case cut: False
      then obtain missing where m: "sv_dies ?s" "framed ?b = sv_now ?s @ missing" using s(3) by blast
      then have "missing \<noteq> []" using cut by auto
      then obtain e c2 where "read_answer r c1 = (Returned (Inl e), c2)" "ch_dead c2" "ch_late c2 = []"
        using read_answer_cut [of ?b c1 missing r] m s by (auto simp: c1_def)
      then show ?thesis using run by (simp add: in_step_def)
    qed
  qed
qed

text \<open>C10. No call is answered with the answer to another.  Whatever calls are made of a child that keeps to the protocol, of whatever
  kind and in whatever order, every call returns, and what it returns is the child's answer to the very frame it sent or an error, the latter
  only once the child has died; a child that dies, even in the middle of an answer, never makes a call return wrong
  bytes.\<close>

theorem no_crosstalk:
  assumes "keeps_protocol (le_prog env) reply" "in_step k lc" "exchanges env calls lc = (answers, lc')"
  shows "length answers = length calls \<and>
    (\<forall>i < length calls. answers ! i = Returned (Inr (reply (k + i) (framed (snd (calls ! i))))) \<or>
       (\<exists>e. answers ! i = Returned (Inl e) \<and> (\<exists>c. lc_child lc' = Some c \<and> ch_dead c)))"
  using assms(2,3)
proof (induction calls arbitrary: k lc answers)
  case (Cons call calls)
  obtain r buf where call: "call = (r, buf)" by fastforce
  obtain a l1 where 1: "piped_exchange env r (Inr buf) lc = (a, l1)" "in_step (k + 1) l1"
    "a = Returned (Inr (reply k (framed buf))) \<or> (\<exists>e. a = Returned (Inl e) \<and> (\<exists>c. lc_child l1 = Some c \<and> ch_dead c))"
    using exchange_in_step [OF assms(1) Cons.prems(1)] by blast
  obtain as where 2: "exchanges env calls l1 = (as, lc')" "answers = a # as"
    using Cons.prems(2) 1(1) call by (auto split: prod.splits)
  note rest = Cons.IH [OF 1(2) 2(1)]
  have dead: "\<exists>c. lc_child lc' = Some c \<and> ch_dead c" if "\<exists>c. lc_child l1 = Some c \<and> ch_dead c"
    using that 1(2) 2(1)
  proof (induction calls arbitrary: l1 as)
    case (Cons x xs)
    then obtain c where "lc_child l1 = Some c" "ch_dead c" "ch_late c = []" "\<not> lc_locked l1" by (auto simp: in_step_def)
    then have "piped_exchange env (fst x) (Inr (snd x)) l1 = (Returned (Inl (IoError ''Broken pipe'')), l1)"
      by (simp add: piped_exchange_def send_frame_def)
    then show ?case using Cons by (cases x) (auto split: prod.splits)
  qed simp
  have "answers ! i = Returned (Inr (reply (k + i) (framed (snd ((call # calls) ! i))))) \<or>
      (\<exists>e. answers ! i = Returned (Inl e) \<and> (\<exists>c. lc_child lc' = Some c \<and> ch_dead c))" if "i < length (call # calls)" for i
  proof (cases i)
    case 0
    then show ?thesis using 1(3) 2(2) call dead by auto
  next
    case (Suc j)
    then show ?thesis using rest that 2(2) by auto
  qed
  then show ?case using rest 2(2) by simp
qed simp

definition echo_child :: child_program where
  "echo_child k f = \<lparr>sv_now = framed [char_of k], sv_late = [], sv_dies = False\<rparr>"

definition sample_lambda_env :: "child_program \<Rightarrow> lambda_env" where
  "sample_lambda_env prog = \<lparr>le_prog = prog, le_dial = (\<lambda>k. DialTimeout), le_encode = (\<lambda>r. Inr ''q''),
     le_decode = (\<lambda>b. Inr (FanOutDedupResult True)), le_uuid = (\<lambda>k. dec k)\<rparr>"

definition running_client :: lambda_client where
  "running_client = (with_mode Piped)\<lparr>lc_child := Some fresh_child\<rparr>"

lemma no_crosstalk_witness:
  "let out = exchanges (sample_lambda_env echo_child) [(Timed, ''a''), (Buffered, ''b'')] running_client in
   length (fst out) = 2 \<and> (fst out ! 1 = Returned (Inr [char_of (1 :: nat)]) \<or> (\<exists>c. lc_child (snd out) = Some c \<and> ch_dead c))"
proof -
  let ?env = "sample_lambda_env echo_child" and ?calls = "[(Timed, ''a''), (Buffered, ''b'')]"
  have p: "keeps_protocol (le_prog ?env) (\<lambda>k f. [char_of k])"
    by (simp add: keeps_protocol_def sample_lambda_env_def echo_child_def max_response_def)
  have i: "in_step 0 running_client" by (simp add: in_step_def running_client_def with_mode_def fresh_child_def)
  have "length ?calls = 2" "(1 :: nat) < length ?calls" by simp_all
  then show ?thesis
    using no_crosstalk [OF p i, of ?calls "fst (exchanges ?env ?calls running_client)" "snd (exchanges ?env ?calls running_client)"]
    unfolding Let_def by fastforce
qed

section \<open>A response over the bound\<close>

lemma read_answer_prefix:
  assumes "ch_pipe ch = framed x @ rest" "length x \<le> max_response"
  shows "fst (read_answer r ch) = Returned (Inr x)"
proof -
  let ?p = "ch_pipe ch @ ch_late ch"
  have "buffered_exact 4 [] ?p \<noteq> None" using assms by (simp add: buffered_exact_None del: not_None_eq)
  then obtain l buf p where 1: "buffered_exact 4 [] ?p = Some (l, buf, p)" by auto
  have l: "l = be32 (length x)" "buf @ p = x @ rest @ ch_late ch" using buffered_exact_Some [OF 1] assms by (simp_all add: framed_def)
  have "length x \<le> length buf + length p" using arg_cong [OF l(2), of length] by simp
  then have "buffered_exact (length x) buf p \<noteq> None" by (simp add: buffered_exact_None del: not_None_eq)
  then obtain b q p' where 2: "buffered_exact (length x) buf p = Some (b, q, p')" by auto
  have "b = x" using buffered_exact_Some [OF 2] l(2) by simp
  then show ?thesis
    using assms 1 2 l(1)
    by (cases r) (simp_all add: read_answer_def read_unbuffered_def read_buffered_def read_pipe_def small_frame framed_def)
qed

text \<open>C34. A response over the bound breaks the pipe for the calls that follow.  The call that is too large fails as it should, but
  its body stays in the pipe: when that body begins with a frame, the next call returns the content of that frame as its
  own answer, whatever the child answers to it.  This is the case of the calls that read the pipe itself; one
  that reads through a buffer of its own drops what is left in that buffer, and is not meant here.\<close>

theorem oversize_answers_next:
  assumes "in_step k lc" "lc_child lc = Some c" "\<not> ch_dead c" "r \<noteq> Buffered"
    and "le_prog env k (framed buf) = \<lparr>sv_now = framed body, sv_late = [], sv_dies = False\<rparr>"
    and "max_response < length body" "length body < 2 ^ 32"
    and "body = framed x @ rest" "length x \<le> max_response"
    and "exchanges env [(r, buf), (r', buf')] lc = (answers, lc')"
  shows "(\<exists>e. answers ! 0 = Returned (Inl e)) \<and> answers ! 1 = Returned (Inr x)"
proof -
  have c: "ch_late c = []" "ch_pipe c = []" "ch_asked c = k" "\<not> lc_locked lc"
    using assms(1,2,3) by (auto simp: in_step_def)
  define c1 where "c1 = c\<lparr>ch_pipe := framed body, ch_late := [], ch_dead := False, ch_asked := k + 1\<rparr>"
  define c2 where "c2 = c1\<lparr>ch_pipe := body\<rparr>"
  have 1: "\<exists>e. read_answer r c1 = (Returned (Inl e), c2)"
    using assms(4,6,7)
    by (cases r) (auto simp: read_answer_def read_unbuffered_def read_pipe_def of_be32_be32 c1_def c2_def)
  have first: "\<exists>e. piped_exchange env r (Inr buf) lc = (Returned (Inl e), lc\<lparr>lc_child := Some c2, lc_locked := False\<rparr>)"
    using 1 assms(2,3,5) c by (auto simp: piped_exchange_def send_frame_def c1_def)
  have second: "fst (piped_exchange env r' (Inr buf') (lc\<lparr>lc_child := Some c2, lc_locked := False\<rparr>)) = Returned (Inr x)"
  proof -
    obtain c3 where c3: "send_frame (le_prog env) buf' c2 = (Inr (), c3)" "ch_pipe c3 = body @ sv_now (le_prog env (k + 1) (framed buf'))"
      by (auto simp: send_frame_def c2_def c1_def Let_def)
    have "fst (read_answer r' c3) = Returned (Inr x)"
      by (rule read_answer_prefix [of _ _ "rest @ sv_now (le_prog env (k + 1) (framed buf'))"]) (use c3 assms(8,9) in simp_all)
    then show ?thesis using c3 by (cases "read_answer r' c3") (simp add: piped_exchange_def)
  qed
  show ?thesis
    using first second assms(10) by (auto split: prod.splits)
qed

lemma oversize_answers_next_witness:
  "let big = framed ''forged'' @ replicate max_response CHR ''x'';
       prog = (\<lambda>k f. \<lparr>sv_now = framed (if k = 0 then big else ''genuine''), sv_late = [], sv_dies = False\<rparr>) in
   fst (exchanges (sample_lambda_env prog) [(Timed, ''a''), (Plain, ''b'')] running_client) ! 1 = Returned (Inr ''forged'')"
proof -
  define big where "big = framed ''forged'' @ replicate max_response CHR ''x''"
  define prog :: child_program where
    "prog = (\<lambda>k f. \<lparr>sv_now = framed (if k = 0 then big else ''genuine''), sv_late = [], sv_dies = False\<rparr>)"
  have len: "length big = 10 + max_response" by (simp add: big_def)
  have i: "in_step 0 running_client" "lc_child running_client = Some fresh_child"
    by (simp_all add: in_step_def running_client_def with_mode_def fresh_child_def)
  have p: "le_prog (sample_lambda_env prog) 0 (framed ''a'') = \<lparr>sv_now = framed big, sv_late = [], sv_dies = False\<rparr>"
    by (simp add: sample_lambda_env_def prog_def)
  have "fst (exchanges (sample_lambda_env prog) [(Timed, ''a''), (Plain, ''b'')] running_client) ! 1 = Returned (Inr ''forged'')"
    using oversize_answers_next [OF i _ _ p, where r = Timed and r' = Plain and buf' = "''b''" and x = "''forged''"
        and rest = "replicate max_response CHR ''x''"
        and answers = "fst (exchanges (sample_lambda_env prog) [(Timed, ''a''), (Plain, ''b'')] running_client)"
        and lc' = "snd (exchanges (sample_lambda_env prog) [(Timed, ''a''), (Plain, ''b'')] running_client)"] len
    by (simp add: fresh_child_def big_def max_response_def)
  then show ?thesis unfolding Let_def prog_def big_def .
qed

section \<open>TLS\<close>

lemma fst_on_bytes: "fst (on_bytes f x) = (case fst x of Returned r \<Rightarrow> Returned (res_bind r f) | Blocked \<Rightarrow> Blocked)"
  by (cases "(f, x)" rule: on_bytes.cases) simp_all

text \<open>C35. Only witness requests are protected by TLS.  On a client that is configured with TLS the other calls behave exactly as on one
  without: the same frame goes to the same address in the clear and the answer is taken unauthenticated; only the witness call
  depends on the handshake, and it never falls back to plain text.\<close>

theorem tls_only_witness:
  "fst (send_genesis_dev_request env i pk bal members auth (with_mode (TcpTo a t (Some sni)))) =
     fst (send_genesis_dev_request env i pk bal members auth (with_mode (TcpTo a t None))) \<and>
   fst (send_redeem_request env redeem (with_mode (TcpTo a t (Some sni)))) = fst (send_redeem_request env redeem (with_mode (TcpTo a t None))) \<and>
   fst (send_ack_request env ack (with_mode (TcpTo a t (Some sni)))) = fst (send_ack_request env ack (with_mode (TcpTo a t None))) \<and>
   fst (send_raw_request env req (with_mode (TcpTo a t (Some sni)))) = fst (send_raw_request env req (with_mode (TcpTo a t None))) \<and>
   (case le_dial env 0 of
      Dialed shake talk \<Rightarrow> fst (send_witness_request env w (with_mode (TcpTo a t (Some sni)))) =
        fst (send_witness_request (env\<lparr>le_dial := (\<lambda>k. Dialed shake (\<lambda>tls. talk True))\<rparr>) w (with_mode (TcpTo a t (Some sni))))
    | d \<Rightarrow> \<not> (\<exists>x. fst (send_witness_request env w (with_mode (TcpTo a t (Some sni)))) = Returned (Inr x)))"
proof -
  have same: "fst (exchange env (\<lambda>_. over_tcp) over_pipe (with_mode (TcpTo a t (Some sni)))) =
      fst (exchange env (\<lambda>_. over_tcp) over_pipe (with_mode (TcpTo a t None)))" for over_tcp over_pipe
    by (simp add: exchange_def with_mode_def)
  have parse_same: "parse_witness_response (env\<lparr>le_dial := d\<rparr>) = parse_witness_response env" for d
    by (rule ext) (simp add: parse_witness_response_def ipc_decode_def)
  have witness: "case le_dial env 0 of
      Dialed shake talk \<Rightarrow> fst (send_witness_request env w (with_mode (TcpTo a t (Some sni)))) =
        fst (send_witness_request (env\<lparr>le_dial := (\<lambda>k. Dialed shake (\<lambda>tls. talk True))\<rparr>) w (with_mode (TcpTo a t (Some sni))))
    | d \<Rightarrow> \<not> (\<exists>x. fst (send_witness_request env w (with_mode (TcpTo a t (Some sni)))) = Returned (Inr x))"
    by (auto simp: send_witness_request_def parse_same fst_on_bytes exchange_defs tcp_exchange_def with_mode_def
        ipc_encode_def Let_def split: sum.split dial.split)
  show ?thesis
    using witness by (simp add: send_genesis_dev_request_def send_redeem_request_def send_ack_request_def send_raw_request_def
        fst_on_bytes same Let_def split: sum.split)
qed

end
