(* ===== verification/StartupPromises.thy ===== *)
theory StartupPromises
  imports Startup LambdaSync
begin

text \<open>
  What a start of the gateway promises: it stops on every part that is configured and cannot be had, and once it runs, its
  tasks are the configured ones.
\<close>

section \<open>Steps\<close>

lemma then_step_Inr: "then_step m f w = (Inr b, w2) \<longleftrightarrow> (\<exists>a w1. m w = (Inr a, w1) \<and> f a w1 = (Inr b, w2))"
  by (auto simp: then_step_def split: prod.splits sum.splits)

lemma pure_step_Inr: "pure_step r w = (Inr b, w2) \<longleftrightarrow> r = Inr b \<and> w2 = w"
  by (auto simp: pure_step_def)

lemmas step_simps = then_step_Inr pure_step_Inr

lemma open_outboxes_set:
  "open_outboxes opened rs w = (Inr out, w') \<Longrightarrow> set out = set opened \<union> rt_outbox ` set rs"
proof (induction rs arbitrary: opened w)
  case (Cons r rs)
  show ?case
  proof (cases "rt_outbox r \<in> set opened")
    case True
    then show ?thesis using Cons by (auto simp: insert_absorb)
  next
    case False
    then obtain w1 where "open_outboxes (opened @ [rt_outbox r]) rs w1 = (Inr out, w')"
      using Cons.prems by (auto simp: io_bind_Inr)
    then show ?thesis using Cons.IH by fastforce
  qed
qed (simp add: io_return_def)

lemma routed_new_set: "routed_new inbox ob w = (Inr opened, w') \<Longrightarrow> set opened = rt_outbox ` set (ob_route ob)"
  using open_outboxes_set [of "[]" "ob_route ob" w]
  by (auto simp: routed_new_def via_io_def io_bind_Inr io_return_def map_err_Inr split: prod.splits)

lemma outbox_for_listed: "outbox_for ob to = Inr (Some dir) \<Longrightarrow> dir \<in> rt_outbox ` set (ob_route ob)"
  by (auto simp: outbox_for_def Let_def find_Some_iff split: if_splits option.splits prod.splits)

lemma skip_open_cases: "skip_maybe_open slp sdp w = (Inr skip, w') \<Longrightarrow> skip \<noteq> None \<longleftrightarrow> slp \<noteq> None \<and> sdp \<noteq> None"
  by (auto simp: skip_maybe_open_def split: option.splits prod.splits sum.splits)

lemma open_sender_cases:
  "open_sender c w = (Inr (choice, opened), w') \<Longrightarrow> choose_sender c = Inr choice \<and>
     (case choice of UseRoutes inbox \<Rightarrow> set opened = rt_outbox ` set (ob_route (ac_outbound c)) | _ \<Rightarrow> opened = [])"
proof -
  assume run: "open_sender c w = (Inr (choice, opened), w')"
  then obtain ch where ch: "choose_sender c = Inr ch" by (auto simp: open_sender_def step_simps)
  show ?thesis using run by (cases ch) (auto simp: open_sender_def step_simps ch dest: routed_new_set)
qed

lemma decryptor_cases: "load_decryptor env v w = (Inr d, w') \<Longrightarrow> d \<noteq> None \<longleftrightarrow> vc_private_key_path v \<noteq> None"
  by (auto simp: load_decryptor_def step_simps res_bind_Inr split: option.splits prod.splits)

lemma uncle_cases: "open_uncle ob w = (Inr u, w') \<Longrightarrow> u = ob_uncle ob"
  by (auto simp: open_uncle_def uncle_new_def step_simps split: option.splits)

lemma client_cases:
  "client_of_config roots name_ok c = Inr lc \<Longrightarrow> lc_child lc = None \<and> \<not> lc_locked lc \<and>
     lc_transport lc = (case c of LcTcp a t sni ca \<Rightarrow> TcpTo a t sni | LcSubprocess b p \<Rightarrow> Piped)"
  by (auto simp: client_of_config_def new_tcp_def new_subprocess_def new_tcp_tls_def with_mode_def res_bind_Inr
      split: lambda_config.splits option.splits)

text \<open>C17. A gateway that starts has everything its configuration names, and one that cannot have it does not start: the carriers are
  valid, the AVM file exists and loads, the skip list is there exactly when both its paths are, the envelope key exactly when a key
  path is, Lambda is reached the configured way, through TLS exactly when a server name is given, and when a routing table is configured the
  sender is the table and the outbox of every route is open, so no reply that the table can place fails for
  want of its directory.\<close>

theorem startup_complete:
  assumes "gateway_new env c w = (Inr g, w')"
  shows "validate_carriers (ac_carriers c) = Inr () \<and> bg_config g = c \<and> bg_running g \<and> bg_uncle g = ob_uncle (ac_outbound c) \<and>
    sx_exists env (avm_elf_path (sx_avm_var env) (ac_core c)) \<and>
    is_ok (sx_load_avm env (avm_elf_path (sx_avm_var env) (ac_core c))) \<and>
    (bg_skip g \<noteq> None \<longleftrightarrow> ac_skip_list_path c \<noteq> None \<and> ac_skipped_dir_path c \<noteq> None) \<and>
    (bg_decryptor g \<noteq> None \<longleftrightarrow> vc_private_key_path (ac_validator c) \<noteq> None) \<and>
    lc_transport (bg_lambda g) = (case ac_lambda c of LcTcp a t sni ca \<Rightarrow> TcpTo a t sni | LcSubprocess b p \<Rightarrow> Piped) \<and>
    choose_sender c = Inr (bg_sender g) \<and>
    (\<forall>to dir. ob_route (ac_outbound c) \<noteq> [] \<and> outbox_for (ac_outbound c) to = Inr (Some dir) \<longrightarrow> dir \<in> set (bg_opened g))"
proof -
  obtain skip choice opened fp lambda d u w1 w2 w3 w4 where
    v: "validate_carriers (ac_carriers c) = Inr ()" and
    skip: "skip_maybe_open (ac_skip_list_path c) (ac_skipped_dir_path c) w = (Inr skip, w1)" and
    sender: "open_sender c w1 = (Inr (choice, opened), w2)" and
    avm: "load_avm env (avm_elf_path (sx_avm_var env) (ac_core c)) = Inr fp" and
    lambda: "client_of_config (sx_roots env) (sx_name_ok env) (ac_lambda c) = Inr lambda" and
    dec: "load_decryptor env (ac_validator c) w2 = (Inr d, w3)" and
    unc: "open_uncle (ac_outbound c) w3 = (Inr u, w4)" and
    g: "bg_config g = c" "bg_running g" "bg_uncle g = u" "bg_skip g = skip" "bg_decryptor g = d" "bg_lambda g = lambda"
      "bg_sender g = choice" "bg_opened g = opened"
    using assms by (auto simp: gateway_new_def step_simps)
  have elf: "sx_exists env (avm_elf_path (sx_avm_var env) (ac_core c))"
    "is_ok (sx_load_avm env (avm_elf_path (sx_avm_var env) (ac_core c)))"
    using avm by (auto simp: load_avm_def map_err_Inr is_ok_iff split: if_splits)
  have routes: "dir \<in> set opened" if r: "ob_route (ac_outbound c) \<noteq> []" "outbox_for (ac_outbound c) to = Inr (Some dir)" for to dir
  proof -
    obtain inbox where "choice = UseRoutes inbox"
      using open_sender_cases [OF sender] r(1) by (auto simp: choose_sender_def split: option.splits)
    then show ?thesis using open_sender_cases [OF sender] outbox_for_listed [OF r(2)] by simp
  qed
  show ?thesis
    using v g elf skip_open_cases [OF skip] decryptor_cases [OF dec] uncle_cases [OF unc] client_cases [OF lambda]
      open_sender_cases [OF sender] routes by auto
qed

section \<open>Tasks\<close>

lemma enabled_mem: "(i, a) \<in> set (enabled_with_index on xs) \<longleftrightarrow> i < length xs \<and> xs ! i = a \<and> on a"
  by (auto simp: enabled_with_index_def in_set_enumerate_eq)

lemma exchange_keeps:
  "piped_exchange env r encoded lc = (a, lc') \<Longrightarrow> lc_uris lc' = lc_uris lc \<and> (lc_child lc' = None \<longleftrightarrow> lc_child lc = None)"
  by (auto simp: piped_exchange_def split: if_splits option.splits sum.splits prod.splits)

lemma set_carriers_keeps:
  assumes "send_set_carriers_request env i uris lc = (a, lc')"
  shows "lc_uris lc' = Some uris \<and> (lc_child lc' = None \<longleftrightarrow> lc_child lc = None)"
proof -
  have on: "lc_uris (snd (on_bytes f x)) = lc_uris (snd x) \<and> lc_child (snd (on_bytes f x)) = lc_child (snd x)" for f x
    by (cases "(f, x)" rule: on_bytes.cases) simp_all
  obtain a1 lc1 where 1: "send_raw_request env (ReqSetCarriers i uris) (lc\<lparr>lc_uris := Some uris\<rparr>) = (a1, lc1)" by fastforce
  have "lc_uris lc1 = Some uris \<and> (lc_child lc1 = None \<longleftrightarrow> lc_child lc = None)"
    using 1 exchange_keeps [of env Timed _ "lc\<lparr>lc_uris := Some uris\<rparr>" a1 lc1]
    by (auto simp: send_raw_request_def exchange_def split: sum.splits transport.splits)
  then show ?thesis
    using assms 1 on [of _ "(a1, lc1)"] unfolding send_set_carriers_request_def send_expecting_def by (metis snd_conv)
qed

lemma started_child:
  "start_lambda se b p (lc, alive) = (Inr (), lc', alive') \<Longrightarrow> lc_transport lc' = lc_transport lc \<and> (lc_transport lc = Piped \<longrightarrow> lc_child lc' \<noteq> None)"
proof -
  assume run: "start_lambda se b p (lc, alive) = (Inr (), lc', alive')"
  obtain r c where sp: "spawn_child_into se b p (lc_child lc) = (r, c)" by fastforce
  have "is_ok r \<Longrightarrow> c = Some fresh_child"
    using sp by (auto simp: spawn_child_into_def Let_def is_ok_iff split: sum.splits)
  then show ?thesis using run sp by (cases r) (auto simp: start_lambda_def split: if_splits)
qed

lemma arm_cases:
  "arm_backpressure le c s = (poller, s') \<Longrightarrow>
     poller = (if 0 < pf_busy_threshold_ms (ac_performance c) \<and> resolve_lambda_admin_port le c \<noteq> None
       then [StatsPoller (the (resolve_lambda_admin_port le c)) (resolve_lambda_admin_token le c) (pf_lambda_stats_poll_ms (ac_performance c))]
       else [])"
  by (auto simp: arm_backpressure_def split: if_splits option.splits)

lemma carrier_tasks_set: "set (carrier_tasks c) = MaildirCarrier ` set_option (cc_maildir c) \<union>
    {ImapCarrier a i | a i. i < length (cc_imap c) \<and> cc_imap c ! i = a \<and> im_enabled a} \<union>
    {Pop3Carrier a i | a i. i < length (cc_pop3 c) \<and> cc_pop3 c ! i = a \<and> pp_enabled a}"
proof -
  have "(\<lambda>(i, a). ImapCarrier a i) ` set (enabled_with_index im_enabled xs) =
      {ImapCarrier a i | a i. i < length xs \<and> xs ! i = a \<and> im_enabled a}" for xs
    using enabled_mem [of _ _ im_enabled xs] by (force simp: image_iff)
  moreover have "(\<lambda>(i, a). Pop3Carrier a i) ` set (enabled_with_index pp_enabled xs) =
      {Pop3Carrier a i | a i. i < length xs \<and> xs ! i = a \<and> pp_enabled a}" for xs
    using enabled_mem [of _ _ pp_enabled xs] by (force simp: image_iff)
  ultimately show ?thesis by (cases "cc_maildir c") (simp_all add: carrier_tasks_def Un_assoc)
qed

lemma carrier_tasks_distinct: "distinct (carrier_tasks c)"
proof -
  have d: "distinct (enabled_with_index on xs)" for on xs
    by (simp add: enabled_with_index_def distinct_enumerate)
  have i: "inj_on (\<lambda>(i, a). ImapCarrier a i) X" "inj_on (\<lambda>(i, a). Pop3Carrier a i) Y" for X Y
    by (auto intro!: inj_onI)
  show ?thesis
    by (cases "cc_maildir c") (auto simp: carrier_tasks_def distinct_map d i)
qed

text \<open>The tasks of a start that succeeds, and the client it leaves.\<close>

lemma run_start:
  assumes "gateway_run se env le pid (g, alive) = (RunStarted tasks, g', alive')"
  shows "\<exists>poller. tasks = [SuperviseLambda, ServeHealth (ac_health_port (bg_config g)) (ac_health_token (bg_config g))] @
      carrier_tasks (ac_carriers (bg_config g)) @ [StallWatchdog (ac_on_stall (bg_config g))] @
      (case cc_maildir (ac_carriers (bg_config g)) of Some md \<Rightarrow> [OldestScan (path_join (mc_inbox md) ''new'')] | None \<Rightarrow> []) @
      (if bg_skip g \<noteq> None then [SkippedCount] else []) @ poller \<and>
    (\<exists>s s'. arm_backpressure le (bg_config g) s = (poller, s')) \<and>
    (lc_transport (bg_lambda g) = Piped \<longrightarrow> lc_child (bg_lambda g') \<noteq> None) \<and>
    lc_uris (bg_lambda g') = Some (to_uri_list (ac_carriers (bg_config g)) (ac_identity_email (bg_config g)))"
proof -
  let ?c = "bg_config g"
  let ?b = "fst (lambda_paths (ac_lambda ?c))" and ?p = "snd (lambda_paths (ac_lambda ?c))"
  let ?uris = "to_uri_list (ac_carriers ?c) (ac_identity_email ?c)"
  obtain r lc alive1 where st: "start_lambda se ?b ?p (bg_lambda g, alive) = (r, lc, alive1)" by (metis surj_pair)
  obtain a lc1 where push: "send_set_carriers_request env (''set-carriers-startup-'' @ dec pid) ?uris lc = (a, lc1)" by fastforce
  let ?s = "(bg_stats g)\<lparr>st_active_carriers := active_carriers (ac_carriers ?c)\<rparr>"
  obtain poller s2 where arm: "arm_backpressure le ?c ?s = (poller, s2)" by fastforce
  obtain u where v: "validate_carriers (ac_carriers ?c) = Inr u"
    using assms by (cases "validate_carriers (ac_carriers ?c)") (simp_all add: gateway_run_def)
  obtain u' where r: "r = Inr u'" using assms st v by (cases r) (simp_all add: gateway_run_def)
  obtain q where a: "a = Returned q" using assms st v r push by (cases a) (simp_all add: gateway_run_def)
  have out: "tasks = [SuperviseLambda, ServeHealth (ac_health_port ?c) (ac_health_token ?c)] @
      carrier_tasks (ac_carriers ?c) @ [StallWatchdog (ac_on_stall ?c)] @
      (case cc_maildir (ac_carriers ?c) of Some md \<Rightarrow> [OldestScan (path_join (mc_inbox md) ''new'')] | None \<Rightarrow> []) @
      (if bg_skip g \<noteq> None then [SkippedCount] else []) @ poller" "bg_lambda g' = lc1"
    using assms st v r push a arm by (auto simp: gateway_run_def Let_def)
  have "lc_transport (bg_lambda g) = Piped \<longrightarrow> lc_child lc \<noteq> None" using started_child st r by fastforce
  then show ?thesis using out arm set_carriers_keeps [OF push] by auto
qed

text \<open>C24. A gateway that runs watches what it was configured to watch, and nothing else: its tasks are, each once, the supervision of
  Lambda, one health endpoint, on the configured port and with the configured token, the stall watchdog with the configured
  reaction, the configured Maildir with the scan of its own inbox for old messages, one task for every enabled account under its
  position in the configuration, the count of the skip list when there is one, and, when backpressure is enabled and the admin port of
  this validator's own Lambda is known, one poller of its statistics, on that port, with the token that goes with it and at
  the configured interval; without a known port none, since a guessed one is another validator's.  By then the child of Lambda
  is there and the carrier list has been handed to the client, which pushes it again to every child that replaces it.\<close>

theorem run_arms:
  assumes "gateway_run se env le pid (g, alive) = (RunStarted tasks, g', alive')"
  shows "let c = bg_config g; cs = ac_carriers c; pf = ac_performance c in distinct tasks \<and>
    set tasks = {SuperviseLambda, ServeHealth (ac_health_port c) (ac_health_token c), StallWatchdog (ac_on_stall c)} \<union>
      {MaildirCarrier md | md. cc_maildir cs = Some md} \<union>
      {OldestScan (path_join (mc_inbox md) ''new'') | md. cc_maildir cs = Some md} \<union>
      {ImapCarrier a i | a i. i < length (cc_imap cs) \<and> cc_imap cs ! i = a \<and> im_enabled a} \<union>
      {Pop3Carrier a i | a i. i < length (cc_pop3 cs) \<and> cc_pop3 cs ! i = a \<and> pp_enabled a} \<union>
      (if bg_skip g \<noteq> None then {SkippedCount} else {}) \<union>
      {StatsPoller port (resolve_lambda_admin_token le c) (pf_lambda_stats_poll_ms pf) | port.
        0 < pf_busy_threshold_ms pf \<and> resolve_lambda_admin_port le c = Some port} \<and>
    (lc_transport (bg_lambda g) = Piped \<longrightarrow> lc_child (bg_lambda g') \<noteq> None) \<and>
    lc_uris (bg_lambda g') = Some (to_uri_list cs (ac_identity_email c))"
proof -
  let ?c = "bg_config g"
  obtain poller s s' where tasks: "tasks = [SuperviseLambda, ServeHealth (ac_health_port ?c) (ac_health_token ?c)] @
      carrier_tasks (ac_carriers ?c) @ [StallWatchdog (ac_on_stall ?c)] @
      (case cc_maildir (ac_carriers ?c) of Some md \<Rightarrow> [OldestScan (path_join (mc_inbox md) ''new'')] | None \<Rightarrow> []) @
      (if bg_skip g \<noteq> None then [SkippedCount] else []) @ poller"
    and arm: "arm_backpressure le ?c s = (poller, s')"
    and client: "lc_transport (bg_lambda g) = Piped \<longrightarrow> lc_child (bg_lambda g') \<noteq> None"
      "lc_uris (bg_lambda g') = Some (to_uri_list (ac_carriers ?c) (ac_identity_email ?c))"
    using run_start [OF assms] by blast
  note poller = arm_cases [OF arm]
  have "distinct tasks"
    unfolding tasks poller using carrier_tasks_distinct [of "ac_carriers ?c"]
    by (auto simp: carrier_tasks_set split: option.splits)
  moreover have "set poller = {StatsPoller port (resolve_lambda_admin_token le ?c) (pf_lambda_stats_poll_ms (ac_performance ?c)) | port.
      0 < pf_busy_threshold_ms (ac_performance ?c) \<and> resolve_lambda_admin_port le ?c = Some port}"
    unfolding poller by auto
  ultimately show ?thesis
    using client unfolding tasks Let_def set_append carrier_tasks_set
    by (cases "cc_maildir (ac_carriers ?c)") (simp_all add: insert_commute Un_ac)
qed

section \<open>A start to evaluate\<close>

definition sample_startup :: startup_env where
  "sample_startup = \<lparr>sx_avm_var = None, sx_exists = (\<lambda>p. p = ''./axiom-core.elf''), sx_load_avm = (\<lambda>p. Inr ''0123456789abcdef''),
     sx_roots = (\<lambda>p. Inr ()), sx_name_ok = (\<lambda>n. Inr ()), sx_verifying = (\<lambda>s. s), sx_to_x25519 = (\<lambda>s. s), sx_unix = 7\<rparr>"

definition sample_account :: "bool \<Rightarrow> imap_config" where
  "sample_account on = \<lparr>im_enabled = on, im_server = ''imap.x.org'', im_port = 993, im_username = ''v@x.org'', im_password = ''p'',
     im_use_tls = True, im_inbox_folder = ''INBOX'', im_use_idle = True\<rparr>"

text \<open>Two accounts, the first disabled; three routes into two outboxes.\<close>

definition routed_config :: antie_config where
  "routed_config = default_config\<lparr>
     ac_carriers := no_carriers\<lparr>cc_maildir := Some \<lparr>mc_inbox = ''in'', mc_outbox = ''out''\<rparr>,
       cc_imap := [sample_account False, sample_account True]\<rparr>,
     ac_outbound := default_outbound\<lparr>ob_route := [\<lparr>rt_domain = ''axiom'', rt_outbox = ''o1''\<rparr>,
       \<lparr>rt_domain = ''x.org'', rt_outbox = ''o2''\<rparr>, \<lparr>rt_domain = ''y.org'', rt_outbox = ''o1''\<rparr>]\<rparr>,
     ac_lambda := LcTcp ''l:1'' 3 None None,
     ac_performance := \<lparr>pf_busy_threshold_ms = 5, pf_lambda_stats_poll_ms = 2, pf_lambda_admin_port = Some 9,
       pf_lambda_admin_token = Some ''t''\<rparr>\<rparr>"

lemma sample_start: "is_ok (fst (gateway_new sample_startup routed_config no_files))"
  by code_simp

lemma startup_complete_witness:
  "case gateway_new sample_startup routed_config no_files of
     (Inl e, w') \<Rightarrow> False
   | (Inr g, w') \<Rightarrow> ''o2'' \<in> set (bg_opened g) \<and> bg_skip g = None \<and> lc_transport (bg_lambda g) = TcpTo ''l:1'' 3 None"
proof -
  obtain g w' where run: "gateway_new sample_startup routed_config no_files = (Inr g, w')"
    using sample_start by (cases "gateway_new sample_startup routed_config no_files") (auto simp: is_ok_iff)
  have c: "outbox_for (ac_outbound routed_config) ''a@x.org'' = Inr (Some ''o2'')" "ob_route (ac_outbound routed_config) \<noteq> []"
    "ac_skip_list_path routed_config = None" "ac_lambda routed_config = LcTcp ''l:1'' 3 None None"
    by code_simp+
  show ?thesis using startup_complete [OF run] run c by auto
qed

definition sample_spawn :: spawn_env where
  "sample_spawn = \<lparr>sp_log_var = None, sp_open_log = (\<lambda>p. Inr ()), sp_clone_log = Inr (), sp_spawn = (\<lambda>b c. Inr ())\<rparr>"

definition sample_built :: built_gateway where
  "sample_built = \<lparr>bg_config = routed_config, bg_sender = UseRoutes ''in'', bg_opened = [''o1'', ''o2''], bg_uncle = None,
     bg_stats = new_stats 7, bg_lambda = new_tcp ''l:1'' 3, bg_running = True, bg_cooldown_ms = 2000, bg_decryptor = None, bg_skip = None\<rparr>"

text \<open>Lambda cannot be reached: the push fails, is logged, and the gateway runs all the same.\<close>

lemma sample_run:
  "fst (gateway_run sample_spawn (sample_lambda_env echo_child) (example_env routed_config) 42 (sample_built, True)) =
     RunStarted [SuperviseLambda, ServeHealth 7779 None, MaildirCarrier \<lparr>mc_inbox = ''in'', mc_outbox = ''out''\<rparr>,
       ImapCarrier (sample_account True) 1, StallWatchdog NotifyOnly, OldestScan ''in/new'', StatsPoller 9 (Some ''t'') 2]"
  by code_simp

lemma run_arms_witness:
  "case gateway_run sample_spawn (sample_lambda_env echo_child) (example_env routed_config) 42 (sample_built, True) of
     (RunStarted tasks, g', alive') \<Rightarrow> ImapCarrier (sample_account False) 0 \<notin> set tasks \<and> ImapCarrier (sample_account True) 1 \<in> set tasks \<and>
       OldestScan ''in/new'' \<in> set tasks \<and> SkippedCount \<notin> set tasks \<and> StatsPoller 9 (Some ''t'') 2 \<in> set tasks \<and>
       lc_uris (bg_lambda g') = Some [''email:validator@axiom.local'']
   | _ \<Rightarrow> False"
proof -
  obtain tasks g' alive' where run: "gateway_run sample_spawn (sample_lambda_env echo_child) (example_env routed_config) 42 (sample_built, True) =
      (RunStarted tasks, g', alive')"
    using sample_run by (cases "gateway_run sample_spawn (sample_lambda_env echo_child) (example_env routed_config) 42 (sample_built, True)") auto
  have c: "cc_imap (ac_carriers (bg_config sample_built)) = [sample_account False, sample_account True]" "\<not> im_enabled (sample_account False)"
    "im_enabled (sample_account True)" "bg_skip sample_built = None"
    "cc_maildir (ac_carriers (bg_config sample_built)) = Some \<lparr>mc_inbox = ''in'', mc_outbox = ''out''\<rparr>"
    "to_uri_list (ac_carriers (bg_config sample_built)) (ac_identity_email (bg_config sample_built)) = [''email:validator@axiom.local'']"
    by (simp_all add: sample_built_def routed_config_def sample_account_def default_config_def to_uri_list_def no_carriers_def)
  have p: "0 < pf_busy_threshold_ms (ac_performance (bg_config sample_built))" "pf_lambda_stats_poll_ms (ac_performance (bg_config sample_built)) = 2"
    "resolve_lambda_admin_port (example_env routed_config) (bg_config sample_built) = Some 9"
    "resolve_lambda_admin_token (example_env routed_config) (bg_config sample_built) = Some ''t''" "path_join ''in'' ''new'' = ''in/new''"
    by code_simp+
  show ?thesis
    using run_arms [OF run] run c(2-) p unfolding Let_def c(1) by (auto simp: nth_Cons' split: if_splits)
qed

end
