(* ===== verification/Program.thy ===== *)
theory Program
  imports StartupPromises
begin

text \<open>
  The program antie (\<open>antie/src/main.rs\<close>): what a command line makes it do, the example files, \<open>--init-maildir\<close>,
  \<open>AntieConfig::save\<close> (\<open>antie/src/config.rs\<close>) and the trimming of the heap (\<open>antie/src/malloc_trim.rs\<close>).  The TOML printer
  and the allocator are parameters.
\<close>

section \<open>Trimming the heap\<close>

definition trim_default_interval :: nat where
  "trim_default_interval = 60"

text \<open>The period in seconds, from the variable; nothing is spawned for 0.\<close>

definition trim_spawn_periodic :: "string option \<Rightarrow> nat option" where
  "trim_spawn_periodic var =
     (let secs = (case Option.bind var (parse_uint 64) of Some n \<Rightarrow> n | None \<Rightarrow> trim_default_interval) in
      if secs = 0 then None else Some secs)"

text \<open>What the allocator answers to the trims up to a time: the first tick of the interval is skipped.\<close>

definition trim_results :: "(nat \<Rightarrow> int) \<Rightarrow> nat \<Rightarrow> nat \<Rightarrow> int list" where
  "trim_results malloc_trim secs elapsed = map (\<lambda>k. malloc_trim (k * secs)) [1..<Suc (elapsed div secs)]"

text \<open>The handler of SIGUSR1, for the times the signal comes; wiring it may fail, which \<open>main\<close> only logs.\<close>

definition trim_on_signals :: "(nat \<Rightarrow> int) \<Rightarrow> string + unit \<Rightarrow> nat list \<Rightarrow> string + int list" where
  "trim_on_signals malloc_trim wired signals = res_bind wired (\<lambda>_. Inr (map malloc_trim signals))"

section \<open>Generated files\<close>

record cli =
  cl_config :: "string option"
  cl_generate_config :: bool
  cl_pop3 :: bool
  cl_imap :: bool
  cl_tcp :: bool
  cl_all :: bool
  cl_init_maildir :: "string option"
  cl_lambda :: "string option"

definition generated_example :: "cli \<Rightarrow> string \<times> antie_config" where
  "generated_example cli =
     (if cl_imap cli then (''# ANTIE IMAP + SMTP Config Example'', imap_example)
      else if cl_pop3 cli then (''# ANTIE POP3 + SMTP Config Example'', pop3_example)
      else if cl_tcp cli then (''# ANTIE Maildir + Advertise (TOT/FATMAMA) Config Example'', advertise_example)
      else if cl_all cli then (''# ANTIE All-Carriers Config Example (kappa node)'', all_carriers_example)
      else (''# ANTIE Default Configuration (Maildir)'', default_config))"

definition save_config :: "(antie_config \<Rightarrow> string + string) \<Rightarrow> antie_config \<Rightarrow> string \<Rightarrow> unit step" where
  "save_config print c path =
     then_step (pure_step (map_err ConfigError (print c))) (\<lambda>content. via_io (fs_write path content))"

definition init_maildir :: "(antie_config \<Rightarrow> string + string) \<Rightarrow> (string \<Rightarrow> bool) \<Rightarrow> string \<Rightarrow> unit step" where
  "init_maildir print exists_file path =
     then_step (via_io (init_maildir_dirs path)) (\<lambda>_.
     save_config print (init_maildir_config exists_file path) (path_join path ''antie.toml''))"

section \<open>The banner\<close>

text \<open>Bars, uprights and arrows are single characters of three bytes; \<open>paint\<close> is the colouring of the terminal.\<close>

type_synonym byte_triple = "nat \<times> nat \<times> nat"

definition box :: "byte_triple \<Rightarrow> string" where
  "box t = (case t of (a, b, c) \<Rightarrow> byte_str [a, b, c])"

definition arrow :: string where
  "arrow = box (0xE2, 0x86, 0x92)"

definition banner_bar :: "byte_triple \<Rightarrow> byte_triple \<Rightarrow> string" where
  "banner_bar l r = box l @ concat (replicate 59 (box (0xE2, 0x95, 0x90))) @ box r"

definition banner_row :: "string \<Rightarrow> string" where
  "banner_row t = box (0xE2, 0x95, 0x91) @ t @ box (0xE2, 0x95, 0x91)"

definition account_line :: "string \<Rightarrow> string \<Rightarrow> nat \<Rightarrow> string \<Rightarrow> bool \<Rightarrow> string" where
  "account_line kind server port username enabled =
     kind @ server @ '':'' @ dec port @ '' user='' @ username @ (if enabled then [] else ''  (disabled)'')"

definition print_banner :: "(string \<Rightarrow> string \<Rightarrow> string) \<Rightarrow> antie_config \<Rightarrow> string list" where
  "print_banner paint c =
     [[], paint ''cyan'' (banner_bar (0xE2, 0x95, 0x94) (0xE2, 0x95, 0x97)),
      paint ''cyan'' (banner_row ''               AXIOM ANTIE Gateway                         ''),
      paint ''cyan'' (banner_row ''         Multi-Carrier Transaction Gateway                 ''),
      paint ''cyan'' (banner_bar (0xE2, 0x95, 0x9A) (0xE2, 0x95, 0x9D)), [],
      ''  '' @ paint ''green'' ''Inbound:'' @ '' Active carriers:''] @
     (case cc_maildir (ac_carriers c) of Some m \<Rightarrow> [''    Maildir   inbox='' @ mc_inbox m] | None \<Rightarrow> []) @
     map (\<lambda>i. account_line ''    IMAP      '' (im_server i) (im_port i) (im_username i) (im_enabled i)) (cc_imap (ac_carriers c)) @
     map (\<lambda>p. account_line ''    POP3      '' (pp_server p) (pp_port p) (pp_username p) (pp_enabled p)) (cc_pop3 (ac_carriers c)) @
     (if cc_advertise (ac_carriers c) = [] then []
      else (''  '' @ paint ''green'' ''Hints:'' @ '' Advertised (discovery URIs only '' @ dash @ '' ANTIE doesn'' @ [CHR 0x27] @ ''t parse):'') #
        map (\<lambda>uri. ''    '' @ uri) (cc_advertise (ac_carriers c))) @
     (case ob_local (ac_outbound c) of
        Some s \<Rightarrow> [''  '' @ paint ''green'' ''Outbound:'' @ '' local '' @ so_server s @ '':'' @ dec (so_port s) @ '' from='' @ so_from s @
          '' (@axiom/@axiom.internal)'']
      | None \<Rightarrow> []) @
     (case ob_external (ac_outbound c) of
        Some s \<Rightarrow> [''  '' @ paint ''green'' ''Outbound:'' @ '' external relay '' @ so_server s @ '':'' @ dec (so_port s) @ '' (real domains)'']
      | None \<Rightarrow> []) @
     [(case ac_lambda c of
         LcTcp address _ _ _ \<Rightarrow> ''  '' @ paint ''green'' ''Lambda:'' @ '' '' @ address @ '' (TCP)''
       | LcSubprocess binary_path _ \<Rightarrow> ''  '' @ paint ''green'' ''Lambda:'' @ '' '' @ debug_str binary_path @ '' (Subprocess)''),
      ''  '' @ paint ''green'' ''Identity:'' @ '' '' @ ac_identity_email c, [],
      paint ''yellow'' ''Architecture:'',
      ''  Carrier(s) '' @ arrow @ '' ANTIE '' @ arrow @ '' Core(CL2) '' @ arrow @ '' Lambda '' @ arrow @ '' Core(CL3) '' @ arrow @ '' Carrier(s)'',
      [], paint ''dimmed'' ''Press Ctrl+C to stop'', []]"

text \<open>What the banner shows of a configuration: no password of a mailbox or a relay, no token and no key of the validator.\<close>

definition without_secrets :: "antie_config \<Rightarrow> antie_config" where
  "without_secrets c = c\<lparr>
     ac_carriers := (ac_carriers c)\<lparr>
       cc_imap := map (\<lambda>i. i\<lparr>im_password := []\<rparr>) (cc_imap (ac_carriers c)),
       cc_pop3 := map (\<lambda>p. p\<lparr>pp_password := []\<rparr>) (cc_pop3 (ac_carriers c))\<rparr>,
     ac_outbound := (ac_outbound c)\<lparr>
       ob_local := map_option (\<lambda>s. s\<lparr>so_username := None, so_password := None\<rparr>) (ob_local (ac_outbound c)),
       ob_external := map_option (\<lambda>s. s\<lparr>so_username := None, so_password := None\<rparr>) (ob_external (ac_outbound c))\<rparr>,
     ac_health_token := None,
     ac_validator := default_validator,
     ac_performance := (ac_performance c)\<lparr>pf_lambda_admin_token := None\<rparr>\<rparr>"

lemma banner_shows_no_secret: "print_banner paint (without_secrets c) = print_banner paint c"
  by (simp add: print_banner_def without_secrets_def comp_def split: option.split)

section \<open>The program\<close>

text \<open>How \<open>main\<close> ends: with the printed title and file (\<open>unwrap\<close> panics when it does not print), a maildir, or a running gateway
  with its trimming period.\<close>

datatype main_end =
    Generated string "string option"
  | Initialised
  | Served "nat option" "run_start \<times> built_gateway \<times> bool"

record main_env =
  me_print :: "antie_config \<Rightarrow> string + string"
  me_exists :: "string \<Rightarrow> bool"
  me_load :: load_env
  me_startup :: startup_env
  me_spawn :: spawn_env
  me_lambda :: lambda_env
  me_pid :: nat
  me_trim_var :: "string option"

definition antie_main :: "main_env \<Rightarrow> cli \<Rightarrow> main_end step" where
  "antie_main env cli =
     (if cl_generate_config cli then
        (case generated_example cli of (title, c) \<Rightarrow> pure_step (Inr (Generated title (ok_opt (me_print env c)))))
      else case cl_init_maildir cli of
          Some path \<Rightarrow> then_step (init_maildir (me_print env) (me_exists env) path) (\<lambda>_. pure_step (Inr Initialised))
        | None \<Rightarrow>
            then_step (pure_step (config_of_cli (load_config (me_load env)) (cl_config cli) (cl_lambda cli))) (\<lambda>c.
            then_step (gateway_new (me_startup env) c) (\<lambda>g.
            (case gateway_run (me_spawn env) (me_lambda env) (me_load env) (me_pid env) (g, False) of
               (RunFailed e, g1, alive) \<Rightarrow> pure_step (Inl e)
             | (r, g1, alive) \<Rightarrow> pure_step (Inr (Served (trim_spawn_periodic (me_trim_var env)) (r, g1, alive)))))))"

section \<open>The configuration of a fresh maildir\<close>

lemma init_maildir_done:
  "init_maildir print ex path w = (Inr (), w') \<Longrightarrow>
     \<exists>b. print (init_maildir_config ex path) = Inr b \<and> files w' (path_join path ''antie.toml'') = Some b"
proof -
  assume "init_maildir print ex path w = (Inr (), w')"
  then obtain b w1 where b: "print (init_maildir_config ex path) = Inr b"
    "via_io (fs_write (path_join path ''antie.toml'') b) w1 = (Inr (), w')"
    by (auto simp: init_maildir_def save_config_def step_simps map_err_Inr)
  then have "fs_write (path_join path ''antie.toml'') b w1 = (Inr (), w')"
    by (simp add: via_io_def map_err_Inr split: prod.splits)
  then show ?thesis using b(1) fs_write_Inr by blast
qed

text \<open>What \<open>--init-maildir\<close> makes, antie starts from: when it succeeds, the file it wrote reads back as the configuration
  it meant, with the maildir it made and a Lambda child, and passes every check of loading, whatever directory was named; the
  only thing added is the place of the ban file.  TOML is taken to parse what it printed for this configuration.\<close>

lemma init_maildir_loads:
  assumes "init_maildir print ex path w = (Inr (), w')"
    and "\<And>b. print (init_maildir_config ex path) = Inr b \<Longrightarrow> le_parse_config le b = Inr (init_maildir_config ex path)"
    and "le_read le (path_join path ''antie.toml'') =
      (case files w' (path_join path ''antie.toml'') of Some b \<Rightarrow> Inr b | None \<Rightarrow> Inl ''No such file'')"
    and "le_secrets_var le = None" "\<And>p. le_exists le p = False"
  shows "config_of_cli (load_config le) (Some (path_join path ''antie.toml'')) None =
    Inr ((init_maildir_config ex path)\<lparr>ac_nabla_ban_list_path := default_nabla_ban_list_path (path_join path ''antie.toml'')\<rparr>)"
proof -
  obtain b where t: "print (init_maildir_config ex path) = Inr b" "files w' (path_join path ''antie.toml'') = Some b"
    using init_maildir_done [OF assms(1)] by blast
  have n: "ac_nabla_ban_list_path (init_maildir_config ex path) = None"
    by (simp add: init_maildir_config_def default_config_def Let_def)
  have v: "validate_carriers (ac_carriers (init_maildir_config ex path)) = Inr ()"
    "validate_inbound_count (ac_carriers (init_maildir_config ex path)) = Inr ()"
    by (simp_all add: init_maildir_config_def Let_def load_checks no_carriers_def)
  have r: "validate_poll_rate ((init_maildir_config ex path)\<lparr>ac_nabla_ban_list_path := b\<rparr>) = Inr ()" for b
    by (simp add: init_maildir_config_def Let_def load_checks has_network_pull_def no_carriers_def)
  show ?thesis
    using assms(2) [OF t(1)] assms(3-5) t(2) n v r
    by (simp add: config_of_cli_def load_config_def apply_mail_secrets_def Let_def res_bind_def)
qed

lemma init_maildir_loads_witness:
  "let c = init_maildir_config (\<lambda>p. False) ''m''; print = (\<lambda>c. Inr ''x'') in
   fst (init_maildir print (\<lambda>p. False) ''m'' no_files) = Inr () \<and>
   config_of_cli (load_config (example_env c\<lparr>le_read := \<lambda>p. Inr ''x''\<rparr>)) (Some ''m/antie.toml'') None =
     Inr (c\<lparr>ac_nabla_ban_list_path := default_nabla_ban_list_path ''m/antie.toml''\<rparr>)"
proof -
  let ?c = "init_maildir_config (\<lambda>p. False) ''m''" and ?print = "\<lambda>c :: antie_config. Inr ''x'' :: string + string"
  let ?le = "example_env ?c\<lparr>le_read := \<lambda>p. Inr ''x''\<rparr>"
  obtain r w' where run: "init_maildir ?print (\<lambda>p. False) ''m'' no_files = (r, w')" by fastforce
  have "fst (init_maildir ?print (\<lambda>p. False) ''m'' no_files) = Inr ()" by code_simp
  then have ok: "init_maildir ?print (\<lambda>p. False) ''m'' no_files = (Inr (), w')" using run by simp
  then have "files w' (path_join ''m'' ''antie.toml'') = Some ''x''" using init_maildir_done by fastforce
  moreover have "path_join ''m'' ''antie.toml'' = ''m/antie.toml''" by (simp add: path_join_def)
  ultimately show ?thesis
    using init_maildir_loads [OF ok, of ?le] run ok by (simp add: example_env_def Let_def)
qed

end
