(* ===== verification/TotIntake.thy ===== *)
theory TotIntake
  imports Deposits "HOL-Library.List_Lexorder" "HOL-Library.Char_ord"
begin

text \<open>
  The tunnel carrier of \<open>tot/src\<close>: configuration, demultiplexing of a connection, the intake legs, the session leg with
  its stamp, its directory and its replies, and the tunnels.  WebSocket framing, sockets and the TOML reader are
  parameters: a connection is what its peer sends, a WebSocket the messages it yields.  Errors are texts.
\<close>

section \<open>Configuration\<close>

record tot_config =
  tc_listen :: string
  tc_maildir_inbox :: string
  tc_nabla :: "(string \<times> string) list"
  tc_custody_outbox :: "string option"
  tc_fatmama :: "(string \<times> string) list"
  tc_intake_max_msgs_per_sec :: nat
  tc_max_message_bytes :: nat

definition default_intake_rate :: nat where
  "default_intake_rate = 8"

definition default_max_message_bytes :: nat where
  "default_max_message_bytes = 256 * 1024"

definition tot_validate :: "tot_config \<Rightarrow> string + unit" where
  "tot_validate c =
     (if tc_nabla c = [] then Inl (''config: ['' @ ''[nabla]'' @ ''] is empty '' @ [CHR 0xE2, CHR 0x80, CHR 0x94] @ '' no attested Nabla nodes'')
      else if tc_max_message_bytes c = 0 then Inl ''config: max_message_bytes must be greater than 0''
      else Inr ())"

text \<open>\<open>contents\<close> is what reading the file as text gives, \<open>parse\<close> the TOML reader with its defaults.\<close>

definition tot_load :: "(string \<Rightarrow> string + string) \<Rightarrow> (string \<Rightarrow> string + tot_config) \<Rightarrow> string \<Rightarrow> string + tot_config" where
  "tot_load contents parse path =
     (case contents path of
        Inl e \<Rightarrow> Inl (''read config '' @ path @ '': '' @ e)
      | Inr text \<Rightarrow>
          (case parse text of
             Inl e \<Rightarrow> Inl (''parse config '' @ path @ '': '' @ e)
           | Inr c \<Rightarrow> (case tot_validate c of Inl e \<Rightarrow> Inl e | Inr _ \<Rightarrow> Inr c)))"

section \<open>Routes\<close>

datatype tot_route = RouteIntake | RouteSession | RouteNabla nat | RouteFatmama nat

text \<open>\<open>dev\<close> is the feature \<open>dev-fatmama\<close>, off in a release build.\<close>

definition route_parse :: "bool \<Rightarrow> string \<Rightarrow> tot_route option" where
  "route_parse dev path =
     (if path = ''/intake'' then Some RouteIntake
      else if path = ''/session'' then Some RouteSession
      else case strip_prefix ''/nabla/'' path of
          Some idx \<Rightarrow> map_option RouteNabla (parse_uint 64 idx)
        | None \<Rightarrow>
            (if dev then (case strip_prefix ''/fatmama/'' path of
                 Some idx \<Rightarrow> map_option RouteFatmama (parse_uint 64 idx)
               | None \<Rightarrow> None)
             else None))"

section \<open>The rate limiter of a connection\<close>

text \<open>Times are milliseconds of the monotonic clock.\<close>

record tot_limiter =
  rl_max_per_sec :: nat
  rl_window_start :: nat
  rl_count :: nat

definition new_tot_limiter :: "nat \<Rightarrow> nat \<Rightarrow> tot_limiter" where
  "new_tot_limiter max_per_sec now = \<lparr>rl_max_per_sec = max_per_sec, rl_window_start = now, rl_count = 0\<rparr>"

definition rl_allow :: "nat \<Rightarrow> tot_limiter \<Rightarrow> bool \<times> tot_limiter" where
  "rl_allow now l =
     (if rl_max_per_sec l = 0 then (True, l)
      else
        (let l1 = (if 1000 \<le> now - rl_window_start l then l\<lparr>rl_window_start := now, rl_count := 0\<rparr> else l);
             l2 = l1\<lparr>rl_count := rl_count l1 + 1\<rparr> in
         (rl_count l2 \<le> rl_max_per_sec l2, l2)))"

section \<open>Delivery into the inbox\<close>

text \<open>The parts of a fresh name: seconds, nanoseconds, sequence number and process id.\<close>

type_synonym name_parts = "nat \<times> nat \<times> nat \<times> nat"

definition tot_deliver :: "string \<times> string \<Rightarrow> name_parts \<Rightarrow> bytes \<Rightarrow> unit io" where
  "tot_deliver inbox parts b w =
     (case parts of (secs, nanos, seq, pid) \<Rightarrow>
       (case inbox_deliver inbox (unique_name secs nanos seq pid) b w of
          (Inl e, w') \<Rightarrow> (Inl (''maildir deliver: '' @ e), w')
        | (Inr _, w') \<Rightarrow> (Inr (), w')))"

section \<open>The raw frame\<close>

text \<open>\<open>u32::from_le_bytes\<close>.\<close>

fun of_le32 :: "bytes \<Rightarrow> nat" where
  "of_le32 [a, b, c, d] = byte_val a + byte_val b * 2 ^ 8 + byte_val c * 2 ^ 16 + byte_val d * 2 ^ 24"
| "of_le32 _ = 0"

text \<open>\<open>rest\<close> is what the peer sends after the length, before it closes.\<close>

definition tcp_intake_leg :: "nat \<Rightarrow> string \<times> string \<Rightarrow> name_parts \<Rightarrow> bytes \<Rightarrow> bytes \<Rightarrow> unit io" where
  "tcp_intake_leg max_message_bytes inbox parts len_prefix rest w =
     (let len = of_le32 len_prefix in
      if len = 0 then (Inl ''tcp intake: zero-length frame'', w)
      else if max_message_bytes < len then
        (Inl (''tcp intake frame '' @ dec len @ '' bytes exceeds cap '' @ dec max_message_bytes), w)
      else if length rest < len then (Inl ''tcp intake read body: early eof'', w)
      else tot_deliver inbox parts (take len rest) w)"

section \<open>The WebSocket intake\<close>

datatype ws_message = WsBinary bytes | WsClose | WsOther | WsError string

text \<open>Each message comes with the clock and the parts of the name its delivery would take; the stream ends with the list.\<close>

fun intake_loop :: "nat \<Rightarrow> string \<times> string \<Rightarrow> (nat \<times> name_parts \<times> ws_message) list \<Rightarrow> tot_limiter \<Rightarrow> unit io" where
  "intake_loop cap inbox [] l w = (Inr (), w)"
| "intake_loop cap inbox ((now, parts, m) # ms) l w =
     (case m of
        WsError e \<Rightarrow> (Inl (''websocket recv: '' @ e), w)
      | WsClose \<Rightarrow> (Inr (), w)
      | WsOther \<Rightarrow> intake_loop cap inbox ms l w
      | WsBinary b \<Rightarrow>
          (if cap < length b then (Inl (''intake message '' @ dec (length b) @ '' bytes exceeds cap '' @ dec cap), w)
           else
             (case rl_allow now l of
                (False, l1) \<Rightarrow> (Inl ''intake rate limit exceeded'', w)
              | (True, l1) \<Rightarrow>
                  (case tot_deliver inbox parts b w of
                     (Inl e, w1) \<Rightarrow> (Inl e, w1)
                   | (Inr _, w1) \<Rightarrow> intake_loop cap inbox ms l1 w1))))"

definition intake_leg :: "tot_config \<Rightarrow> string \<times> string \<Rightarrow> nat \<Rightarrow> (nat \<times> name_parts \<times> ws_message) list \<Rightarrow> unit io" where
  "intake_leg c inbox now ms = intake_loop (tc_max_message_bytes c) inbox ms (new_tot_limiter (tc_intake_max_msgs_per_sec c) now)"

end
