(* ===== verification/Tunnel.thy ===== *)
theory Tunnel
  imports TotIntake "HOL-Library.Sublist"
begin

text \<open>
  The tunnels of tot: the byte pump of \<open>tot/src/tunnel.rs\<close> and the two legs of \<open>tot/src/main.rs\<close> that put one between a
  WebSocket and a configured node.
\<close>

section \<open>The pump\<close>

text \<open>What the node is sent: bytes, then the end of the stream.\<close>

datatype node_event = Bytes bytes | Shutdown

text \<open>The client's direction.  \<open>fails\<close> gives the error of the k-th write and how many bytes it wrote before it; a list that ends is a stream
  that ends.\<close>

fun client_to_nabla :: "(nat \<Rightarrow> (nat \<times> string) option) \<Rightarrow> nat \<Rightarrow> ws_message list \<Rightarrow> node_event list \<times> (string + unit)" where
  "client_to_nabla fails k [] = ([Shutdown], Inr ())"
| "client_to_nabla fails k (WsBinary b # ms) =
     (case fails k of
        Some (n, e) \<Rightarrow> ([Bytes (take n b)], Inl e)
      | None \<Rightarrow> (case client_to_nabla fails (k + 1) ms of (out, r) \<Rightarrow> (Bytes b # out, r)))"
| "client_to_nabla fails k (WsOther # ms) = client_to_nabla fails k ms"
| "client_to_nabla fails k (WsClose # ms) = ([Shutdown], Inr ())"
| "client_to_nabla fails k (WsError e # ms) = ([Shutdown], Inr ())"

text \<open>The node's direction: one message for each read, up to the end of its stream (an empty read), an error, or a send the client's side
  refuses; then the WebSocket is closed.  \<open>takes\<close> says which sends go through.\<close>

fun nabla_to_client :: "(nat \<Rightarrow> bool) \<Rightarrow> nat \<Rightarrow> (string + bytes) list \<Rightarrow> ws_message list \<times> (string + unit)" where
  "nabla_to_client takes k [] = (if takes k then [WsClose] else [], Inr ())"
| "nabla_to_client takes k (Inl e # rs) = ([], Inl e)"
| "nabla_to_client takes k (Inr b # rs) =
     (if b = [] then (if takes k then [WsClose] else [], Inr ())
      else if \<not> takes k then (if takes (k + 1) then [WsClose] else [], Inr ())
      else (case nabla_to_client takes (k + 1) rs of (out, r) \<Rightarrow> (WsBinary b # out, r)))"

text \<open>A node: what each read of it gives, at most 16 KiB, which writes to it fail, and where the other direction is when one fails:
  how many steps it has made, how much of a write is done, and whether the client's direction fails before the node's.\<close>

record tunnel_node =
  tn_reads :: "(string + bytes) list"
  tn_fails :: "nat \<Rightarrow> (nat \<times> string) option"
  tn_cut :: "nat \<times> nat"
  tn_client_first :: bool

definition cut_off :: "nat \<times> nat \<Rightarrow> node_event list \<Rightarrow> node_event list" where
  "cut_off p evs = take (fst p) evs @ (case drop (fst p) evs of Bytes b # _ \<Rightarrow> [Bytes (take (snd p) b)] | _ \<Rightarrow> [])"

text \<open>Both directions side by side: the first error ends both.\<close>

definition tot_pump ::
  "(nat \<Rightarrow> bool) \<Rightarrow> ws_message list \<Rightarrow> tunnel_node \<Rightarrow> (node_event list \<times> ws_message list) \<times> (string + unit)" where
  "tot_pump takes from_client node =
     (case client_to_nabla (tn_fails node) 0 from_client of (up, r) \<Rightarrow>
      case nabla_to_client takes 0 (tn_reads node) of (down, q) \<Rightarrow>
      (case (r, q) of
         (Inr _, Inr _) \<Rightarrow> ((up, down), Inr ())
       | (Inl e, Inr _) \<Rightarrow> ((up, take (fst (tn_cut node)) down), Inl e)
       | (Inr _, Inl e) \<Rightarrow> ((cut_off (tn_cut node) up, down), Inl e)
       | (Inl e, Inl f) \<Rightarrow>
           (if tn_client_first node then ((up, take (fst (tn_cut node)) down), Inl e)
            else ((cut_off (tn_cut node) up, down), Inl f))))"

section \<open>The legs\<close>

text \<open>\<open>connect\<close> gives, for an address, an error or the node that answers.\<close>

definition nabla_leg ::
  "(string \<Rightarrow> string + tunnel_node) \<Rightarrow> (nat \<Rightarrow> bool) \<Rightarrow> ws_message list \<Rightarrow> nat \<Rightarrow> tot_config \<Rightarrow>
     (node_event list \<times> ws_message list) \<times> (string + unit)" where
  "nabla_leg connect takes ms idx c =
     (if length (tc_nabla c) \<le> idx then
        (([], []), Inl (''nabla index '' @ dec idx @ '' outside the attested set (0..'' @ dec (length (tc_nabla c)) @ '')''))
      else
        (case tc_nabla c ! idx of (name, addr) \<Rightarrow>
          (case connect addr of
             Inl e \<Rightarrow> (([], []), Inl (''connect nabla '' @ name @ '' ('' @ addr @ ''): '' @ e))
           | Inr node \<Rightarrow> (case tot_pump takes ms node of (moved, r) \<Rightarrow> (moved, map_err (\<lambda>e. ''nabla tunnel: '' @ e) r)))))"

definition fatmama_leg ::
  "(string \<Rightarrow> string + tunnel_node) \<Rightarrow> (nat \<Rightarrow> bool) \<Rightarrow> ws_message list \<Rightarrow> nat \<Rightarrow> tot_config \<Rightarrow>
     (node_event list \<times> ws_message list) \<times> (string + unit)" where
  "fatmama_leg connect takes ms idx c =
     (if length (tc_fatmama c) \<le> idx then
        (([], []), Inl (''fatmama index '' @ dec idx @ '' outside the configured set (0..'' @ dec (length (tc_fatmama c)) @ '')''))
      else
        (case tc_fatmama c ! idx of (name, addr) \<Rightarrow>
          (case connect addr of
             Inl e \<Rightarrow> (([], []), Inl (''connect fatmama '' @ name @ '' ('' @ addr @ ''): '' @ e))
           | Inr node \<Rightarrow> (case tot_pump takes ms node of (moved, r) \<Rightarrow> (moved, map_err (\<lambda>e. ''fatmama tunnel: '' @ e) r)))))"

section \<open>A pair of byte pipes\<close>

text \<open>The abstract view: the bytes the client has to say to the node, and the node to the client.\<close>

definition event_bytes :: "node_event \<Rightarrow> bytes" where
  "event_bytes ev = (case ev of Bytes b \<Rightarrow> b | Shutdown \<Rightarrow> [])"

definition node_bytes :: "node_event list \<Rightarrow> bytes" where
  "node_bytes evs = concat (map event_bytes evs)"

definition message_bytes :: "ws_message \<Rightarrow> bytes" where
  "message_bytes m = (case m of WsBinary b \<Rightarrow> b | _ \<Rightarrow> [])"

definition client_bytes :: "ws_message list \<Rightarrow> bytes" where
  "client_bytes ms = concat (map message_bytes ms)"

fun goes_on :: "ws_message \<Rightarrow> bool" where
  "goes_on WsClose = False" | "goes_on (WsError e) = False" | "goes_on m = True"

definition spoken :: "ws_message list \<Rightarrow> bytes" where
  "spoken ms = client_bytes (takeWhile goes_on ms)"

fun produced :: "(string + bytes) list \<Rightarrow> bytes" where
  "produced (Inr b # rs) = (if b = [] then [] else b @ produced rs)"
| "produced rs = []"

lemmas pipe_defs = node_bytes_def event_bytes_def client_bytes_def message_bytes_def spoken_def

lemma client_pipe:
  "client_to_nabla fails k ms = (up, r) \<Longrightarrow> prefix (node_bytes up) (spoken ms) \<and>
     (r = Inr () \<longrightarrow> node_bytes up = spoken ms \<and> (\<exists>front. up = front @ [Shutdown])) \<and> (r \<noteq> Inr () \<longrightarrow> Shutdown \<notin> set up)"
proof (induction fails k ms arbitrary: up rule: client_to_nabla.induct)
  case (2 fails k b ms)
  show ?case
  proof (cases "fails k")
    case None
    then obtain out where out: "client_to_nabla fails (k + 1) ms = (out, r)" "up = Bytes b # out"
      using "2.prems" by (auto split: prod.splits)
    show ?thesis using "2.IH" [OF None out(1)] out(2) by (auto simp: pipe_defs)
  next
    case (Some x)
    then show ?thesis using "2.prems" by (cases x) (auto simp: pipe_defs take_is_prefix intro: prefix_prefix)
  qed
qed (auto simp: pipe_defs)

lemma node_pipe:
  "nabla_to_client takes k rs = (down, q) \<Longrightarrow> prefix (client_bytes down) (produced rs) \<and>
     (q = Inr () \<and> (\<forall>k. takes k) \<longrightarrow> client_bytes down = produced rs \<and> (\<exists>front. down = front @ [WsClose]))"
proof (induction takes k rs arbitrary: down rule: nabla_to_client.induct)
  case (3 takes k b rs)
  show ?case
  proof (cases "b = [] \<or> \<not> takes k")
    case False
    then obtain out where out: "nabla_to_client takes (k + 1) rs = (out, q)" "down = WsBinary b # out"
      using "3.prems" by (auto split: prod.splits)
    show ?thesis using "3.IH" [OF _ _ out(1)] False out(2) by (auto simp: pipe_defs)
  qed (use "3.prems" in \<open>auto simp: pipe_defs split: if_splits\<close>)
qed (auto simp: pipe_defs)

lemma prefix_take_bytes: "prefix (concat (map f (take n xs))) (concat (map f xs))"
proof -
  have "concat (map f xs) = concat (map f (take n xs)) @ concat (map f (drop n xs))"
    by (metis append_take_drop_id concat_append map_append)
  then show ?thesis by simp
qed

lemma prefix_cut_off: "prefix (node_bytes (cut_off p evs)) (node_bytes evs)"
proof (cases "drop (fst p) evs")
  case (Cons x xs)
  have "node_bytes evs = node_bytes (take (fst p) evs) @ node_bytes (x # xs)"
    unfolding Cons [symmetric] node_bytes_def by (metis append_take_drop_id concat_append map_append)
  then show ?thesis using Cons
    by (cases x) (auto simp: cut_off_def node_bytes_def event_bytes_def take_is_prefix intro: prefix_prefix)
qed (auto simp: cut_off_def)

text \<open>C19. A tunnel is a pair of byte pipes and nothing else.  What a node is sent is a prefix of the concatenation of the client's binary
  messages, up to its close, and what the client gets is a prefix of what the node sent, cut into messages anywhere; no byte is added,
  changed or reordered, whichever writes and sends fail and wherever one direction is when the other ends it.  When the
  tunnel ends without an error the client's bytes have all arrived and the node has been told of the end, and with sends that go through so has all
  the node said.  A node outside the attested list is never spoken to.\<close>

theorem tunnel_transparent:
  assumes "nabla_leg connect takes ms idx c = ((up, down), r)"
  shows "up = [] \<and> down = [] \<and> \<not> is_ok r \<or>
    (\<exists>name addr node. (name, addr) \<in> set (tc_nabla c) \<and> connect addr = Inr node \<and>
       prefix (node_bytes up) (spoken ms) \<and> prefix (client_bytes down) (produced (tn_reads node)) \<and>
       (is_ok r \<longrightarrow> node_bytes up = spoken ms \<and> last up = Shutdown) \<and>
       (is_ok r \<and> (\<forall>k. takes k) \<longrightarrow> client_bytes down = produced (tn_reads node) \<and> last down = WsClose))"
proof (cases "idx < length (tc_nabla c)")
  case True
  obtain name addr where n: "tc_nabla c ! idx = (name, addr)" by fastforce
  then have mem: "(name, addr) \<in> set (tc_nabla c)" using True nth_mem by metis
  show ?thesis
  proof (cases "connect addr")
    case (Inr node)
    obtain u p where u: "client_to_nabla (tn_fails node) 0 ms = (u, p)" by fastforce
    obtain d q where d: "nabla_to_client takes 0 (tn_reads node) = (d, q)" by fastforce
    have run: "up = u \<or> up = cut_off (tn_cut node) u" "down = d \<or> down = take (fst (tn_cut node)) d"
      "is_ok r \<Longrightarrow> p = Inr () \<and> q = Inr () \<and> up = u \<and> down = d"
      using assms True n Inr u d
      by (auto simp: nabla_leg_def tot_pump_def map_err_def split: sum.splits if_splits)
    have "prefix (node_bytes up) (spoken ms)"
      using run(1) client_pipe [OF u] prefix_cut_off prefix_order.trans by blast
    moreover have "prefix (client_bytes down) (produced (tn_reads node))"
      using run(2) node_pipe [OF d] prefix_take_bytes [of message_bytes _ d] prefix_order.trans
      unfolding client_bytes_def by blast
    ultimately show ?thesis
      using mem Inr run(3) client_pipe [OF u] node_pipe [OF d] by fastforce
  qed (use assms True n in \<open>auto simp: nabla_leg_def\<close>)
qed (use assms in \<open>auto simp: nabla_leg_def\<close>)

section \<open>A tunnel to evaluate\<close>

definition sample_tot_config :: tot_config where
  "sample_tot_config = \<lparr>tc_listen = ''0.0.0.0:7400'', tc_maildir_inbox = ''i'', tc_nabla = [(''n0'', ''10.0.0.1:6000'')],
     tc_custody_outbox = Some ''o'', tc_fatmama = [(''f0'', ''10.0.0.2:25'')], tc_intake_max_msgs_per_sec = default_intake_rate,
     tc_max_message_bytes = 100\<rparr>"

definition sample_echo :: tunnel_node where
  "sample_echo = \<lparr>tn_reads = [Inr ''x'', Inr ''yz'', Inr [], Inr ''late''], tn_fails = (\<lambda>k. None), tn_cut = (0, 0), tn_client_first = True\<rparr>"

lemma tunnel_transparent_witness:
  "case nabla_leg (\<lambda>a. Inr sample_echo) (\<lambda>k. True) [WsBinary ''ab'', WsOther, WsBinary ''c'', WsClose, WsBinary ''d''] 0 sample_tot_config of
     ((up, down), r) \<Rightarrow> is_ok r \<and> node_bytes up = ''abc'' \<and> client_bytes down = ''xyz''"
proof -
  let ?ms = "[WsBinary ''ab'', WsOther, WsBinary ''c'', WsClose, WsBinary ''d'']"
  obtain up down r where run: "nabla_leg (\<lambda>a. Inr sample_echo) (\<lambda>k. True) ?ms 0 sample_tot_config = ((up, down), r)"
    by (metis surj_pair)
  have "is_ok (snd (nabla_leg (\<lambda>a. Inr sample_echo) (\<lambda>k. True) ?ms 0 sample_tot_config))" by code_simp
  moreover have "spoken ?ms = ''abc''" "produced (tn_reads sample_echo) = ''xyz''" by code_simp+
  ultimately show ?thesis using tunnel_transparent [OF run] run by auto
qed

end
