(* ===== verification/Sandbox.thy ===== *)
theory Sandbox
  imports Prelude
begin

text \<open>
  The sandbox of tot (\<open>tot/src/sandbox.rs\<close>): the system calls it gives up, the filter made of them, and its installation.
  The numbers of the calls and the seccomp library are parameters.
\<close>

datatype syscall =
    SYS_execve | SYS_execveat | SYS_ptrace | SYS_process_vm_readv | SYS_process_vm_writev | SYS_mount
  | SYS_umount2 | SYS_pivot_root | SYS_chroot | SYS_setns | SYS_unshare | SYS_bpf

definition denied_syscalls :: "syscall list" where
  "denied_syscalls = [SYS_execve, SYS_execveat, SYS_ptrace, SYS_process_vm_readv, SYS_process_vm_writev, SYS_mount,
     SYS_umount2, SYS_pivot_root, SYS_chroot, SYS_setns, SYS_unshare, SYS_bpf]"

datatype seccomp_action = Allow | KillProcess

datatype target_arch = X86_64 | Aarch64

text \<open>A rule list that is empty matches the call whatever its arguments; a filter and a program are opaque.\<close>

type_synonym seccomp_rules = "int \<rightharpoonup> bytes list"

record seccomp_env =
  sb_number :: "syscall \<Rightarrow> int"
  sb_arch :: "target_arch option"
  sb_new :: "seccomp_rules \<Rightarrow> seccomp_action \<Rightarrow> seccomp_action \<Rightarrow> target_arch \<Rightarrow> string + bytes"
  sb_program :: "bytes \<Rightarrow> string + bytes"
  sb_apply :: "bytes \<Rightarrow> string + unit"

definition sandbox_arch :: "seccomp_env \<Rightarrow> string + target_arch" where
  "sandbox_arch env = (case sb_arch env of Some a \<Rightarrow> Inr a | None \<Rightarrow> Inl ''seccomp: unsupported target architecture'')"

definition sandbox_rules :: "seccomp_env \<Rightarrow> seccomp_rules" where
  "sandbox_rules env = fold (\<lambda>c rules. rules(sb_number env c \<mapsto> [])) denied_syscalls Map.empty"

definition sandbox_compile :: "seccomp_env \<Rightarrow> string + bytes" where
  "sandbox_compile env =
     res_bind (sandbox_arch env) (\<lambda>arch.
     res_bind (map_err (\<lambda>e. ''seccomp: build filter: '' @ e) (sb_new env (sandbox_rules env) Allow KillProcess arch)) (\<lambda>f.
     map_err (\<lambda>e. ''seccomp: compile filter: '' @ e) (sb_program env f)))"

definition sandbox_apply :: "seccomp_env \<Rightarrow> bytes \<Rightarrow> string + unit" where
  "sandbox_apply env prog = map_err (\<lambda>e. ''seccomp: apply filter: '' @ e) (sb_apply env prog)"

definition sandbox_install :: "seccomp_env \<Rightarrow> string + unit" where
  "sandbox_install env = res_bind (sandbox_compile env) (sandbox_apply env)"

section \<open>What the filter denies\<close>

lemma rules_dom: "dom (sandbox_rules env) = range (sb_number env)"
proof -
  have "set denied_syscalls = UNIV"
    by (auto simp: denied_syscalls_def) (metis syscall.exhaust)
  moreover have "dom (fold (\<lambda>c rules. rules(sb_number env c \<mapsto> [])) cs m) = sb_number env ` set cs \<union> dom m" for cs m
    by (induction cs arbitrary: m) auto
  ultimately show ?thesis unfolding sandbox_rules_def by (metis dom_empty sup_bot.right_neutral)
qed

text \<open>With a library that does what it documents (the program made of a filter answers by the rules, with the match action
  for a listed call and the other action for the rest), an installed sandbox is a program that the kernel accepted and that
  kills the process for exactly the calls of the list.\<close>

lemma sandbox_denies:
  assumes "sandbox_install env = Inr ()"
    and "\<And>rules other listed arch f prog nr. sb_new env rules other listed arch = Inr f \<Longrightarrow> sb_program env f = Inr prog \<Longrightarrow>
      decides prog nr = (if nr \<in> dom rules then listed else other)"
  shows "\<exists>prog. sb_apply env prog = Inr () \<and>
    (\<forall>nr. decides prog nr = (if nr \<in> range (sb_number env) then KillProcess else Allow))"
proof -
  obtain arch f prog where p: "sb_new env (sandbox_rules env) Allow KillProcess arch = Inr f" "sb_program env f = Inr prog"
    "sb_apply env prog = Inr ()"
    using assms(1) by (auto simp: sandbox_install_def sandbox_compile_def sandbox_apply_def res_bind_Inr map_err_Inr)
  then show ?thesis using assms(2) [OF p(1,2)] by (auto simp: rules_dom)
qed

end
