(* ===== verification/TotSession.thy ===== *)
theory TotSession
  imports Tunnel Sandbox
begin

text \<open>
  The session leg of \<open>tot/src/main.rs\<close> and the connection it and the other legs hang from.
\<close>

section \<open>The stamp\<close>

text \<open>\<open>split_inclusive\<close> at line feeds: every piece but the last ends with its line feed, and there is no empty piece.\<close>

fun lines_inclusive :: "string \<Rightarrow> string list" where
  "lines_inclusive [] = []"
| "lines_inclusive (c # cs) =
     (if c = CHR 0x0A then [c] # lines_inclusive cs
      else (case lines_inclusive cs of [] \<Rightarrow> [[c]] | l # ls \<Rightarrow> (c # l) # ls))"

text \<open>\<open>trim_end_matches\<close> of carriage returns and line feeds.\<close>

definition strip_eol :: "string \<Rightarrow> string" where
  "strip_eol l = rev (dropWhile (\<lambda>c. c = CHR 0x0D \<or> c = CHR 0x0A) (rev l))"

definition is_tot_header :: "string \<Rightarrow> bool" where
  "is_tot_header line = starts_with ''x-tot-session:'' (ascii_lower (strip_eol line))"

fun copy_lines :: "bool \<Rightarrow> string list \<Rightarrow> string" where
  "copy_lines in_headers [] = []"
| "copy_lines in_headers (line # lines) =
     (if in_headers then
        (if strip_eol line = [] then line @ copy_lines False lines
         else if is_tot_header line then copy_lines True lines
         else line @ copy_lines True lines)
      else line @ copy_lines False lines)"

definition stamp_line :: "string \<Rightarrow> string" where
  "stamp_line i = ''X-TOT-Session: '' @ i @ [CHR 0x0D, CHR 0x0A]"

definition has_header_block :: "bytes \<Rightarrow> bool" where
  "has_header_block raw =
     (contains_str [CHR 0x0D, CHR 0x0A, CHR 0x0D, CHR 0x0A] raw \<or> contains_str [CHR 0x0A, CHR 0x0A] raw)"

definition stamp_session :: "bytes \<Rightarrow> string \<Rightarrow> string + bytes" where
  "stamp_session raw i =
     (if \<not> has_header_block raw then
        Inl (''session message has no header block '' @ [CHR 0xE2, CHR 0x80, CHR 0x94] @ '' refusing to stamp'')
      else Inr (stamp_line i @ copy_lines True (lines_inclusive (utf8_lossy raw))))"

section \<open>The session directory\<close>

text \<open>Removing a directory removes what is below it.\<close>

definition below :: "string \<Rightarrow> string \<Rightarrow> bool" where
  "below dir p = starts_with (dir @ ''/'') p"

definition remove_dir_all :: "string \<Rightarrow> unit io" where
  "remove_dir_all dir = prim (\<lambda>w. Inr (w\<lparr>files := (\<lambda>p. if below dir p then None else files w p),
     unsynced := (\<lambda>p. \<not> below dir p \<and> unsynced w p)\<rparr>))"

text \<open>An entry of the outbox: an error, or a name with what its type says (an error, or whether it is a directory).\<close>

type_synonym outbox_entry = "string + string \<times> (string + bool)"

fun sweep_entries :: "string \<Rightarrow> outbox_entry list \<Rightarrow> nat \<Rightarrow> nat io" where
  "sweep_entries outbox [] n w = (Inr n, w)"
| "sweep_entries outbox (Inl e # es) n w = (Inl e, w)"
| "sweep_entries outbox (Inr (name, Inl e) # es) n w = (Inl e, w)"
| "sweep_entries outbox (Inr (name, Inr False) # es) n w = sweep_entries outbox es n w"
| "sweep_entries outbox (Inr (name, Inr True) # es) n w =
     (case remove_dir_all (path_join outbox name) w of
        (Inl e, w') \<Rightarrow> (Inl e, w')
      | (Inr _, w') \<Rightarrow> sweep_entries outbox es (n + 1) w')"

definition sweep_stale_sessions :: "string \<Rightarrow> string + outbox_entry list \<Rightarrow> nat io" where
  "sweep_stale_sessions outbox entries =
     io_bind (create_dir_all outbox) (\<lambda>_.
     case entries of Inl e \<Rightarrow> io_fail e | Inr es \<Rightarrow> sweep_entries outbox es 0)"

text \<open>\<open>SessionDir\<close>: created with the session, removed when it ends, whatever the end; the removal is best-effort.\<close>

definition session_dir_create :: "string \<Rightarrow> string \<Rightarrow> string io" where
  "session_dir_create outbox i w =
     (let path = path_join outbox i in
      case create_dir_all path w of
        (Inl e, w') \<Rightarrow> (Inl (''session dir '' @ path @ '': '' @ e), w')
      | (Inr _, w') \<Rightarrow> (Inr path, w'))"

definition session_dir_drop :: "string \<Rightarrow> unit io" where
  "session_dir_drop path = io_ignore (remove_dir_all path)"

section \<open>Replies\<close>

text \<open>\<open>Path::extension\<close> of a file name.\<close>

definition has_cbor_extension :: "string \<Rightarrow> bool" where
  "has_cbor_extension name = (case rsplit_once CHR ''.'' name of Some (stem, ext) \<Rightarrow> stem \<noteq> [] \<and> ext = ''cbor'' | None \<Rightarrow> False)"

text \<open>The socket: what was sent, and for each send whether it fails.\<close>

record sink =
  sk_sent :: "bytes list"
  sk_fails :: "nat \<Rightarrow> string option"

definition sink_send :: "bytes \<Rightarrow> sink \<Rightarrow> (string + unit) \<times> sink" where
  "sink_send b k = (case sk_fails k (length (sk_sent k)) of
      Some e \<Rightarrow> (Inl e, k)
    | None \<Rightarrow> (Inr (), k\<lparr>sk_sent := sk_sent k @ [b]\<rparr>))"

fun send_files :: "string \<Rightarrow> string list \<Rightarrow> sink \<times> world \<Rightarrow> (string + unit) \<times> sink \<times> world" where
  "send_files dir [] kw = (Inr (), kw)"
| "send_files dir (name # names) (k, w) =
     (let f = path_join dir name in
      case maildir_read_message f w of
        (Inl e, w1) \<Rightarrow> (Inl (''read reply '' @ f @ '': '' @ e), k, w1)
      | (Inr b, w1) \<Rightarrow>
          (case sink_send b k of
             (Inl e, k1) \<Rightarrow> (Inl (''send reply '' @ f @ '': '' @ e), k1, w1)
           | (Inr _, k1) \<Rightarrow> send_files dir names (k1, snd (remove_file f w1))))"

text \<open>\<open>listing\<close> is what reading the directory gives: an error or the names of its readable entries.\<close>

definition pump_replies :: "string \<Rightarrow> string + string list \<Rightarrow> sink \<times> world \<Rightarrow> (string + unit) \<times> sink \<times> world" where
  "pump_replies dir listing kw =
     (case listing of
        Inl e \<Rightarrow> (Inl (''session dir unreadable: '' @ e), kw)
      | Inr names \<Rightarrow> send_files dir (sort (filter has_cbor_extension names)) kw)"

section \<open>The session\<close>

datatype session_event =
    Frame nat name_parts ws_message
  | StreamEnds
  | PollTick "string + string list"

text \<open>One turn of the loop on what \<open>select\<close> gives it: the loop ends, or goes on with its limiter, its socket and the files.\<close>

datatype session_turn = Ended "string + unit" "sink \<times> world" | Going tot_limiter "sink \<times> world"

definition session_step ::
  "nat \<Rightarrow> string \<times> string \<Rightarrow> string \<Rightarrow> string \<Rightarrow> session_event \<Rightarrow> tot_limiter \<Rightarrow> sink \<times> world \<Rightarrow> session_turn" where
  "session_step cap inbox i dir ev l kw =
     (case ev of
        StreamEnds \<Rightarrow> Ended (Inr ()) kw
      | PollTick listing \<Rightarrow>
          (case pump_replies dir listing kw of (Inl e, kw1) \<Rightarrow> Ended (Inl e) kw1 | (Inr _, kw1) \<Rightarrow> Going l kw1)
      | Frame now parts m \<Rightarrow>
          (case m of
             WsError e \<Rightarrow> Ended (Inl (''websocket recv: '' @ e)) kw
           | WsClose \<Rightarrow> Ended (Inr ()) kw
           | WsOther \<Rightarrow> Going l kw
           | WsBinary b \<Rightarrow>
               (if cap < length b then Ended (Inl (''session message '' @ dec (length b) @ '' bytes exceeds cap '' @ dec cap)) kw
                else
                  (case rl_allow now l of
                     (False, l1) \<Rightarrow> Ended (Inl ''session rate limit exceeded'') kw
                   | (True, l1) \<Rightarrow>
                       (case stamp_session b i of
                          Inl e \<Rightarrow> Ended (Inl e) kw
                        | Inr stamped \<Rightarrow>
                            (case tot_deliver inbox parts stamped (snd kw) of
                               (Inl e, w1) \<Rightarrow> Ended (Inl e) (fst kw, w1)
                             | (Inr _, w1) \<Rightarrow> Going l1 (fst kw, w1)))))))"

fun session_loop :: "nat \<Rightarrow> string \<times> string \<Rightarrow> string \<Rightarrow> string \<Rightarrow> session_event list \<Rightarrow> tot_limiter \<Rightarrow>
    sink \<times> world \<Rightarrow> (string + unit) \<times> sink \<times> world" where
  "session_loop cap inbox i dir [] l kw = (Inr (), kw)"
| "session_loop cap inbox i dir (ev # evs) l kw =
     (case session_step cap inbox i dir ev l kw of
        Ended r kw1 \<Rightarrow> (r, kw1)
      | Going l1 kw1 \<Rightarrow> session_loop cap inbox i dir evs l1 kw1)"

text \<open>\<open>entropy\<close> is what reading 32 bytes of the random device gives; the directory guard is dropped on every way out.\<close>

definition session_leg ::
  "tot_config \<Rightarrow> string \<times> string \<Rightarrow> string + bytes \<Rightarrow> nat \<Rightarrow> session_event list \<Rightarrow> sink \<times> world \<Rightarrow> (string + unit) \<times> sink \<times> world" where
  "session_leg c inbox entropy now evs = (\<lambda>(k, w).
     case entropy of
       Inl e \<Rightarrow> (Inl (''session id entropy: '' @ e), k, w)
     | Inr b \<Rightarrow>
         (case tc_custody_outbox c of
            None \<Rightarrow> (Inl (''session route requires custody_outbox in tot config '' @ [CHR 0xE2, CHR 0x80, CHR 0x94] @ '' refusing''), k, w)
          | Some outbox \<Rightarrow>
              (case session_dir_create outbox (hex_encode b) w of
                 (Inl e, w1) \<Rightarrow> (Inl e, k, w1)
               | (Inr dir, w1) \<Rightarrow>
                   (case session_loop (tc_max_message_bytes c) inbox (hex_encode b) dir evs
                           (new_tot_limiter (tc_intake_max_msgs_per_sec c) now) (k, w1) of
                      (r, k2, w2) \<Rightarrow> (r, k2, snd (session_dir_drop dir w2))))))"

section \<open>The connection\<close>

text \<open>A stream with bytes pushed back in front of it; a read of up to \<open>n\<close> bytes of the socket takes what the peer sent.\<close>

record prefixed =
  px_prefix :: bytes
  px_pos :: nat
  px_inner :: bytes

definition prefixed_new :: "bytes \<Rightarrow> bytes \<Rightarrow> prefixed" where
  "prefixed_new front inner = \<lparr>px_prefix = front, px_pos = 0, px_inner = inner\<rparr>"

definition poll_read :: "nat \<Rightarrow> prefixed \<Rightarrow> bytes \<times> prefixed" where
  "poll_read n s =
     (if px_pos s < length (px_prefix s) then
        (let remaining = drop (px_pos s) (px_prefix s); m = min (length remaining) n in
         (take m remaining, s\<lparr>px_pos := px_pos s + m\<rparr>))
      else (take n (px_inner s), s\<lparr>px_inner := drop n (px_inner s)\<rparr>))"

text \<open>What a connection gives: its demultiplexed first bytes decide, the handshake (a parameter) yields the path of a
  WebSocket.\<close>

datatype demuxed = BadHead string | ToWebSocket prefixed | ToIntake bytes bytes

definition demux :: "bytes \<Rightarrow> demuxed" where
  "demux sent =
     (if length sent < 4 then BadHead ''read demux head: early eof''
      else if take 4 sent = ''GET '' then ToWebSocket (prefixed_new (take 4 sent) (drop 4 sent))
      else ToIntake (take 4 sent) (drop 4 sent))"

datatype ws_dispatch = Refused string | Leg tot_route

definition websocket_conn :: "bool \<Rightarrow> (prefixed \<Rightarrow> string + string) \<Rightarrow> prefixed \<Rightarrow> ws_dispatch" where
  "websocket_conn dev handshake s =
     (case handshake s of
        Inl e \<Rightarrow> Refused (''websocket handshake: '' @ e)
      | Inr path \<Rightarrow> (case route_parse dev path of Some r \<Rightarrow> Leg r | None \<Rightarrow> Refused (''unknown route '' @ debug_str path)))"

text \<open>What the world gives a connection: what the peer sends, the path the handshake yields, the messages or events of a WebSocket, the
  random bytes of a session, the clock, the parts of a delivery's name, the sends its side takes and the nodes.\<close>

record tot_conn =
  cn_sent :: bytes
  cn_handshake :: "prefixed \<Rightarrow> string + string"
  cn_messages :: "(nat \<times> name_parts \<times> ws_message) list"
  cn_events :: "session_event list"
  cn_entropy :: "string + bytes"
  cn_now :: nat
  cn_parts :: name_parts
  cn_takes :: "nat \<Rightarrow> bool"
  cn_connect :: "string \<Rightarrow> string + tunnel_node"

definition handle_conn ::
  "bool \<Rightarrow> tot_config \<Rightarrow> string \<times> string \<Rightarrow> tot_conn \<Rightarrow> sink \<times> world \<Rightarrow> (string + unit) \<times> sink \<times> world" where
  "handle_conn dev c inbox cn = (\<lambda>(k, w).
     case demux (cn_sent cn) of
       BadHead e \<Rightarrow> (Inl e, k, w)
     | ToIntake head rest \<Rightarrow>
         (case tcp_intake_leg (tc_max_message_bytes c) inbox (cn_parts cn) head rest w of (r, w1) \<Rightarrow> (r, k, w1))
     | ToWebSocket s \<Rightarrow>
         (case websocket_conn dev (cn_handshake cn) s of
            Refused e \<Rightarrow> (Inl e, k, w)
          | Leg RouteIntake \<Rightarrow> (case intake_leg c inbox (cn_now cn) (cn_messages cn) w of (r, w1) \<Rightarrow> (r, k, w1))
          | Leg RouteSession \<Rightarrow> session_leg c inbox (cn_entropy cn) (cn_now cn) (cn_events cn) (k, w)
          | Leg (RouteNabla n) \<Rightarrow>
              (snd (nabla_leg (cn_connect cn) (cn_takes cn) (map (\<lambda>m. snd (snd m)) (cn_messages cn)) n c), k, w)
          | Leg (RouteFatmama n) \<Rightarrow>
              (snd (fatmama_leg (cn_connect cn) (cn_takes cn) (map (\<lambda>m. snd (snd m)) (cn_messages cn)) n c), k, w)))"

section \<open>Start\<close>

text \<open>The steps before the accept loop, in order; the result is the opened inbox.  The socket and the runtime
  either come up or give an error.\<close>

record tot_start_env =
  ts_arg :: "string option"
  ts_contents :: "string \<Rightarrow> string + string"
  ts_parse :: "string \<Rightarrow> string + tot_config"
  ts_bind :: "string \<Rightarrow> string + unit"
  ts_nonblocking :: "string + unit"
  ts_outbox :: "string \<Rightarrow> string + outbox_entry list"
  ts_seccomp :: seccomp_env
  ts_runtime :: "string + unit"

definition with_text :: "string \<Rightarrow> string + 'a \<Rightarrow> string + 'a" where
  "with_text what = map_err (\<lambda>e. what @ '': '' @ e)"

definition tot_run :: "tot_start_env \<Rightarrow> (tot_config \<times> string \<times> string) io" where
  "tot_run env =
     (case (case ts_arg env of None \<Rightarrow> Inl ''usage: tot <config.toml>'' | Some p \<Rightarrow> tot_load (ts_contents env) (ts_parse env) p) of
        Inl e \<Rightarrow> io_fail e
      | Inr c \<Rightarrow>
          (\<lambda>w. case inbox_open (tc_maildir_inbox c) w of
             (Inl e, w1) \<Rightarrow> (Inl (''open maildir inbox '' @ tc_maildir_inbox c @ '': '' @ e), w1)
           | (Inr inbox, w1) \<Rightarrow>
               (case res_bind (with_text (''bind '' @ tc_listen c) (ts_bind env (tc_listen c)))
                       (\<lambda>_. with_text ''listener set_nonblocking'' (ts_nonblocking env)) of
                  Inl e \<Rightarrow> (Inl e, w1)
                | Inr _ \<Rightarrow>
                    (case (case tc_custody_outbox c of
                             None \<Rightarrow> (Inr 0, w1)
                           | Some outbox \<Rightarrow>
                               (case sweep_stale_sessions outbox (ts_outbox env outbox) w1 of
                                  (Inl e, w2) \<Rightarrow> (Inl (''custody outbox '' @ outbox @ '' unusable: '' @ e), w2)
                                | (Inr n, w2) \<Rightarrow> (Inr n, w2))) of
                       (Inl e, w2) \<Rightarrow> (Inl e, w2)
                     | (Inr (n :: nat), w2) \<Rightarrow>
                         (case res_bind (sandbox_install (ts_seccomp env)) (\<lambda>_. with_text ''build tokio runtime'' (ts_runtime env)) of
                            Inl e \<Rightarrow> (Inl e, w2)
                          | Inr _ \<Rightarrow> (Inr (c, inbox), w2))))))"

text \<open>The accept loop over what \<open>accept\<close> gives: every connection is spawned, an error is only logged.\<close>

definition tot_serve :: "string + unit \<Rightarrow> (string + 'c) list \<Rightarrow> string + 'c list" where
  "tot_serve adopted accepts =
     res_bind (with_text ''adopt listener'' adopted) (\<lambda>_. Inr (List.map_filter ok_opt accepts))"

text \<open>Nothing is served outside the sandbox.\<close>

lemma tot_run_sandboxed: "tot_run env w = (Inr r, w') \<Longrightarrow> sandbox_install (ts_seccomp env) = Inr ()"
  by (auto simp: tot_run_def res_bind_Inr io_fail_def split: option.splits sum.splits prod.splits)

end
