(* ===== verification/TotPromises.thy ===== *)
theory TotPromises
  imports TotSession
begin

text \<open>
  What the tunnel carrier promises: the stamp changes nothing of a message's text but the header it owns, the limiter of a connection
  bounds what a second can let in, a raw frame is delivered whole or not at all, and the bytes read to choose
  a leg reach the handshake.
\<close>

section \<open>Lines\<close>

text \<open>The lines \<open>split_inclusive\<close> can give: each ends with its only line feed, the last may lack it but is not empty.\<close>

fun proper_lines :: "string list \<Rightarrow> bool" where
  "proper_lines [] = True"
| "proper_lines [l] = (l \<noteq> [] \<and> CHR 0x0A \<notin> set (butlast l))"
| "proper_lines (l # ls) = ((\<exists>m. l = m @ [CHR 0x0A] \<and> CHR 0x0A \<notin> set m) \<and> proper_lines ls)"

lemma proper_lines_Cons:
  "proper_lines (l # ls) \<longleftrightarrow> (if ls = [] then l \<noteq> [] \<and> CHR 0x0A \<notin> set (butlast l)
     else (\<exists>m. l = m @ [CHR 0x0A] \<and> CHR 0x0A \<notin> set m) \<and> proper_lines ls)"
  by (cases ls) auto

lemma concat_lines [simp]: "concat (lines_inclusive s) = s"
  by (induction s) (auto split: list.splits)

lemma proper_lines_inclusive: "proper_lines (lines_inclusive s)"
proof (induction s)
  case (Cons c s)
  show ?case
  proof (cases "c = CHR 0x0A")
    case True
    then show ?thesis using Cons by (auto simp: proper_lines_Cons)
  next
    case False
    show ?thesis
    proof (cases "lines_inclusive s")
      case (Cons l ls)
      have "proper_lines (l # ls)" using Cons.IH Cons by simp
      then show ?thesis using False Cons by (auto simp: proper_lines_Cons split: if_splits intro: exI [of _ "c # _"])
    qed (use False in auto)
  qed
qed simp

lemma lines_full: "CHR 0x0A \<notin> set m \<Longrightarrow> lines_inclusive (m @ CHR 0x0A # s) = (m @ [CHR 0x0A]) # lines_inclusive s"
  by (induction m) auto

lemma lines_open: "l \<noteq> [] \<Longrightarrow> CHR 0x0A \<notin> set l \<Longrightarrow> lines_inclusive l = [l]"
proof (induction l)
  case (Cons c l)
  then show ?case by (cases l) auto
qed simp

lemma lines_concat: "proper_lines ls \<Longrightarrow> lines_inclusive (concat ls) = ls"
proof (induction ls)
  case (Cons l ls)
  show ?case
  proof (cases "ls = []")
    case True
    then have l: "l \<noteq> []" "CHR 0x0A \<notin> set (butlast l)" using Cons.prems by auto
    show ?thesis
    proof (cases "last l = CHR 0x0A")
      case True
      then have "l = butlast l @ [CHR 0x0A]" using l(1) by (metis append_butlast_last_id)
      then show ?thesis using lines_full [OF l(2), of "[]"] \<open>ls = []\<close> by simp
    next
      case False
      then have "CHR 0x0A \<notin> set l" using l by (metis append_butlast_last_id rotate1.simps(2) set_ConsD set_rotate1)
      then show ?thesis using lines_open [OF l(1)] \<open>ls = []\<close> by simp
    qed
  next
    case False
    then obtain m where "l = m @ [CHR 0x0A]" "CHR 0x0A \<notin> set m" "proper_lines ls"
      using Cons.prems by (auto simp: proper_lines_Cons)
    then show ?thesis using Cons.IH lines_full [of m "concat ls"] by simp
  qed
qed simp

lemma proper_lines_keep: "proper_lines (l # ls) \<Longrightarrow> proper_lines ks \<Longrightarrow> (ks \<noteq> [] \<Longrightarrow> ls \<noteq> []) \<Longrightarrow> proper_lines (l # ks)"
  by (auto simp: proper_lines_Cons split: if_splits)

lemma proper_lines_tl: "proper_lines (l # ls) \<Longrightarrow> proper_lines ls"
  by (cases ls) auto

lemma proper_lines_filter: "proper_lines (a @ b) \<Longrightarrow> proper_lines (filter P a @ b)"
proof (induction a)
  case (Cons l a)
  then have "proper_lines (filter P a @ b)" using proper_lines_tl by simp
  then have "proper_lines (l # filter P a @ b)"
    using Cons.prems by (intro proper_lines_keep [of l "a @ b" "filter P a @ b"]) auto
  then show ?case using \<open>proper_lines (filter P a @ b)\<close> by simp
qed simp

section \<open>The stamp\<close>

text \<open>The lines of a message up to the first blank one, and what follows them.\<close>

definition header_lines :: "bytes \<Rightarrow> string list" where
  "header_lines s = takeWhile (\<lambda>l. strip_eol l \<noteq> []) (lines_inclusive s)"

definition body_part :: "bytes \<Rightarrow> bytes" where
  "body_part s = concat (dropWhile (\<lambda>l. strip_eol l \<noteq> []) (lines_inclusive s))"

lemma copy_lines_body: "copy_lines False ls = concat ls"
  by (induction ls) auto

lemma copy_lines_split: "copy_lines True ls =
    concat (filter (\<lambda>l. \<not> is_tot_header l) (takeWhile (\<lambda>l. strip_eol l \<noteq> []) ls)) @ concat (dropWhile (\<lambda>l. strip_eol l \<noteq> []) ls)"
  by (induction ls) (auto simp: copy_lines_body)

lemma takeWhile_stop: "(\<forall>x \<in> set a. P x) \<Longrightarrow> takeWhile P (a @ dropWhile P b) = a \<and> dropWhile P (a @ dropWhile P b) = dropWhile P b"
  by (induction a) (auto, (metis dropWhile_eq_Cons_conv takeWhile_eq_Nil_iff hd_dropWhile list.exhaust_sel))

lemma stamp_line_full: "CHR 0x0A \<notin> set i \<Longrightarrow> \<exists>m. stamp_line i = m @ [CHR 0x0A] \<and> CHR 0x0A \<notin> set m"
  by (rule exI [of _ "''X-TOT-Session: '' @ i @ [CHR 0x0D]"]) (simp add: stamp_line_def)

lemma strip_eol_hex: "strip_eol (stamp_line (hex_encode b)) = ''X-TOT-Session: '' @ hex_encode b"
proof -
  have "last (hex_encode b) \<noteq> CHR 0x0D \<and> last (hex_encode b) \<noteq> CHR 0x0A" if "hex_encode b \<noteq> []"
    using hex_encode_digits [OF last_in_set [OF that]] by (auto simp: is_hex_digit_def is_digit_def byte_val_def)
  then show ?thesis
    by (cases "hex_encode b" rule: rev_cases) (auto simp: strip_eol_def stamp_line_def)
qed

lemma hex_no_lf: "CHR 0x0A \<notin> set (hex_encode b)"
  using hex_encode_digits [of "CHR 0x0A" b] by (auto simp: is_hex_digit_def is_digit_def byte_val_def)

lemma is_tot_stamp: "is_tot_header (stamp_line (hex_encode b))"
proof -
  have "ascii_lower ''X-TOT-Session: '' = ''x-tot-session: ''" by code_simp
  then show ?thesis unfolding is_tot_header_def strip_eol_hex ascii_lower_append by simp
qed

lemma stamp_lines:
  "let t = utf8_lossy raw in (case stamp_session raw (hex_encode b) of
      Inl e \<Rightarrow> \<not> has_header_block raw
    | Inr out \<Rightarrow> has_header_block raw \<and> body_part out = body_part t \<and>
        header_lines out = stamp_line (hex_encode b) # filter (\<lambda>l. \<not> is_tot_header l) (header_lines t) \<and>
        filter is_tot_header (header_lines out) = [stamp_line (hex_encode b)])"
proof (cases "has_header_block raw")
  case True
  let ?t = "utf8_lossy raw"
  let ?ne = "\<lambda>l. strip_eol l \<noteq> []" and ?ls = "lines_inclusive ?t" and ?st = "stamp_line (hex_encode b)"
  let ?hs = "filter (\<lambda>l. \<not> is_tot_header l) (takeWhile ?ne ?ls)" and ?bs = "dropWhile ?ne ?ls"
  let ?out = "?st @ concat ?hs @ concat ?bs"
  have out: "stamp_session raw (hex_encode b) = Inr ?out"
    using True by (simp add: stamp_session_def copy_lines_split)
  have "proper_lines (?hs @ ?bs)"
    using proper_lines_inclusive [of ?t] by (intro proper_lines_filter) simp
  then have "lines_inclusive ?out = ?st # ?hs @ ?bs"
    using lines_full lines_concat [of "?hs @ ?bs"] stamp_line_full [OF hex_no_lf [of b]] by auto
  then have ls: "lines_inclusive ?out = (?st # ?hs) @ ?bs" by simp
  have ne: "\<forall>l \<in> set (?st # ?hs). ?ne l"
    using set_takeWhileD by (fastforce simp: strip_eol_hex)
  have "header_lines ?out = ?st # ?hs" "body_part ?out = concat ?bs"
    using takeWhile_stop [OF ne, of ?ls] by (simp_all only: header_lines_def body_part_def ls)
  then show ?thesis using True out is_tot_stamp [of b] by (simp add: header_lines_def body_part_def Let_def)
qed (simp add: stamp_session_def)

text \<open>The custody header is recognised by its name directly before the colon.  The obsolete syntax of RFC 5322 allows blanks
  between the two, and a line that uses it is not dropped: it stays behind the stamp, for the parser on the other side to make
  of it what it will.\<close>

lemma obsolete_custody_kept:
  "case stamp_session (''X-TOT-Session : me'' @ [CHR 0x0A, CHR 0x0A]) (hex_encode ''Q'') of
     Inl e \<Rightarrow> False
   | Inr out \<Rightarrow> header_lines out = [stamp_line ''51'', ''X-TOT-Session : me'' @ [CHR 0x0A]]"
proof -
  let ?raw = "''X-TOT-Session : me'' @ [CHR 0x0A, CHR 0x0A]"
  have u: "utf8_lossy ?raw = ?raw" by (rule utf8_lossy_valid, rule utf8_valid_ascii) (auto simp: byte_val_def)
  have "has_header_block ?raw" "hex_encode ''Q'' = ''51''"
      "filter (\<lambda>l. \<not> is_tot_header l) (header_lines ?raw) = [''X-TOT-Session : me'' @ [CHR 0x0A]]"
    by code_simp+
  then show ?thesis using stamp_lines [of ?raw "''Q''"] unfolding u by (simp add: Let_def split: sum.splits)
qed

text \<open>C22. The stamp changes nothing of a message's text but the header it owns.  For every message, whatever its bytes: it is refused
  exactly when it has no header block; otherwise the stamped message is the text of the client's bytes (what is not UTF-8 in
  them replaced first, so that a message in UTF-8 is its own text and any other is changed by that replacement), with TOT's line in
  front, then the client's header lines in their order, without those that begin with the stamp's name and a colon, and then
  the body, byte for byte; so one line of the result begins that way, TOT's, whatever the client put in.\<close>

theorem stamp_exact:
  "(utf8_valid raw \<longrightarrow> utf8_lossy raw = raw) \<and>
   (let t = utf8_lossy raw in (case stamp_session raw (hex_encode b) of
      Inl e \<Rightarrow> \<not> has_header_block raw
    | Inr out \<Rightarrow> has_header_block raw \<and> body_part out = body_part t \<and>
        header_lines out = stamp_line (hex_encode b) # filter (\<lambda>l. \<not> is_tot_header l) (header_lines t) \<and>
        filter is_tot_header (header_lines out) = [stamp_line (hex_encode b)]))"
  using stamp_lines utf8_lossy_valid by blast

lemma stamp_exact_witness:
  "utf8_lossy (''x-tot-session: me'' @ [CHR 0x0A] @ ''To: v'' @ [CHR 0x0A, CHR 0x0A] @ ''body'') =
     ''x-tot-session: me'' @ [CHR 0x0A] @ ''To: v'' @ [CHR 0x0A, CHR 0x0A] @ ''body'' \<and>
   (case stamp_session (''x-tot-session: me'' @ [CHR 0x0A] @ ''To: v'' @ [CHR 0x0A, CHR 0x0A] @ ''body'') (hex_encode ''Q'') of
     Inl e \<Rightarrow> False
   | Inr out \<Rightarrow> body_part out = CHR 0x0A # ''body'' \<and> header_lines out = [stamp_line ''51'', ''To: v'' @ [CHR 0x0A]])"
proof -
  let ?raw = "''x-tot-session: me'' @ [CHR 0x0A] @ ''To: v'' @ [CHR 0x0A, CHR 0x0A] @ ''body''"
  have "utf8_valid ?raw" by (rule utf8_valid_ascii) (auto simp: byte_val_def)
  then have u: "utf8_lossy ?raw = ?raw" using stamp_exact [of ?raw] by blast
  have "has_header_block ?raw" "body_part ?raw = CHR 0x0A # ''body''" "hex_encode ''Q'' = ''51''"
      "filter (\<lambda>l. \<not> is_tot_header l) (header_lines ?raw) = [''To: v'' @ [CHR 0x0A]]"
    by code_simp+
  then show ?thesis using stamp_exact [of ?raw "''Q''"] u by (simp add: Let_def split: sum.splits)
qed

text \<open>Bytes that are not UTF-8 are not kept.\<close>

lemma stamp_replaces:
  "case stamp_session (''To: v'' @ [CHR 0x0A, CHR 0x0A, CHR 0xE9]) (hex_encode ''Q'') of
     Inl e \<Rightarrow> False
   | Inr out \<Rightarrow> body_part out = [CHR 0x0A, CHR 0xEF, CHR 0xBF, CHR 0xBD]"
proof -
  let ?raw = "''To: v'' @ [CHR 0x0A, CHR 0x0A, CHR 0xE9]"
  have "has_header_block ?raw" "body_part (utf8_lossy ?raw) = [CHR 0x0A, CHR 0xEF, CHR 0xBF, CHR 0xBD]" by code_simp+
  then show ?thesis using stamp_lines [of ?raw "''Q''"] by (simp add: Let_def split: sum.splits)
qed

section \<open>The rate limiter\<close>

text \<open>The answers the limiter gives when it is asked at each of the times \<open>ts\<close>, and how many of them let a message of the second that
  starts at \<open>a\<close> in.\<close>

fun rl_run :: "nat list \<Rightarrow> tot_limiter \<Rightarrow> (nat \<times> bool) list" where
  "rl_run [] l = []"
| "rl_run (t # ts) l = (case rl_allow t l of (ok, l') \<Rightarrow> (t, ok) # rl_run ts l')"

definition let_in :: "nat \<Rightarrow> (nat \<times> bool) list \<Rightarrow> nat" where
  "let_in a xs = length (filter (\<lambda>(t, ok). ok \<and> a \<le> t \<and> t < a + 1000) xs)"

definition window :: "nat \<Rightarrow> nat \<Rightarrow> nat \<Rightarrow> tot_limiter" where
  "window m ws c = \<lparr>rl_max_per_sec = m, rl_window_start = ws, rl_count = c\<rparr>"

lemma rl_run_Cons: "0 < m \<Longrightarrow> rl_run (t # ts) (window m ws c) =
    (if 1000 \<le> t - ws then (t, 1 \<le> m) # rl_run ts (window m t 1) else (t, c + 1 \<le> m) # rl_run ts (window m ws (c + 1)))"
  by (simp add: rl_allow_def window_def Let_def)

lemma let_in_simps [simp]: "let_in a [] = 0"
  "let_in a ((t, ok) # xs) = (if ok \<and> a \<le> t \<and> t < a + 1000 then 1 else 0) + let_in a xs"
  by (simp_all add: let_in_def)

lemma let_in_past: "\<forall>t \<in> set ts. a + 1000 \<le> t \<Longrightarrow> let_in a (rl_run ts l) = 0"
  by (induction ts arbitrary: l) (auto split: prod.splits)

lemma let_in_own: "0 < m \<Longrightarrow> sorted (ws # ts) \<Longrightarrow> a \<le> ws \<Longrightarrow> let_in a (rl_run ts (window m ws c)) \<le> m - c"
proof (induction ts arbitrary: c)
  case (Cons t ts)
  then have later: "1000 \<le> t - ws \<Longrightarrow> \<forall>u \<in> set (t # ts). a + 1000 \<le> u" by fastforce
  show ?case
    using Cons.IH [of "c + 1"] Cons.prems let_in_past [of ts a] later by (auto simp: rl_run_Cons simp del: rl_run.simps)
qed simp

lemma let_in_straddle:
  "0 < m \<Longrightarrow> sorted (ws # ts) \<Longrightarrow> \<forall>t \<in> set ts. a \<le> t \<Longrightarrow> let_in a (rl_run ts (window m ws c)) \<le> (m - c) + m"
proof (induction ts arbitrary: c)
  case (Cons t ts)
  then have "let_in a (rl_run ts (window m ws (c + 1))) \<le> (m - (c + 1)) + m" by simp
  then show ?case
    using Cons.prems let_in_own [of m t ts a 1] by (auto simp: rl_run_Cons simp del: rl_run.simps)
qed simp

lemma let_in_bound: "0 < m \<Longrightarrow> sorted (ws # ts) \<Longrightarrow> let_in a (rl_run ts (window m ws c)) \<le> 2 * m"
proof (induction ts arbitrary: ws c)
  case (Cons t ts)
  show ?case
  proof (cases "a \<le> t")
    case True
    then have "\<forall>u \<in> set (t # ts). a \<le> u" using Cons.prems(2) by auto
    then show ?thesis using let_in_straddle [OF Cons.prems, of a c] by simp
  next
    case False
    then show ?thesis using Cons by (auto simp: rl_run_Cons simp del: rl_run.simps)
  qed
qed simp

text \<open>C29. The limiter of a connection bounds what any second lets in: however the messages are spaced, and wherever the second starts,
  at most twice the configured rate of them are admitted in it; within one window of its own it admits
  at most the rate.  (Twice: a fixed window lets its budget through at the end of one window and again at the start of the
  next.)\<close>

theorem tot_rate_bound:
  assumes "0 < m" "sorted (now # ts)"
  shows "let_in a (rl_run ts (new_tot_limiter m now)) \<le> 2 * m \<and> let_in now (rl_run ts (new_tot_limiter m now)) \<le> m"
  using let_in_bound [OF assms, of a 0] let_in_own [OF assms, of now 0] by (simp add: new_tot_limiter_def window_def)

lemma tot_rate_bound_witness:
  "let_in 500 (rl_run [900, 901, 999, 1000, 1001, 1002] (new_tot_limiter 2 0)) \<le> 2 * 2 \<and>
   let_in 0 (rl_run [900, 901, 999, 1000, 1001, 1002] (new_tot_limiter 2 0)) \<le> 2"
  by (rule tot_rate_bound) simp_all

text \<open>The bound is reached: the budget of one window and the budget of the next fall into one second.\<close>

lemma tot_rate_tight: "let_in 500 (rl_run [900, 901, 999, 1000, 1001, 1002] (new_tot_limiter 2 0)) = 4"
  by code_simp

section \<open>The raw frame\<close>

lemma deliver_cases:
  "tot_deliver inbox (secs, nanos, seq, pid) b w = (r, w') \<Longrightarrow>
     \<exists>d. inbox_deliver inbox (unique_name secs nanos seq pid) b w = (d, w') \<and> is_ok d = is_ok r"
  by (auto simp: tot_deliver_def split: prod.splits sum.splits)

text \<open>C28. A raw frame is delivered whole or not at all: a frame of length zero, above the cap, or cut short leaves every file
  as it is and is an error; an accepted one is the file of its fresh name, exactly the announced bytes, no other file than it and
  its temporary one changes, and a power loss at any moment leaves the name absent (as it was) or complete.\<close>

theorem tcp_intake_exact:
  assumes "tcp_intake_leg cap (path_join base ''tmp'', path_join base ''new'') (secs, nanos, seq, pid) head rest w = (r, w')"
  defines "len \<equiv> of_le32 head"
    and "q \<equiv> path_join (path_join base ''new'') (unique_name secs nanos seq pid)"
    and "t \<equiv> path_join (path_join base ''tmp'') (unique_name secs nanos seq pid)"
  shows "(len = 0 \<or> cap < len \<or> length rest < len \<longrightarrow> w' = w \<and> \<not> is_ok r) \<and>
    (is_ok r \<longrightarrow> files w' q = Some (take len rest)) \<and>
    (\<forall>p. p \<noteq> q \<and> p \<noteq> t \<longrightarrow> files w' p = files w p) \<and>
    (\<forall>h c. h \<in> set (hist w') \<and> h \<notin> set (hist w) \<and> \<not> unsynced w q \<and> after_crash h q c \<longrightarrow>
       c = files w q \<or> c = Some (take len rest))"
proof (cases "len = 0 \<or> cap < len \<or> length rest < len")
  case True
  then show ?thesis using assms(1) by (auto simp: tcp_intake_leg_def len_def Let_def split: if_splits)
next
  case False
  let ?a = "(base, secs, nanos, seq, pid)" and ?in = "(path_join base ''tmp'', path_join base ''new'')"
  obtain d where d: "inbox_deliver ?in (unique_name secs nanos seq pid) (take len rest) w = (d, w')" "is_ok d = is_ok r"
    using False assms(1) deliver_cases [of ?in secs nanos seq pid "take len rest" w r w'] by (auto simp: tcp_intake_leg_def len_def Let_def)
  have "is_ok r \<longrightarrow> files w' q = Some (take len rest)"
    using inbox.put_done [of ?a "take len rest" w _ w'] d by (auto simp: is_ok_iff q_def)
  moreover have "p \<noteq> q \<and> p \<noteq> t \<longrightarrow> files w' p = files w p" for p
    using inbox.put_frame [of ?a "take len rest" w d w' p] d(1) by (auto simp: q_def t_def)
  moreover have "h \<in> set (hist w') \<and> h \<notin> set (hist w) \<and> \<not> unsynced w q \<and> after_crash h q c \<longrightarrow>
      c = files w q \<or> c = Some (take len rest)" for h c
    using inbox.put_power_loss [of ?a "take len rest" w d w' h c] d(1) by (auto simp: q_def)
  ultimately show ?thesis using False by blast
qed

lemma tcp_intake_exact_witness:
  "let out = tcp_intake_leg 8 (''i/tmp'', ''i/new'') (1, 2, 3, 4) [CHR 0x02, CHR 0x00, CHR 0x00, CHR 0x00] ''hello'' no_files in
   files (snd out) ''i/new/1.2.M3P4.tot'' = Some ''he'' \<and> files (snd out) ''i/cur'' = None"
proof -
  let ?out = "tcp_intake_leg 8 (''i/tmp'', ''i/new'') (1, 2, 3, 4) [CHR 0x02, CHR 0x00, CHR 0x00, CHR 0x00] ''hello'' no_files"
  have l: "of_le32 [CHR 0x02, CHR 0x00, CHR 0x00, CHR 0x00] = 2" by (simp add: byte_val_def)
  have d: "is_ok (fst (tot_deliver (''i/tmp'', ''i/new'') (1, 2, 3, 4) ''he'' no_files))" by code_simp
  have ok: "is_ok (fst ?out)" unfolding tcp_intake_leg_def l Let_def using d by simp
  have j: "path_join ''i'' ''tmp'' = ''i/tmp''" "path_join ''i'' ''new'' = ''i/new''"
    "path_join ''i/new'' (unique_name 1 2 3 4) = ''i/new/1.2.M3P4.tot''" "path_join ''i/tmp'' (unique_name 1 2 3 4) = ''i/tmp/1.2.M3P4.tot''"
    by code_simp+
  show ?thesis
    using tcp_intake_exact [of 8 "''i''" 1 2 3 4 "[CHR 0x02, CHR 0x00, CHR 0x00, CHR 0x00]" "''hello''" no_files "fst ?out" "snd ?out"]
    unfolding j l using ok by (simp add: Let_def no_files_def)
qed

section \<open>The stream with a prefix\<close>

definition remaining_stream :: "prefixed \<Rightarrow> bytes" where
  "remaining_stream s = drop (px_pos s) (px_prefix s) @ px_inner s"

fun px_reads :: "nat list \<Rightarrow> prefixed \<Rightarrow> bytes \<times> prefixed" where
  "px_reads [] s = ([], s)"
| "px_reads (n # ns) s = (case poll_read n s of (b, s1) \<Rightarrow> case px_reads ns s1 of (bs, s2) \<Rightarrow> (b @ bs, s2))"

lemma poll_read_step:
  "case poll_read n s of (b, s1) \<Rightarrow> remaining_stream s = b @ remaining_stream s1 \<and> length b \<le> n \<and> (b = [] \<longrightarrow> n = 0 \<or> remaining_stream s = [])"
proof -
  have "take n (drop (px_pos s) (px_prefix s)) @ drop (px_pos s + n) (px_prefix s) = drop (px_pos s) (px_prefix s)"
    by (metis add.commute append_take_drop_id drop_drop)
  then show ?thesis by (auto simp: poll_read_def remaining_stream_def Let_def min_def)
qed

lemma poll_readD: "poll_read n s = (b, s1) \<Longrightarrow> length b \<le> n \<and> (b = [] \<longrightarrow> n = 0 \<or> remaining_stream s = [])"
  by (auto simp: poll_read_def remaining_stream_def Let_def split: if_splits)

lemma px_reads_step:
  "case px_reads ns s of (b, s1) \<Rightarrow> remaining_stream s = b @ remaining_stream s1"
proof (induction ns arbitrary: s)
  case (Cons n ns)
  obtain b s1 where p: "poll_read n s = (b, s1)" by fastforce
  then show ?case using poll_read_step [where n = n and s = s] Cons.IH [of s1] by (auto split: prod.splits)
qed simp

lemma px_reads_all: "0 \<notin> set ns \<Longrightarrow> length (remaining_stream s) \<le> length ns \<Longrightarrow> fst (px_reads ns s) = remaining_stream s"
proof (induction ns arbitrary: s)
  case (Cons n ns)
  obtain b s1 where p: "poll_read n s = (b, s1)" by fastforce
  then have st: "remaining_stream s = b @ remaining_stream s1" "b = [] \<longrightarrow> remaining_stream s = []"
    using poll_read_step [where n = n and s = s] Cons.prems(1) by auto
  then have "length (remaining_stream s1) \<le> length ns" using Cons.prems(2) by (cases b) auto
  then have "fst (px_reads ns s1) = remaining_stream s1" using Cons by simp
  then show ?case using p st by (auto split: prod.splits)
qed simp

text \<open>C26. The four bytes read to choose a leg are lost to neither: the stream handed to the handshake behaves as the socket did before
  them.  However its reader sizes its reads, what they give is what the peer sent, in order, from its first
  byte, with nothing lost or repeated, each read gives no more than asked for, a non-empty read of a stream that has bytes left gives
  some, and enough reads give them all; and the raw leg has the length and the rest.  A raw frame cannot be taken
  for a WebSocket below a cap of 542393671, the length its first bytes would spell.\<close>

theorem demux_transparent:
  "case demux sent of
     BadHead e \<Rightarrow> length sent < 4
   | ToIntake head rest \<Rightarrow> head @ rest = sent \<and> length head = 4
   | ToWebSocket s \<Rightarrow> of_le32 (take 4 sent) = 542393671 \<and>
       (\<forall>ns. case px_reads ns s of (got, s1) \<Rightarrow>
          sent = got @ remaining_stream s1 \<and>
          (0 \<notin> set ns \<and> length sent \<le> length ns \<longrightarrow> got = sent) \<and>
          (\<forall>n. case poll_read n s1 of (b, s2) \<Rightarrow> length b \<le> n \<and> (b = [] \<longrightarrow> n = 0 \<or> remaining_stream s1 = [])))"
proof (cases "length sent < 4 \<or> take 4 sent \<noteq> ''GET ''")
  case False
  let ?s = "prefixed_new (take 4 sent) (drop 4 sent)"
  have r: "remaining_stream ?s = sent" by (simp add: remaining_stream_def prefixed_new_def)
  have "of_le32 (take 4 sent) = 542393671" using False by (simp add: byte_val_def)
  moreover have "case px_reads ns ?s of (got, s1) \<Rightarrow> sent = got @ remaining_stream s1 \<and>
      (0 \<notin> set ns \<and> length sent \<le> length ns \<longrightarrow> got = sent) \<and>
      (\<forall>n. case poll_read n s1 of (b, s2) \<Rightarrow> length b \<le> n \<and> (b = [] \<longrightarrow> n = 0 \<or> remaining_stream s1 = []))" for ns
  proof -
    obtain got s1 where p: "px_reads ns ?s = (got, s1)" by fastforce
    have "sent = got @ remaining_stream s1" using px_reads_step [where ns = ns and s = ?s] p r by simp
    moreover have "0 \<notin> set ns \<and> length sent \<le> length ns \<longrightarrow> got = sent" using px_reads_all [of ns ?s] p r by simp
    ultimately show ?thesis using p poll_readD by (auto split: prod.splits)
  qed
  ultimately show ?thesis using False by (simp add: demux_def)
qed (auto simp: demux_def)

lemma demux_transparent_witness:
  "case px_reads [3, 2, 2, 9, 9, 9, 9] (prefixed_new ''GET '' ''/s'') of (got, s1) \<Rightarrow> got = ''GET /s'' \<and> remaining_stream s1 = []"
proof -
  have "demux ''GET /s'' = ToWebSocket (prefixed_new ''GET '' ''/s'')" by code_simp
  then show ?thesis using demux_transparent [of "''GET /s''"] by (auto split: prod.splits dest!: spec [of _ "[3, 2, 2, 9, 9, 9, 9]"])
qed

end
