(* ===== verification/TotReach.thy ===== *)
theory TotReach
  imports TotPromises
begin

text \<open>
  What a connection to the tunnel carrier can reach: the files of its own inbox and of its own session directory, and the
  attested nodes.
\<close>

section \<open>Files\<close>

text \<open>The files a run leaves as they were are all but those that satisfy \<open>P\<close>.\<close>

definition stays_in :: "(string \<Rightarrow> bool) \<Rightarrow> world \<Rightarrow> world \<Rightarrow> bool" where
  "stays_in P w w' = (\<forall>p. files w' p \<noteq> files w p \<longrightarrow> P p)"

lemma stays_in_refl [simp]: "stays_in P w w"
  by (simp add: stays_in_def)

lemma stays_in_trans: "stays_in P u v \<Longrightarrow> stays_in P v w \<Longrightarrow> stays_in P u w"
  by (simp add: stays_in_def) metis

lemma stays_in_weaken: "stays_in P u v \<Longrightarrow> (\<And>p. P p \<Longrightarrow> Q p) \<Longrightarrow> stays_in Q u v"
  by (auto simp: stays_in_def)

text \<open>A file of the inbox at \<open>base\<close>: in \<open>tmp\<close> or \<open>new\<close>, under a name the carrier makes.\<close>

definition inbox_file :: "string \<Rightarrow> string \<Rightarrow> bool" where
  "inbox_file base p = (\<exists>secs nanos seq pid. p = path_join (path_join base ''tmp'') (unique_name secs nanos seq pid) \<or>
     p = path_join (path_join base ''new'') (unique_name secs nanos seq pid))"

abbreviation inbox_of :: "string \<Rightarrow> string \<times> string" where
  "inbox_of base \<equiv> (path_join base ''tmp'', path_join base ''new'')"

lemma deliver_reach: "tot_deliver (inbox_of base) parts b w = (r, w') \<Longrightarrow> stays_in (inbox_file base) w w'"
proof -
  assume run: "tot_deliver (inbox_of base) parts b w = (r, w')"
  obtain secs nanos seq pid where p: "parts = (secs, nanos, seq, pid)" by (cases parts) auto
  obtain d where d: "inbox_deliver (inbox_of base) (unique_name secs nanos seq pid) b w = (d, w')"
    using run deliver_cases unfolding p by blast
  have "files w' q = files w q" if "q \<noteq> path_join (path_join base ''tmp'') (unique_name secs nanos seq pid)"
      "q \<noteq> path_join (path_join base ''new'') (unique_name secs nanos seq pid)" for q
    using that inbox.put_frame [of "(base, secs, nanos, seq, pid)" b w d w' q] d by simp
  then show ?thesis unfolding stays_in_def inbox_file_def by metis
qed

lemma tcp_intake_reach: "tcp_intake_leg cap (inbox_of base) parts head rest w = (r, w') \<Longrightarrow> stays_in (inbox_file base) w w'"
  by (auto simp: tcp_intake_leg_def Let_def intro: deliver_reach split: if_splits)

lemma intake_reach: "intake_loop cap (inbox_of base) ms l w = (r, w') \<Longrightarrow> stays_in (inbox_file base) w w'"
proof (induction cap "inbox_of base" ms l w rule: intake_loop.induct)
  case (2 cap now parts m ms l w)
  show ?case
  proof (cases "\<exists>b. m = WsBinary b")
    case True
    then obtain b where m: "m = WsBinary b" by blast
    obtain d w1 where d: "tot_deliver (inbox_of base) parts b w = (d, w1)" by fastforce
    have "stays_in (inbox_file base) w w1" using deliver_reach [OF d] .
    then show ?thesis using 2 d m by (auto split: if_splits prod.splits bool.splits sum.splits intro: stays_in_trans)
  next
    case False
    then show ?thesis using 2 by (cases m) auto
  qed
qed simp

text \<open>A file of a session: a direct entry of its directory, or anywhere below it.  What a listing names is one component.\<close>

definition session_file :: "string \<Rightarrow> string \<Rightarrow> bool" where
  "session_file dir p = (below dir p \<or> (\<exists>name. CHR ''/'' \<notin> set name \<and> p = path_join dir name))"

definition honest_listing :: "session_event \<Rightarrow> bool" where
  "honest_listing ev = (case ev of PollTick (Inr names) \<Rightarrow> (\<forall>n \<in> set names. CHR ''/'' \<notin> set n) | _ \<Rightarrow> True)"

lemma send_files_reach:
  "send_files dir names (k, w) = (r, k', w') \<Longrightarrow> \<forall>n \<in> set names. CHR ''/'' \<notin> set n \<Longrightarrow> stays_in (session_file dir) w w'"
proof (induction names arbitrary: k w)
  case (Cons name names)
  let ?f = "path_join dir name"
  obtain d w1 where d: "maildir_read_message ?f w = (d, w1)" by fastforce
  have w1: "files w1 = files w" using d by (auto simp: maildir_read_message_def split: option.splits list.splits)
  have rm: "stays_in (session_file dir) w (snd (remove_file ?f w1))"
    using w1 Cons.prems(2) by (auto simp: stays_in_def session_file_def remove_file_def prim_def observed_def Let_def
        split: option.splits list.splits if_splits)
  show ?case
  proof (cases d)
    case (Inr b)
    obtain s k1 where s: "sink_send b k = (s, k1)" by fastforce
    show ?thesis
    proof (cases s)
      case (Inr u)
      then have "send_files dir names (k1, snd (remove_file ?f w1)) = (r, k', w')" using Cons.prems(1) d \<open>d = Inr b\<close> s by (simp add: Let_def)
      then show ?thesis using Cons.IH Cons.prems(2) rm by (auto intro: stays_in_trans)
    qed (use Cons.prems(1) d Inr s w1 in \<open>auto simp: Let_def stays_in_def\<close>)
  qed (use Cons.prems(1) d w1 in \<open>auto simp: Let_def stays_in_def\<close>)
qed simp

lemma remove_dir_reach: "stays_in (session_file dir) w (snd (session_dir_drop dir w))"
  by (auto simp: stays_in_def session_file_def session_dir_drop_def io_ignore_def remove_dir_all_def prim_def observed_def Let_def
      split: option.splits if_splits)

definition session_reach :: "string \<Rightarrow> string \<Rightarrow> string \<Rightarrow> bool" where
  "session_reach base dir p = (inbox_file base p \<or> session_file dir p)"

lemma session_step_reach:
  assumes "session_step cap (inbox_of base) i dir ev l (k, w) = t" "honest_listing ev"
  shows "stays_in (session_reach base dir) w (case t of Ended r kw \<Rightarrow> snd kw | Going l1 kw \<Rightarrow> snd kw)"
proof (cases ev)
  case (PollTick listing)
  obtain d k1 w1 where d: "pump_replies dir listing (k, w) = (d, k1, w1)" by (metis surj_pair)
  have "stays_in (session_file dir) w w1"
    using d assms(2) PollTick by (cases listing) (auto simp: pump_replies_def honest_listing_def intro!: send_files_reach)
  then have "stays_in (session_reach base dir) w w1" by (rule stays_in_weaken) (simp add: session_reach_def)
  then show ?thesis using assms(1) d PollTick by (cases d) (auto simp: session_step_def)
next
  case (Frame now parts m)
  show ?thesis
  proof (cases "\<exists>b. m = WsBinary b")
    case True
    then obtain b where m: "m = WsBinary b" by blast
    obtain ok l1 where ok: "rl_allow now l = (ok, l1)" by fastforce
    show ?thesis
    proof (cases "cap < length b \<or> \<not> ok \<or> \<not> is_ok (stamp_session b i)")
      case True
      then show ?thesis using assms(1) Frame m ok by (auto simp: session_step_def split: sum.splits if_splits bool.splits)
    next
      case False
      then obtain st where st: "stamp_session b i = Inr st" by (auto simp: is_ok_iff)
      obtain d w1 where d: "tot_deliver (inbox_of base) parts st w = (d, w1)" by fastforce
      have "stays_in (session_reach base dir) w w1"
        using deliver_reach [OF d] by (rule stays_in_weaken) (simp add: session_reach_def)
      then show ?thesis using assms(1) False Frame m ok st d by (cases d) (auto simp: session_step_def)
    qed
  next
    case False
    then show ?thesis using assms(1) Frame by (cases m) (auto simp: session_step_def)
  qed
qed (use assms(1) in \<open>auto simp: session_step_def\<close>)

lemma session_loop_reach:
  "session_loop cap (inbox_of base) i dir evs l (k, w) = (r, k', w') \<Longrightarrow> \<forall>ev \<in> set evs. honest_listing ev \<Longrightarrow>
     stays_in (session_reach base dir) w w'"
proof (induction evs arbitrary: l k w)
  case (Cons ev evs)
  obtain t where t: "session_step cap (inbox_of base) i dir ev l (k, w) = t" by simp
  show ?case
  proof (cases t)
    case (Going l1 kw1)
    then show ?thesis using Cons session_step_reach [OF t] t by (cases kw1) (auto intro: stays_in_trans)
  qed (use Cons.prems session_step_reach [OF t] t in auto)
qed simp

text \<open>What a connection may touch: its inbox, and the directory of its session when it opens one.\<close>

definition reach_of :: "tot_config \<Rightarrow> string \<Rightarrow> string + bytes \<Rightarrow> string \<Rightarrow> bool" where
  "reach_of c base entropy p = (inbox_file base p \<or>
     (case (tc_custody_outbox c, entropy) of (Some outbox, Inr b) \<Rightarrow> session_file (path_join outbox (hex_encode b)) p | _ \<Rightarrow> False))"

lemma session_leg_reach:
  assumes "session_leg c (inbox_of base) entropy now evs (k, w) = (r, k', w')" "\<forall>ev \<in> set evs. honest_listing ev"
  shows "stays_in (reach_of c base entropy) w w'"
proof (cases "\<exists>b outbox. entropy = Inr b \<and> tc_custody_outbox c = Some outbox")
  case True
  then obtain b outbox where e: "entropy = Inr b" "tc_custody_outbox c = Some outbox" by blast
  let ?dir = "path_join outbox (hex_encode b)" and ?P = "reach_of c base entropy"
  obtain d w1 where d: "create_dir_all ?dir w = (d, w1)" by fastforce
  have w1: "stays_in ?P w w1"
    using d by (auto simp: stays_in_def create_dir_all_def prim_def observed_def Let_def split: option.splits)
  show ?thesis
  proof (cases d)
    case (Inr u)
    obtain q k2 w2 where run: "session_loop (tc_max_message_bytes c) (inbox_of base) (hex_encode b) ?dir evs
        (new_tot_limiter (tc_intake_max_msgs_per_sec c) now) (k, w1) = (q, k2, w2)" by (metis surj_pair)
    have "stays_in ?P w1 w2"
      using session_loop_reach [OF run assms(2)] by (rule stays_in_weaken) (simp add: session_reach_def reach_of_def e)
    moreover have "stays_in ?P w2 (snd (session_dir_drop ?dir w2))"
      using remove_dir_reach by (rule stays_in_weaken) (simp add: reach_of_def e)
    ultimately show ?thesis
      using w1 assms(1) e d Inr run by (auto simp: session_leg_def session_dir_create_def Let_def intro: stays_in_trans)
  qed (use w1 assms(1) e d in \<open>auto simp: session_leg_def session_dir_create_def Let_def\<close>)
qed (use assms(1) in \<open>auto simp: session_leg_def split: sum.splits option.splits\<close>)

section \<open>Nodes\<close>

lemma nabla_leg_same:
  "\<forall>a \<in> snd ` set (tc_nabla c). other a = connect a \<Longrightarrow> nabla_leg other takes ms n c = nabla_leg connect takes ms n c"
proof (cases "n < length (tc_nabla c)")
  case True
  assume "\<forall>a \<in> snd ` set (tc_nabla c). other a = connect a"
  then have "other (snd (tc_nabla c ! n)) = connect (snd (tc_nabla c ! n))" using True by simp
  then show ?thesis by (cases "tc_nabla c ! n") (simp add: nabla_leg_def)
qed (simp add: nabla_leg_def)

lemma fatmama_leg_same:
  "\<forall>a \<in> snd ` set (tc_fatmama c). other a = connect a \<Longrightarrow> fatmama_leg other takes ms n c = fatmama_leg connect takes ms n c"
proof (cases "n < length (tc_fatmama c)")
  case True
  assume "\<forall>a \<in> snd ` set (tc_fatmama c). other a = connect a"
  then have "other (snd (tc_fatmama c ! n)) = connect (snd (tc_fatmama c ! n))" using True by simp
  then show ?thesis by (cases "tc_fatmama c ! n") (simp add: fatmama_leg_def)
qed (simp add: fatmama_leg_def)

lemma fatmama_is_dev: "websocket_conn dev handshake s = Leg (RouteFatmama n) \<Longrightarrow> dev"
  by (auto simp: websocket_conn_def route_parse_def split: sum.splits if_splits option.splits)

lemma handle_conn_same:
  assumes "\<forall>a \<in> snd ` set (tc_nabla c). other a = cn_connect cn a"
    and "dev \<Longrightarrow> \<forall>a \<in> snd ` set (tc_fatmama c). other a = cn_connect cn a"
  shows "handle_conn dev c inbox (cn\<lparr>cn_connect := other\<rparr>) (k, w) = handle_conn dev c inbox cn (k, w)"
proof (cases "demux (cn_sent cn)")
  case (ToWebSocket s)
  note ws = ToWebSocket
  show ?thesis
  proof (cases "websocket_conn dev (cn_handshake cn) s")
    case (Leg route)
    show ?thesis
    proof (cases route)
      case (RouteNabla n)
      then show ?thesis using nabla_leg_same [OF assms(1)] by (simp add: handle_conn_def ws Leg)
    next
      case (RouteFatmama n)
      then have dev using Leg fatmama_is_dev by blast
      note f = fatmama_leg_same [OF assms(2) [OF this]]
      show ?thesis by (simp add: handle_conn_def ws Leg RouteFatmama f)
    qed (simp_all add: handle_conn_def ws Leg)
  qed (simp add: handle_conn_def ws)
qed (simp_all add: handle_conn_def)

lemma handle_conn_reach:
  assumes "handle_conn dev c (inbox_of base) cn (k, w) = (r, k', w')" "\<forall>ev \<in> set (cn_events cn). honest_listing ev"
  shows "stays_in (reach_of c base (cn_entropy cn)) w w'"
proof -
  have inb: "stays_in (reach_of c base (cn_entropy cn)) w w'" if "stays_in (inbox_file base) w w'"
    using that by (rule stays_in_weaken) (simp add: reach_of_def)
  show ?thesis
  proof (cases "demux (cn_sent cn)")
    case (ToIntake head rest)
    then show ?thesis using assms(1) tcp_intake_reach by (intro inb) (auto simp: handle_conn_def split: prod.splits)
  next
    case (ToWebSocket s)
    note ws = ToWebSocket
    show ?thesis
    proof (cases "websocket_conn dev (cn_handshake cn) s")
      case (Leg route)
      show ?thesis
      proof (cases route)
        case RouteIntake
        then show ?thesis using assms(1) intake_reach
          by (intro inb) (auto simp: handle_conn_def ws Leg intake_leg_def split: prod.splits)
      next
        case RouteSession
        then show ?thesis using assms session_leg_reach by (simp add: handle_conn_def ws Leg)
      qed (use assms(1) in \<open>simp_all add: handle_conn_def ws Leg\<close>)
    qed (use assms(1) in \<open>simp add: handle_conn_def ws\<close>)
  qed (use assms(1) in \<open>simp add: handle_conn_def\<close>)
qed

section \<open>The reach of a connection\<close>

text \<open>C15. Whatever a peer sends, its connection changes no file but in the validator's inbox, under a name the carrier makes, and,
  when it opens a session, in the one directory named by the random bytes of that session; and what it does depends on no node
  outside the attested set: any other network gives the same run (a release build never reaches the development nodes
  either).\<close>

theorem tot_reach:
  assumes "\<forall>ev \<in> set (cn_events cn). honest_listing ev"
    and "\<forall>a \<in> snd ` set (tc_nabla c) \<union> (if dev then snd ` set (tc_fatmama c) else {}). other a = cn_connect cn a"
    and "handle_conn dev c (inbox_of base) cn (k, w) = (r, k', w')"
  shows "(\<forall>p. files w' p \<noteq> files w p \<longrightarrow> reach_of c base (cn_entropy cn) p) \<and>
    handle_conn dev c (inbox_of base) (cn\<lparr>cn_connect := other\<rparr>) (k, w) = (r, k', w')"
proof -
  have "handle_conn dev c (inbox_of base) (cn\<lparr>cn_connect := other\<rparr>) (k, w) = handle_conn dev c (inbox_of base) cn (k, w)"
    using assms(2) by (intro handle_conn_same) auto
  then show ?thesis using handle_conn_reach [OF assms(3,1)] assms(3) by (simp add: stays_in_def)
qed

section \<open>A connection to evaluate\<close>

lemma route_nabla: "n < 2 ^ 64 \<Longrightarrow> route_parse dev (''/nabla/'' @ dec n) = Some (RouteNabla n)"
  by (simp only: route_parse_def strip_prefix_append option.case parse_uint_dec option.map) simp

text \<open>A WebSocket that asks for the first node, sends it two messages and takes what it answers.\<close>

definition sample_conn :: "(string \<Rightarrow> string + tunnel_node) \<Rightarrow> tot_conn" where
  "sample_conn connect = \<lparr>cn_sent = ''GET /nabla/0'', cn_handshake = (\<lambda>s. Inr ''/nabla/0''),
     cn_messages = [(0, (1, 2, 3, 4), WsBinary ''ab''), (5, (1, 2, 4, 4), WsBinary ''c'')], cn_events = [PollTick (Inr [''r1.cbor''])],
     cn_entropy = Inr ''R'', cn_now = 0, cn_parts = (1, 2, 3, 4), cn_takes = (\<lambda>k. True), cn_connect = connect\<rparr>"

definition sample_node :: tunnel_node where
  "sample_node = \<lparr>tn_reads = [Inr ''xy''], tn_fails = (\<lambda>k. if k = 1 then Some (0, ''reset'') else None),
     tn_cut = (9, 0), tn_client_first = True\<rparr>"

lemma tot_reach_witness:
  "let kw = (\<lparr>sk_sent = [], sk_fails = \<lambda>_. None\<rparr>, no_files);
       run = handle_conn True sample_tot_config (inbox_of ''i'') (sample_conn (\<lambda>a. if a = ''10.0.0.1:6000'' then Inr sample_node else Inl ''refused'')) kw in
   fst run = Inl ''nabla tunnel: reset'' \<and>
   handle_conn True sample_tot_config (inbox_of ''i'') (sample_conn (\<lambda>a. if a = ''10.0.0.9:22'' then Inl ''open'' else if a = ''10.0.0.2:25'' then Inl ''refused'' else Inr sample_node)) kw = run"
proof -
  let ?k = "\<lparr>sk_sent = [], sk_fails = \<lambda>_. None\<rparr>"
  let ?cn = "sample_conn (\<lambda>a. if a = ''10.0.0.1:6000'' then Inr sample_node else Inl ''refused'')"
  let ?other = "\<lambda>a. if a = ''10.0.0.9:22'' then Inl ''open'' else if a = ''10.0.0.2:25'' then Inl ''refused'' else Inr sample_node"
  have up: "sample_conn ?other = ?cn\<lparr>cn_connect := ?other\<rparr>" by (simp add: sample_conn_def)
  have h: "\<forall>ev \<in> set (cn_events ?cn). honest_listing ev" by (simp add: sample_conn_def honest_listing_def)
  have a: "\<forall>a \<in> snd ` set (tc_nabla sample_tot_config) \<union> (if True then snd ` set (tc_fatmama sample_tot_config) else {}). ?other a = cn_connect ?cn a"
    by (simp add: sample_tot_config_def sample_conn_def)
  have r: "fst (handle_conn True sample_tot_config (inbox_of ''i'') ?cn (?k, no_files)) = Inl ''nabla tunnel: reset''"
  proof -
    have d: "demux ''GET /nabla/0'' = ToWebSocket (prefixed_new ''GET '' ''/nabla/0'')" by code_simp
    have "''/nabla/0'' = ''/nabla/'' @ dec 0" by code_simp
    then have "route_parse True ''/nabla/0'' = Some (RouteNabla 0)" using route_nabla [of 0 True] by simp
    then have l: "websocket_conn True (cn_handshake ?cn) s = Leg (RouteNabla 0)" for s
      by (simp add: websocket_conn_def sample_conn_def)
    have "snd (nabla_leg (cn_connect ?cn) (cn_takes ?cn) (map (\<lambda>m. snd (snd m)) (cn_messages ?cn)) 0 sample_tot_config) = Inl ''nabla tunnel: reset''"
      by code_simp
    moreover have "cn_sent ?cn = ''GET /nabla/0''" by (simp add: sample_conn_def)
    ultimately show ?thesis by (simp add: handle_conn_def d l)
  qed
  obtain k' w' where run: "handle_conn True sample_tot_config (inbox_of ''i'') ?cn (?k, no_files) = (Inl ''nabla tunnel: reset'', k', w')"
    using r by (cases "handle_conn True sample_tot_config (inbox_of ''i'') ?cn (?k, no_files)") auto
  show ?thesis using tot_reach [OF h a run] run unfolding up by (simp add: Let_def)
qed

end
