(* ===== verification/Frames.thy ===== *)
theory Frames
  imports Dispatch
begin

text \<open>
  The frame conditions of the gateway, as locales: a relation between the states before and after a step is shown
  for the few ways a step changes the state, and carried once through every handler, the processing of a
  message, the pass over the inbox and the run of the maildir carrier.  A locale asks for more kinds of steps than
  the one it extends and reaches further; \<open>Accounting\<close>, \<open>Promises\<close> and \<open>RateBound\<close> interpret them.
\<close>

section \<open>Kinds of steps\<close>

text \<open>The calls that are counted as requests: all but the note that an audit could not be sent.\<close>

fun counted :: "gateway_event \<Rightarrow> bool" where
  "counted (Called (CallDispatchFailed t e)) = False"
| "counted (Called c) = True"
| "counted ev = False"

fun asks_witness :: "lambda_call \<Rightarrow> bool" where
  "asks_witness (CallWitness req) = True"
| "asks_witness c = False"

text \<open>The counters a handler bumps, apart from the requests to Lambda.\<close>

definition side_counters :: "((nat \<Rightarrow> nat) \<Rightarrow> antie_stats \<Rightarrow> antie_stats) set" where
  "side_counters = {st_lambda_errors_update, st_emails_sent_update, st_rate_limited_update, st_ban_rejected_update,
     st_ban_list_unavailable_update, st_parse_fail_update, st_decrypt_fail_update, st_oversize_dropped_update,
     st_fanout_relay_refused_update, st_care_of_verify_rejects_update, st_care_of_deposits_update,
     st_care_of_default_deliveries_update}"

text \<open>The counters of the pass over the inbox.\<close>

definition inbox_counters :: "((nat \<Rightarrow> nat) \<Rightarrow> antie_stats \<Rightarrow> antie_stats) set" where
  "inbox_counters = {st_messages_received_update, st_messages_processed_update, st_messages_failed_update,
     st_busy_rejections_update}"

definition bumped :: "((nat \<Rightarrow> nat) \<Rightarrow> antie_stats \<Rightarrow> antie_stats) \<Rightarrow> 'n gateway \<Rightarrow> 'n gateway" where
  "bumped upd g = g\<lparr>gw_stats := upd (\<lambda>n. wadd n 1) (gw_stats g)\<rparr>"

text \<open>The state after a request to Lambda went out.\<close>

definition requested :: "lambda_call \<Rightarrow> 'n gateway \<Rightarrow> 'n gateway" where
  "requested call g = (bumped st_lambda_requests_update g)\<lparr>gw_tick := Suc (gw_tick g), gw_trace := gw_trace g @ [Called call]\<rparr>"

lemma track_lambda_eq:
  "track_lambda call answer g = (case answer (gw_tick g) of
      Inr v \<Rightarrow> (Done v, requested call g)
    | Inl e \<Rightarrow> (Failed e, bumped st_lambda_errors_update (requested call g)))"
  by (simp add: track_lambda_def gw_bind_def gw_try_def call_lambda_def gw_simps requested_def bumped_def split: sum.splits)

lemma check_rate_eq:
  "check_rate env req g =
     (let w = tx_sender_wallet_id (wr_transaction req) in
      if wr_overlapped_signatures req \<noteq> [] \<or> w = [] then (Done (), g)
      else
        (let r = rate_gate (cooldown_ms env) (ge_clock env (gw_tick g)) (ge_clock env (Suc (gw_tick g))) w (gw_limiter g);
             h = g\<lparr>gw_tick := Suc (Suc (gw_tick g)), gw_limiter := snd r\<rparr> in
         if fst r then (Done (), h)
         else (Failed (RateLimited (''E_WALLET_RATE_LIMITED: wallet '' @ w @ '' '' @ dash @ '' retry after cooldown'')),
               bumped st_rate_limited_update h)))"
  by (simp add: check_rate_def gw_bind_def gw_simps Let_def case_prod_beta bumped_def)

lemma ban_unavailable_eq: "s\<lparr>st_ban_list_unavailable := wadd (st_ban_list_unavailable s) 1\<rparr> = st_ban_list_unavailable_update (\<lambda>n. wadd n 1) s"
  by (simp cong: antie_stats.fold_congs)

lemma ban_lists_cases:
  "P s \<Longrightarrow> P (st_ban_list_unavailable_update (\<lambda>n. wadd n 1) s) \<Longrightarrow> P (snd (nabla_ban_file_lists contents keys s))"
  unfolding nabla_ban_file_lists_def ban_unavailable_eq by (simp split: option.split sum.split)

lemma keeps_let: "keeps P (f x) \<Longrightarrow> keeps P (Let x f)"
  by simp

named_theorems framed \<open>steps that keep the frame of a locale\<close>

section \<open>Steps on the gateway's own state\<close>

locale local_frame = frame_rule P for P :: "'n gateway \<Rightarrow> 'n gateway \<Rightarrow> bool" +
  fixes env :: "'n gateway_env"
  assumes wrote: "P g (g\<lparr>gw_world := w\<rparr>)"
    and ticked: "P g (g\<lparr>gw_tick := Suc (gw_tick g)\<rparr>)"
    and cached: "P g (g\<lparr>gw_keys := keys\<rparr>)"
    and side: "upd \<in> side_counters \<Longrightarrow> P g (bumped upd g)"
begin

lemmas frame_rules = keeps_bind keeps_return keeps_fail keeps_exit keeps_res keeps_get keeps_try keeps_if keeps_option
  keeps_sum keeps_prod keeps_let

lemma keeps_bumps [framed]: "upd \<in> side_counters \<Longrightarrow> keeps P (bump upd)"
  using side by (simp add: keeps_def gw_simps bumped_def)

lemma keeps_counters [framed]:
  "keeps P (bump st_lambda_errors_update)" "keeps P (bump st_emails_sent_update)" "keeps P (bump st_rate_limited_update)"
  "keeps P (bump st_ban_rejected_update)" "keeps P (bump st_parse_fail_update)" "keeps P (bump st_decrypt_fail_update)"
  "keeps P (bump st_oversize_dropped_update)" "keeps P (bump st_fanout_relay_refused_update)"
  "keeps P (bump st_care_of_verify_rejects_update)" "keeps P (bump st_care_of_deposits_update)"
  "keeps P (bump st_care_of_default_deliveries_update)"
  by (rule keeps_bumps, simp add: side_counters_def)+

lemma keeps_fresh [framed]: "keeps P (gw_fresh f)"
  using ticked by (simp add: keeps_def gw_simps)

text \<open>A step that uses a value of the surroundings may rely on where the value comes from.\<close>

lemma keeps_fresh_bind: "(\<And>k. keeps P (f (c k))) \<Longrightarrow> keeps P (gw_bind (gw_fresh c) f)"
  unfolding keeps_def gw_bind_def by (simp add: gw_simps) (metis ticked trans)

lemma keeps_io [framed]: "keeps P (gw_io m)"
  using wrote by (simp add: keeps_def gw_io_def case_prod_beta)

lemma keeps_require [framed]: "keeps P (gw_require what x)"
  by (simp add: gw_require_def keeps_res)

lemma keeps_decode [framed]: "keeps P (decode_witness_request env email)"
  unfolding decode_witness_request_def by (intro frame_rules framed)

lemma keeps_ban [framed]: "keeps P (check_ban env req)"
proof -
  have "P g (g\<lparr>gw_stats := snd (nabla_ban_file_lists contents keys (gw_stats g))\<rparr>)" for g contents keys
    by (rule ban_lists_cases) (use side [of st_ban_list_unavailable_update g] refl [of g] in
      \<open>simp_all add: bumped_def side_counters_def\<close>)
  then have "keeps P (\<lambda>g. case nabla_ban_file_lists contents keys (gw_stats g) of
      (banned, s) \<Rightarrow> (Done banned, g\<lparr>gw_stats := s\<rparr>))" for contents keys
    by (simp add: keeps_def case_prod_beta)
  then show ?thesis unfolding check_ban_def by (intro frame_rules framed)
qed

lemma keeps_signature [framed]: "keeps P (check_signature env req)"
  unfolding check_signature_def by (intro frame_rules framed)

lemma keeps_bundle [framed]: "keeps P (load_bundle env)"
  unfolding load_bundle_def by (intro frame_rules framed)

lemma keeps_cl2 [framed]: "keeps P (check_cl2 env rid req)"
  unfolding check_cl2_def by (intro frame_rules framed) (auto split: core_call.splits sum.splits intro: frame_rules framed)

lemma keeps_plan [framed]: "keeps P (receiver_plan env tx)"
  unfolding receiver_plan_def Let_def by (auto split: delivery_plan.splits intro!: frame_rules framed)

lemma keeps_encrypt [framed]: "keeps P (encrypt_for env to b)"
proof -
  have "keeps P (\<lambda>g. case f g of (r, keys) \<Rightarrow> (Done r, g\<lparr>gw_keys := keys\<rparr>))" for f :: "'n gateway \<Rightarrow> (bytes \<times> bool) \<times> key_cache"
    using cached by (simp add: keeps_def case_prod_beta)
  then show ?thesis unfolding encrypt_for_def by (intro frame_rules framed)
qed

lemma keeps_deposit [framed]: "keeps P (deposit_artifact env plan fname b)"
  unfolding deposit_artifact_def
  by (cases plan; cases "ac_pickup_dir (ge_config env)"; simp; intro frame_rules framed)

lemma keeps_default [framed]: "keeps P (count_default_delivery plan tx)"
  unfolding count_default_delivery_def by (cases plan; simp only: delivery_plan.case; intro frame_rules framed)

lemma keeps_divert [framed]: "keeps P (divert_skipped receiver fname b)"
  unfolding divert_skipped_def by (intro frame_rules framed)

lemma keeps_tee [framed]: "keeps P (tee_reply env email b)"
  unfolding tee_reply_def
  by (cases "ob_uncle (ac_outbound (ge_config env))"; cases "em_uncle_correlate email"; simp; intro frame_rules framed)

lemma keeps_custody [framed]: "keeps P (custody_reply env email rid b)"
  unfolding custody_reply_def by (intro frame_rules framed)

lemma keeps_vbc_fields [framed]: "keeps P (vbc_fields email)"
  unfolding vbc_fields_def by (intro frame_rules framed)

lemma keeps_fanout [framed]: "keeps P (handle_fanout_relay env email)"
  unfolding handle_fanout_relay_def by (intro frame_rules framed)

lemma keeps_file_vbc [framed]: "keeps P (file_vbc_delivery env raw sig)"
  unfolding file_vbc_delivery_def by (intro frame_rules framed)

end

section \<open>The rate limiter\<close>

locale limiter_frame = local_frame P env
  for P :: "'n gateway \<Rightarrow> 'n gateway \<Rightarrow> bool" and env :: "'n gateway_env" +
  assumes limited: "w \<noteq> [] \<Longrightarrow> gw_tick g = Suc (Suc k) \<Longrightarrow>
      P g (g\<lparr>gw_limiter := snd (rate_gate (cooldown_ms env) (ge_clock env k) (ge_clock env (Suc k)) w (gw_limiter g))\<rparr>)"
begin

lemma keeps_rate [framed]: "keeps P (check_rate env req)"
  unfolding keeps_def
proof
  fix g :: "'n gateway"
  let ?w = "tx_sender_wallet_id (wr_transaction req)"
  let ?h = "g\<lparr>gw_tick := Suc (Suc (gw_tick g))\<rparr>"
  let ?r = "rate_gate (cooldown_ms env) (ge_clock env (gw_tick g)) (ge_clock env (Suc (gw_tick g))) ?w (gw_limiter g)"
  have h: "P g ?h" using trans [OF ticked ticked, of g] by simp
  have gated: "P g (?h\<lparr>gw_limiter := snd ?r\<rparr>)" if "?w \<noteq> []"
    using trans [OF h limited [OF that, of ?h "gw_tick g"]] by simp
  have refused: "P g (bumped st_rate_limited_update (?h\<lparr>gw_limiter := snd ?r\<rparr>))" if "?w \<noteq> []"
    by (rule trans [OF gated [OF that] side]) (simp add: side_counters_def)
  show "P g (snd (check_rate env req g))"
    using refl gated refused by (simp add: check_rate_eq Let_def)
qed

end

section \<open>Mail and notes\<close>

locale effect_frame = local_frame P env
  for P :: "'n gateway \<Rightarrow> 'n gateway \<Rightarrow> bool" and env :: "'n gateway_env" +
  assumes sent: "P g (g\<lparr>gw_net := n\<rparr>)"
    and emitted: "\<not> counted e \<Longrightarrow> P g (g\<lparr>gw_trace := gw_trace g @ [e]\<rparr>)"
    and served: "P g (g\<lparr>gw_stats := note_round_served (ge_unix env k) (gw_stats g)\<rparr>)"
begin

lemma keeps_send [framed]: "keeps P (send_mail env to raw)"
  unfolding keeps_def
proof
  fix g :: "'n gateway"
  obtain r w n where s: "ge_send env (gw_tick g) to raw (gw_world g, gw_net g) = (r, w, n)" by (metis surj_pair)
  have "P g (g\<lparr>gw_world := w, gw_net := n, gw_tick := Suc (gw_tick g), gw_trace := gw_trace g @ [Mailed to raw (is_ok r)]\<rparr>)"
    using trans [OF trans [OF wrote sent] trans [OF ticked emitted], of "Mailed to raw (is_ok r)" g n w] by simp
  then show "P g (snd (send_mail env to raw g))" using s by (simp add: send_mail_def)
qed

lemma keeps_post [framed]: "keeps P (post_delivery_update env txid encrypted)"
  by (cases "ge_admin_url env") (simp_all add: post_delivery_update_def keeps_def gw_simps refl emitted)

lemma keeps_failed_note [framed]: "keeps P (call_lambda (CallDispatchFailed t e) answer)"
  using trans [OF ticked emitted, of "Called (CallDispatchFailed t e)"] by (simp add: keeps_def call_lambda_def)

lemma keeps_mail_reply [framed]: "keeps P (mail_reply env email b)"
  unfolding mail_reply_def
  by (intro frame_rules framed keeps_fresh_bind) (simp add: keeps_def served)

lemma keeps_send_response [framed]: "keeps P (send_response env email payload)"
  unfolding send_response_def by (intro frame_rules framed)

lemma keeps_busy [framed]: "keeps P (send_busy_rejection env msg)"
  unfolding send_busy_rejection_def by (intro frame_rules framed)

lemma keeps_audit_answer [framed]: "keeps P (mail_audit_answer env build answer reply_to)"
  unfolding mail_audit_answer_def by (cases answer; cases reply_to; simp; intro frame_rules framed)

lemma keeps_deliveries [framed]:
  "keeps P (deliver_cheque env req reply)" "keeps P (deliver_certificate env req reply)"
  "keeps P (deliver_scar_consent env req reply)" "keeps P (send_outbound_audit env reply)"
  unfolding deliver_cheque_def deliver_cheque_to_def deliver_certificate_def deliver_scar_consent_def send_outbound_audit_def
  by (intro frame_rules framed)+

end

section \<open>Requests to Lambda\<close>

locale request_frame = effect_frame P env
  for P :: "'n gateway \<Rightarrow> 'n gateway \<Rightarrow> bool" and env :: "'n gateway_env" +
  assumes asked: "counted (Called call) \<Longrightarrow> \<not> asks_witness call \<Longrightarrow> P g (requested call g)"
begin

lemma keeps_track [framed]:
  assumes "counted (Called call)" "\<not> asks_witness call"
  shows "keeps P (track_lambda call answer)"
  using asked [OF assms] trans [OF asked [OF assms] side]
  by (simp add: keeps_def track_lambda_eq side_counters_def split: sum.splits)

lemma keeps_requests [framed]:
  "keeps P (handle_query env email)" "keeps P (handle_validator_status env email)"
  "keeps P (handle_genesis_dev env email)" "keeps P (handle_redeem_request env email)"
  "keeps P (handle_ack_request env email)" "keeps P (handle_vbc_sign_request env email)"
  "keeps P (handle_vbc_sign_commit env email)" "keeps P (handle_set_auth_hash env email)"
  "keeps P (handle_peer_audit_request env email)" "keeps P (handle_peer_audit_response env email)"
  unfolding handle_query_def handle_validator_status_def handle_genesis_dev_def handle_redeem_request_def
    handle_ack_request_def handle_vbc_sign_request_def handle_vbc_sign_commit_def handle_set_auth_hash_def
    handle_peer_audit_request_def handle_peer_audit_response_def
  by (intro frame_rules framed; simp)+

end

section \<open>The witness request\<close>

locale witness_frame = request_frame P env
  for P :: "'n gateway \<Rightarrow> 'n gateway \<Rightarrow> bool" and env :: "'n gateway_env" +
  assumes witnessed: "keeps P (handle_witness_request env email)"
begin

lemma keeps_handle [framed]: "keeps P (handle_by_type env email)"
  unfolding handle_by_type_def by (intro frame_rules framed witnessed)

lemma keeps_answer [framed]: "keeps P (answer_email env email)"
  unfolding answer_email_def by (intro frame_rules framed)

lemma keeps_process [framed]: "keeps P (process_message env msg)"
  unfolding process_message_def by (intro frame_rules framed) (auto split: parse_outcome.splits intro: frame_rules framed)

end

text \<open>A frame that holds for every single call of Lambda holds for the witness request.\<close>

locale call_frame = limiter_frame P env + request_frame P env
  for P :: "'n gateway \<Rightarrow> 'n gateway \<Rightarrow> bool" and env :: "'n gateway_env" +
  assumes called: "counted (Called call) \<Longrightarrow> P g (requested call g)"
begin

lemma keeps_witness_call: "keeps P (track_lambda (CallWitness req) answer)"
  using called [of "CallWitness req"] trans [OF called [of "CallWitness req"] side]
  by (simp add: keeps_def track_lambda_eq side_counters_def split: sum.splits)

lemma keeps_witness: "keeps P (handle_witness_request env email)"
  unfolding handle_witness_request_def by (intro frame_rules framed keeps_witness_call)

end

sublocale call_frame \<subseteq> witness_frame
  by unfold_locales (rule keeps_witness)

section \<open>The pass over the inbox and the run\<close>

text \<open>The carrier of the pass works on the gateway's file system; its messages are counted, and the loop beats.\<close>

locale pass_frame = witness_frame P env
  for P :: "'n gateway \<Rightarrow> 'n gateway \<Rightarrow> bool" and env :: "'n gateway_env" +
  assumes tallied: "upd \<in> inbox_counters \<Longrightarrow> P g (bumped upd g)"
    and noted: "P g (g\<lparr>gw_stats := note_inbox_write (ge_unix env k) (gw_stats g)\<rparr>)"
    and beaten: "P g (g\<lparr>gw_stats := beat (gw_stats g) (ge_clock env k div 1000) h\<rparr>)"
    and registered: "P g (g\<lparr>gw_stats := snd (register_heartbeat (gw_stats g) (ge_clock env k div 1000) ''dispatch'' dispatch_max_silence_secs)\<rparr>)"
begin

lemma keeps_tallies [framed]:
  "keeps P (bump st_messages_received_update)" "keeps P (bump st_messages_processed_update)"
  "keeps P (bump st_messages_failed_update)" "keeps P (bump st_busy_rejections_update)"
  using tallied by (simp_all add: keeps_def gw_simps bumped_def inbox_counters_def)

lemma keeps_beat [framed]: "keeps P (beat_gateway env hb)"
  unfolding beat_gateway_def by (intro frame_rules framed keeps_fresh_bind) (simp add: keeps_def beaten)

lemma keeps_marks [framed]:
  "keeps P (mark_gateway (mk_mark_processed (on_world mc) i))" "keeps P (mark_gateway (mk_mark_failed (on_world mc) i reason))"
  using wrote by (simp_all add: keeps_def mark_gateway_def on_world_def case_prod_beta)

lemma keeps_one [framed]: "keeps P (dispatch_one env hb (on_world mc) q msg)"
  unfolding dispatch_one_def by (intro frame_rules framed)

lemma keeps_all [framed]: "keeps P (dispatch_all env hb (on_world mc) msgs)"
  by (induction msgs) (simp_all add: frame_rules framed)

lemma keeps_pass [framed]: "keeps P (process_carrier_messages env hb (on_world mc))"
  unfolding keeps_def
proof
  fix g :: "'n gateway"
  obtain r h where new: "mk_check_new (on_world mc) g = (r, h)" by fastforce
  have h: "P g h" using new wrote by (auto simp: on_world_def split: prod.splits)
  have "keeps P (gw_bind (if ms = [] then gw_return () else gw_bind (gw_fresh (ge_unix env))
      (\<lambda>now g. (Done (), g\<lparr>gw_stats := note_inbox_write now (gw_stats g)\<rparr>))) (\<lambda>_. dispatch_all env hb (on_world mc) ms))" for ms
    by (intro frame_rules framed keeps_fresh_bind) (simp add: keeps_def noted)
  then show "P g (snd (process_carrier_messages env hb (on_world mc) g))"
    using h new trans [OF h] by (cases r) (simp_all add: process_carrier_messages_def keeps_def)
qed

lemma keeps_loop [framed]: "keeps P (maildir_loop env hb (on_world mc) rounds)"
proof (induction rounds)
  case (Cons r rounds)
  then show ?case by (cases r) (simp, intro frame_rules framed Cons.IH impI conjI)
qed (simp add: keeps_return)

lemma keeps_run: "keeps P (run_maildir_carrier env md (on_world mc) rounds)"
  unfolding run_maildir_carrier_def
  by (intro frame_rules framed keeps_fresh_bind) (simp add: keeps_def case_prod_beta registered)

end

end
