(* ===== verification/Accounting.thy ===== *)
theory Accounting
  imports Frames
begin

text \<open>
  The books of the gateway: what the counters say after any run of the handlers, the processing of a message, a
  pass over the inbox and the run of the maildir carrier.  The two frame conditions are interpretations of the
  locales of \<open>Frames\<close>.
\<close>

section \<open>The frame condition\<close>

definition calls_in :: "gateway_event list \<Rightarrow> nat" where
  "calls_in tr = length (filter counted tr)"

lemma calls_in_simps [simp]:
  "calls_in [] = 0" "calls_in (e # tr) = (if counted e then 1 else 0) + calls_in tr" "calls_in (a @ b) = calls_in a + calls_in b"
  by (simp_all add: calls_in_def)

definition same_inbox_counts :: "antie_stats \<Rightarrow> antie_stats \<Rightarrow> bool" where
  "same_inbox_counts s s' = (st_messages_received s' = st_messages_received s \<and>
     st_messages_processed s' = st_messages_processed s \<and> st_messages_failed s' = st_messages_failed s \<and>
     st_busy_rejections s' = st_busy_rejections s)"

definition accounted :: "'n gateway \<Rightarrow> 'n gateway \<Rightarrow> bool" where
  "accounted g g' = (same_inbox_counts (gw_stats g) (gw_stats g') \<and>
     (\<exists>tr. gw_trace g' = gw_trace g @ tr \<and>
       st_lambda_requests (gw_stats g') mod 2 ^ 64 = (st_lambda_requests (gw_stats g) + calls_in tr) mod 2 ^ 64))"

lemma accounted_trans: "accounted g h \<Longrightarrow> accounted h k \<Longrightarrow> accounted g k"
proof -
  assume a: "accounted g h" "accounted h k"
  obtain t1 where t1: "gw_trace h = gw_trace g @ t1"
    "st_lambda_requests (gw_stats h) mod 2 ^ 64 = (st_lambda_requests (gw_stats g) + calls_in t1) mod 2 ^ 64"
    using a(1) by (auto simp: accounted_def)
  obtain t2 where t2: "gw_trace k = gw_trace h @ t2"
    "st_lambda_requests (gw_stats k) mod 2 ^ 64 = (st_lambda_requests (gw_stats h) + calls_in t2) mod 2 ^ 64"
    using a(2) by (auto simp: accounted_def)
  have "st_lambda_requests (gw_stats k) mod 2 ^ 64 =
      (st_lambda_requests (gw_stats g) + calls_in (t1 @ t2)) mod 2 ^ 64"
    using t1(2) t2(2) by (metis (no_types, lifting) ab_semigroup_add_class.add_ac(1) calls_in_simps(3) mod_add_left_eq)
  then show ?thesis using a t1 t2 by (auto simp: accounted_def same_inbox_counts_def)
qed

lemma requested_books:
  "counted (Called call) \<Longrightarrow> gw_trace (requested call g) = gw_trace g @ [Called call] \<and>
     same_inbox_counts (gw_stats g) (gw_stats (requested call g)) \<and>
     st_lambda_requests (gw_stats (requested call g)) mod 2 ^ 64 = (st_lambda_requests (gw_stats g) + calls_in [Called call]) mod 2 ^ 64"
  by (simp add: requested_def bumped_def same_inbox_counts_def wadd_def)

lemma accounted_same:
  "gw_trace g' = gw_trace g \<Longrightarrow> same_inbox_counts (gw_stats g) (gw_stats g') \<Longrightarrow>
     st_lambda_requests (gw_stats g') = st_lambda_requests (gw_stats g) \<Longrightarrow> accounted g g'"
  by (simp add: accounted_def)

interpretation acct: call_frame "accounted :: 'n gateway \<Rightarrow> 'n gateway \<Rightarrow> bool" env for env
proof (unfold_locales, goal_cases)
  case (2 g h k)
  then show ?case by (rule accounted_trans)
next
  case (6 upd g)
  then show ?case by (auto simp: side_counters_def bumped_def same_inbox_counts_def intro!: accounted_same)
next
  case (11 call g)
  then show ?case using requested_books [of call g] by (auto simp: accounted_def)
next
  case (12 call g)
  then show ?case using requested_books [of call g] by (auto simp: accounted_def)
qed (auto simp: accounted_def same_inbox_counts_def note_round_served_def)

section \<open>A pass over the inbox\<close>

definition answered :: "antie_stats \<Rightarrow> nat" where
  "answered s = st_messages_processed s + st_messages_failed s + st_busy_rejections s"

text \<open>The counters move by \<open>r\<close> messages received and \<open>a\<close> messages answered, and every call of Lambda is counted.\<close>

definition moved :: "nat \<Rightarrow> nat \<Rightarrow> 'n gateway \<Rightarrow> 'n gateway \<Rightarrow> bool" where
  "moved r a g g' = (
     st_messages_received (gw_stats g') mod 2 ^ 64 = (st_messages_received (gw_stats g) + r) mod 2 ^ 64 \<and>
     answered (gw_stats g') mod 2 ^ 64 = (answered (gw_stats g) + a) mod 2 ^ 64 \<and>
     (\<exists>tr. gw_trace g' = gw_trace g @ tr \<and>
       st_lambda_requests (gw_stats g') mod 2 ^ 64 = (st_lambda_requests (gw_stats g) + calls_in tr) mod 2 ^ 64))"

lemma accounted_moved: "accounted g g' \<Longrightarrow> moved 0 0 g g'"
  by (auto simp: accounted_def moved_def same_inbox_counts_def answered_def)

lemma add_mod_chain: "(x::nat) mod m = (y + a) mod m \<Longrightarrow> z mod m = (x + b) mod m \<Longrightarrow> z mod m = (y + (a + b)) mod m"
  by (metis add.assoc mod_add_left_eq)

lemma moved_trans: "moved r a g h \<Longrightarrow> moved r' a' h k \<Longrightarrow> moved (r + r') (a + a') g k"
proof -
  assume m: "moved r a g h" "moved r' a' h k"
  obtain t1 where t1: "gw_trace h = gw_trace g @ t1"
    "st_lambda_requests (gw_stats h) mod 2 ^ 64 = (st_lambda_requests (gw_stats g) + calls_in t1) mod 2 ^ 64"
    using m(1) by (auto simp: moved_def)
  obtain t2 where t2: "gw_trace k = gw_trace h @ t2"
    "st_lambda_requests (gw_stats k) mod 2 ^ 64 = (st_lambda_requests (gw_stats h) + calls_in t2) mod 2 ^ 64"
    using m(2) by (auto simp: moved_def)
  have "gw_trace k = gw_trace g @ (t1 @ t2) \<and>
      st_lambda_requests (gw_stats k) mod 2 ^ 64 = (st_lambda_requests (gw_stats g) + calls_in (t1 @ t2)) mod 2 ^ 64"
    using t1 t2 add_mod_chain [OF t1(2) t2(2)] by simp
  then show ?thesis
    using m add_mod_chain [of "st_messages_received (gw_stats h)"] add_mod_chain [of "answered (gw_stats h)"]
    unfolding moved_def by blast
qed

lemma bump_moved:
  "moved 1 0 g (snd (bump st_messages_received_update g))" "moved 0 1 g (snd (bump st_messages_processed_update g))"
  "moved 0 1 g (snd (bump st_messages_failed_update g))" "moved 0 1 g (snd (bump st_busy_rejections_update g))"
proof -
  have w: "wadd n 1 mod 2 ^ 64 = (n + 1) mod 2 ^ 64" for n by (simp add: wadd_def)
  have w2: "(wadd n 1 + a) mod 2 ^ 64 = (n + a + 1) mod 2 ^ 64" for n a
    by (metis (no_types, lifting) w add.commute add.left_commute mod_add_left_eq)
  show "moved 1 0 g (snd (bump st_messages_received_update g))" "moved 0 1 g (snd (bump st_messages_processed_update g))"
    "moved 0 1 g (snd (bump st_messages_failed_update g))" "moved 0 1 g (snd (bump st_busy_rejections_update g))"
    using w w2 w2 [of "st_messages_failed (gw_stats g)" "st_messages_processed (gw_stats g) + st_busy_rejections (gw_stats g)"]
      w2 [of "st_busy_rejections (gw_stats g)" "st_messages_processed (gw_stats g) + st_messages_failed (gw_stats g)"]
      w2 [of "st_messages_processed (gw_stats g)" "st_messages_failed (gw_stats g) + st_busy_rejections (gw_stats g)"]
    by (simp_all add: moved_def gw_simps answered_def add.assoc add.commute add.left_commute)
qed

lemma accounted_beat: "keeps accounted (beat_gateway env hb)"
  unfolding beat_gateway_def
  by (intro acct.frame_rules acct.keeps_fresh)
    (auto simp: keeps_def same_inbox_counts_def beat_def intro!: accounted_same)

text \<open>What a message does to the counters: it is received, and it is answered unless the process leaves.\<close>

fun balanced :: "nat \<Rightarrow> 'n gateway \<Rightarrow> unit outcome \<times> 'n gateway \<Rightarrow> bool" where
  "balanced n g (Done u, g') = moved n n g g'"
| "balanced n g (Failed e, g') = False"
| "balanced n g (Exited c, g') = (\<exists>k<n. moved (Suc k) k g g')"

lemma accounted_run: "keeps accounted m \<Longrightarrow> m g = (x, g') \<Longrightarrow> moved 0 0 g g'"
  by (metis accounted_moved keeps_def snd_conv)

lemma mark_moved: "moved 0 0 g (snd (mark_gateway (mk_mark_processed (on_world mc) i) g))"
  "moved 0 0 g (snd (mark_gateway (mk_mark_failed (on_world mc) i e) g))"
  by (simp_all add: mark_gateway_def on_world_def case_prod_beta moved_def)

lemma try_cases: "gw_try m g = (case fst (m g) of Done a \<Rightarrow> (Done (Inr a), snd (m g))
    | Failed e \<Rightarrow> (Done (Inl e), snd (m g)) | Exited c \<Rightarrow> (Exited c, snd (m g)))"
  by (simp add: gw_try_def case_prod_beta split: outcome.splits)

text \<open>The step that answers a message, counts it and marks it.\<close>

lemma settle_moved:
  assumes "moved 0 1 h (snd (bump upd h))" "\<And>k. moved 0 0 k (snd (mark_gateway f k))"
  shows "\<exists>k. gw_bind (bump upd) (\<lambda>_. mark_gateway f) h = (Done (), k) \<and> moved 0 1 h k"
proof -
  have "moved 0 (1 + 0) h (snd (mark_gateway f (snd (bump upd h))))"
    using moved_trans [OF assms(1) assms(2)] by simp
  then show ?thesis by (simp add: gw_bind_def gw_simps mark_gateway_def)
qed

lemma if_cases_balanced: "balanced n g x \<Longrightarrow> balanced n g y \<Longrightarrow> balanced n g (if b then x else y)"
  by simp

lemma dispatch_one_balanced: "balanced 1 g (dispatch_one env hb (on_world mc) q m g)"
proof -
  obtain h0 where beat: "beat_gateway env hb g = (Done (), h0)"
    by (cases hb) (simp_all add: beat_gateway_def gw_bind_def gw_simps)
  define h1 where "h1 = snd (bump st_messages_received_update h0)"
  have m1: "moved 1 0 g h1"
    using moved_trans [OF accounted_run [OF accounted_beat beat] bump_moved(1)] by (simp add: h1_def)
  have one: "dispatch_one env hb (on_world mc) q m g =
     (if should_reject_busy (pf_busy_threshold_ms (ac_performance (ge_config env))) (gw_stats h1) q
      then gw_bind (gw_try (send_busy_rejection env m)) (\<lambda>_. gw_bind (bump st_busy_rejections_update)
        (\<lambda>_. mark_gateway (mk_mark_processed (on_world mc) (inc_id m)))) h1
      else gw_bind (gw_try (process_message env m)) (\<lambda>r. case r of
          Inl e \<Rightarrow> gw_bind (bump st_messages_failed_update) (\<lambda>_. mark_gateway (mk_mark_failed (on_world mc) (inc_id m) (display_error e)))
        | Inr _ \<Rightarrow> gw_bind (bump st_messages_processed_update) (\<lambda>_. mark_gateway (mk_mark_processed (on_world mc) (inc_id m)))) h1)"
    using beat by (simp add: dispatch_one_def h1_def gw_bind_def gw_simps)
  have settle: "balanced 1 g (gw_bind (gw_try s) next h1)"
    if s: "keeps accounted s" and n: "\<And>r h. \<exists>k. next r h = (Done (), k) \<and> moved 0 1 h k"
    for s :: "('a, unit) gw" and "next"
  proof -
    have h2: "moved 1 0 g (snd (s h1))"
      using moved_trans [OF m1 accounted_run [OF s, of h1 "fst (s h1)" "snd (s h1)"]] by simp
    have done_case: "balanced 1 g (next r (snd (s h1)))" for r
      using n [of r "snd (s h1)"] moved_trans [OF h2, of 0 1] by auto
    show ?thesis
      using done_case h2 by (cases "fst (s h1)") (simp_all add: gw_bind_def try_cases)
  qed
  show ?thesis
    unfolding one
  proof (rule if_cases_balanced; rule settle)
    show "keeps accounted (send_busy_rejection env m)" by (rule acct.keeps_busy)
    show "keeps accounted (process_message env m)" by (rule acct.keeps_process)
    fix r :: "unit res" and h
    show "\<exists>k. gw_bind (bump st_busy_rejections_update) (\<lambda>_. mark_gateway (mk_mark_processed (on_world mc) (inc_id m))) h =
        (Done (), k) \<and> moved 0 1 h k"
      by (rule settle_moved [OF bump_moved(4) mark_moved(1)])
    show "\<exists>k. (case r of
          Inl e \<Rightarrow> gw_bind (bump st_messages_failed_update) (\<lambda>_. mark_gateway (mk_mark_failed (on_world mc) (inc_id m) (display_error e)))
        | Inr _ \<Rightarrow> gw_bind (bump st_messages_processed_update) (\<lambda>_. mark_gateway (mk_mark_processed (on_world mc) (inc_id m)))) h =
        (Done (), k) \<and> moved 0 1 h k"
      by (cases r) (simp_all only: sum.case settle_moved [OF bump_moved(3) mark_moved(2)] settle_moved [OF bump_moved(2) mark_moved(1)])
  qed
qed

lemma dispatch_all_balanced: "balanced (length ms) g (dispatch_all env hb (on_world mc) ms g)"
proof (induction ms arbitrary: g)
  case Nil
  show ?case by (simp add: gw_simps moved_def)
next
  case (Cons m ms)
  let ?one = "dispatch_one env hb (on_world mc) (length ms) m g"
  show ?case
  proof (cases ?one)
    case (Pair x h)
    note b = dispatch_one_balanced [of g env hb mc "length ms" m, unfolded Pair]
    show ?thesis
    proof (cases x)
      case (Done u)
      then have h: "moved 1 1 g h" using b by simp
      obtain y k where rest: "dispatch_all env hb (on_world mc) ms h = (y, k)" by fastforce
      have "balanced (length ms) h (y, k)" using Cons.IH [of h] rest by simp
      then have "balanced (Suc (length ms)) g (y, k)"
        using moved_trans [OF h] by (cases y) fastforce+
      then show ?thesis using Pair Done rest by (simp add: gw_bind_def)
    qed (use Pair b in \<open>auto simp: gw_bind_def\<close>)
  qed
qed

definition lambda_books :: "'n gateway \<Rightarrow> 'n gateway \<Rightarrow> bool" where
  "lambda_books g g' = (\<exists>tr. gw_trace g' = gw_trace g @ tr \<and>
     st_lambda_requests (gw_stats g') mod 2 ^ 64 = (st_lambda_requests (gw_stats g) + calls_in tr) mod 2 ^ 64)"

interpretation calls: call_frame "lambda_books :: 'n gateway \<Rightarrow> 'n gateway \<Rightarrow> bool" env for env
proof (unfold_locales, goal_cases)
  case (2 g h k)
  obtain t1 where t1: "gw_trace h = gw_trace g @ t1"
    "st_lambda_requests (gw_stats h) mod 2 ^ 64 = (st_lambda_requests (gw_stats g) + calls_in t1) mod 2 ^ 64"
    using 2(1) by (auto simp: lambda_books_def)
  obtain t2 where t2: "gw_trace k = gw_trace h @ t2"
    "st_lambda_requests (gw_stats k) mod 2 ^ 64 = (st_lambda_requests (gw_stats h) + calls_in t2) mod 2 ^ 64"
    using 2(2) by (auto simp: lambda_books_def)
  show ?case
    using t1 t2 add_mod_chain [OF t1(2) t2(2)] by (auto simp: lambda_books_def)
next
  case (6 upd g)
  then show ?case by (auto simp: side_counters_def bumped_def lambda_books_def)
next
  case (11 call g)
  then show ?case using requested_books [of call g] by (auto simp: lambda_books_def)
next
  case (12 call g)
  then show ?case using requested_books [of call g] by (auto simp: lambda_books_def)
qed (auto simp: lambda_books_def note_round_served_def)

interpretation calls: pass_frame "lambda_books :: 'n gateway \<Rightarrow> 'n gateway \<Rightarrow> bool" env for env
  by unfold_locales
    (auto simp: inbox_counters_def bumped_def lambda_books_def note_inbox_write_def beat_def register_heartbeat_def)

text \<open>C13. A pass over the inbox conserves messages.  When the inbox cannot be read nothing is processed; otherwise the pass never
  fails as a whole, and when it ends exactly the messages of the batch have been counted as received and each of them
  as processed, failed or refused as busy; when the process leaves in the middle (a broken Core), the message in hand is
  received and unanswered and those behind it are not counted.  All counts are modulo the width of the counters.\<close>

theorem inbox_conserved:
  "case mk_check_new (on_world mc) g of
     (Inl e, h) \<Rightarrow> process_carrier_messages env hb (on_world mc) g = (Done (), h)
   | (Inr ms, h) \<Rightarrow> balanced (length ms) h (process_carrier_messages env hb (on_world mc) g)"
proof (cases "mk_check_new (on_world mc) g")
  case (Pair r h)
  have written: "\<exists>k. (if ms = [] then gw_return () else gw_bind (gw_fresh (ge_unix env))
       (\<lambda>now g. (Done (), g\<lparr>gw_stats := note_inbox_write now (gw_stats g)\<rparr>))) h = (Done (), k) \<and> moved 0 0 h k" for ms :: "incoming_message list"
    by (auto simp: gw_bind_def gw_simps note_inbox_write_def moved_def answered_def)
  have pre: "moved 0 0 h k \<Longrightarrow> balanced n k x \<Longrightarrow> balanced n h x" for k n x
    by (cases "(n, k, x)" rule: balanced.cases) (fastforce dest: moved_trans)+
  show ?thesis
  proof (cases r)
    case (Inr ms)
    obtain k where k: "(if ms = [] then gw_return () else gw_bind (gw_fresh (ge_unix env))
       (\<lambda>now g. (Done (), g\<lparr>gw_stats := note_inbox_write now (gw_stats g)\<rparr>))) h = (Done (), k)" "moved 0 0 h k"
      using written by blast
    show ?thesis
      using Pair Inr pre [OF k(2) dispatch_all_balanced] k(1) by (simp add: process_carrier_messages_def gw_bind_eqs(1))
  qed (use Pair in \<open>simp add: process_carrier_messages_def\<close>)
qed

text \<open>C16. Every call of Lambda is on the books: over any run of the maildir carrier, however many passes it makes and
  however it ends, the counter of requests to Lambda moves by the number of calls made: no call is uncounted
  and none counted twice (the note that an audit could not be sent is not a request).\<close>

theorem lambda_accounted:
  "\<exists>tr. gw_trace (snd (run_maildir_carrier env md (on_world mc) rounds g)) = gw_trace g @ tr \<and>
     st_lambda_requests (gw_stats (snd (run_maildir_carrier env md (on_world mc) rounds g))) mod 2 ^ 64 =
       (st_lambda_requests (gw_stats g) + calls_in tr) mod 2 ^ 64"
  using calls.keeps_run [of env md mc rounds] by (simp add: keeps_def lambda_books_def)

end
