(* ===== verification/Promises.thy ===== *)
theory Promises
  imports Accounting
begin

text \<open>
  What the gateway promises of its handlers: no request reaches Lambda before every pre-filter and Core let it
  through, a cheque leaves by exactly one way, a reply in custody is not mailed, and the query handler reads and
  shows exactly what it should.
\<close>

section \<open>Steps that emit nothing\<close>

definition quiet :: "'n gateway \<Rightarrow> 'n gateway \<Rightarrow> bool" where
  "quiet g g' = (gw_trace g' = gw_trace g \<and> gw_net g' = gw_net g)"

interpretation hush: limiter_frame "quiet :: 'n gateway \<Rightarrow> 'n gateway \<Rightarrow> bool" env for env
  by unfold_locales (simp_all add: quiet_def bumped_def)

lemma quietD: "keeps quiet m \<Longrightarrow> m g = (x, h) \<Longrightarrow> gw_trace h = gw_trace g"
  by (metis keeps_def quiet_def snd_conv)

lemma gw_bind_cases:
  assumes "gw_bind m f g = (x, h)"
  obtains a k where "m g = (Done a, k)" "f a k = (x, h)"
    | e where "m g = (Failed e, h)" "x = Failed e"
    | c where "m g = (Exited c, h)" "x = Exited c"
  using assms by (auto simp: gw_bind_def split: prod.splits outcome.splits)

section \<open>The pre-filters\<close>

lemma decode_same: "snd (decode_witness_request env email g) = g"
  by (cases "ge_decode_witness env (pl_raw_ump_body (em_payload email))")
    (simp_all add: decode_witness_request_def gw_simps Let_def)

lemma check_rate_done:
  "check_rate env req g = (Done (), h) \<Longrightarrow>
     \<not> (wr_overlapped_signatures req = [] \<and> tx_sender_wallet_id (wr_transaction req) \<noteq> [] \<and>
        \<not> fst (rate_gate (cooldown_ms env) (ge_clock env (gw_tick g)) (ge_clock env (gw_tick g + 1))
             (tx_sender_wallet_id (wr_transaction req)) (gw_limiter g)))"
  by (auto simp: check_rate_def gw_bind_def gw_simps Let_def split: prod.splits if_splits)

lemma check_rate_world: "gw_world (snd (check_rate env req g)) = gw_world g"
  by (simp add: check_rate_def gw_bind_def gw_simps Let_def case_prod_beta split: prod.splits if_splits)

definition ban_file :: "'n gateway_env \<Rightarrow> world \<Rightarrow> (string + bytes) option" where
  "ban_file env w = map_option (\<lambda>path. fst (maildir_read_message path w)) (ac_nabla_ban_list_path (ge_config env))"

lemma check_ban_done:
  "check_ban env req g = (Done (), h) \<Longrightarrow>
     \<not> (wr_overlapped_signatures req = [] \<and>
        fst (nabla_ban_file_lists (ban_file env (gw_world g))
          (nabla_ban_keys (ge_tier env) (ge_bucket env) (tx_client_pk (wr_transaction req))
            (tx_sender_wallet_id (wr_transaction req))) s))"
  by (auto simp: check_ban_def ban_file_def nabla_ban_file_lists_def gw_bind_def gw_simps gw_io_def Let_def case_prod_beta
      split: prod.splits if_splits option.splits sum.splits outcome.splits)

lemma check_signature_done:
  "check_signature env req g = (Done (), h) \<Longrightarrow>
     \<not> (wr_overlapped_signatures req = [] \<and> ge_sig_prefilter env \<and> tx_client_sig (wr_transaction req) \<noteq> [] \<and>
        tx_client_pk (wr_transaction req) \<noteq> [] \<and> \<not> ge_sig_ok env (wr_transaction req))"
  by (auto simp: check_signature_def gw_bind_def gw_simps Let_def split: if_splits)

text \<open>What it means that nothing stands against a request when the gateway is in state \<open>g\<close>.\<close>

definition cleared :: "'n gateway_env \<Rightarrow> 'n gateway \<Rightarrow> witness_request \<Rightarrow> bool" where
  "cleared env g req = (let tx = wr_transaction req; wallet = tx_sender_wallet_id tx; now = ge_clock env (gw_tick g) in
     \<not> (wr_overlapped_signatures req = [] \<and> wallet \<noteq> [] \<and>
        \<not> fst (rate_gate (cooldown_ms env) now (ge_clock env (gw_tick g + 1)) wallet (gw_limiter g))) \<and>
     \<not> (wr_overlapped_signatures req = [] \<and>
        fst (nabla_ban_file_lists (ban_file env (gw_world g)) (nabla_ban_keys (ge_tier env) (ge_bucket env) (tx_client_pk tx) wallet)
          (gw_stats g))) \<and>
     \<not> (wr_overlapped_signatures req = [] \<and> ge_sig_prefilter env \<and> tx_client_sig tx \<noteq> [] \<and> tx_client_pk tx \<noteq> [] \<and>
        \<not> ge_sig_ok env tx))"

text \<open>What Core's answer on a certificate bundle lets through: nothing on a rejection or a fatal result, the request with
  the computed values on acceptance, the request without them when the interpreter failed.\<close>

definition core_lets :: "'n gateway_env \<Rightarrow> witness_request \<Rightarrow> bytes option \<Rightarrow> witness_request \<Rightarrow> bool" where
  "core_lets env req bundle lreq =
     (case ge_avm env (cl2_inputs req bundle (map_option (ge_subject_pk env) bundle)) of
        Inl e \<Rightarrow> lreq = req\<lparr>wr_produced_state_id := None, wr_commitment_hash := None\<rparr>
      | Inr out \<Rightarrow> co_result out = Accept \<and>
          lreq = req\<lparr>wr_produced_state_id := co_produced_state_id out, wr_commitment_hash := co_commitment_hash out\<rparr>)"

lemma check_cl2_done:
  assumes "check_cl2 env rid req g = (Done (Inr lreq), h)"
  shows "\<exists>bundle. core_lets env req bundle lreq"
  using assms [unfolded check_cl2_def]
proof (cases rule: gw_bind_cases)
  case (1 cert k)
  then have "core_lets env req cert lreq"
    by (auto simp: core_lets_def validate_transaction_cl2_def with_cl2_def gw_simps
        split: sum.splits core_result.splits if_splits)
  then show ?thesis ..
qed auto

lemma track_first:
  "gw_bind (track_lambda call answer) f g = (x, h) \<Longrightarrow> (\<And>r. keeps accounted (f r)) \<Longrightarrow> \<exists>tr. gw_trace h = gw_trace g @ Called call # tr"
proof -
  assume run: "gw_bind (track_lambda call answer) f g = (x, h)" and f: "\<And>r. keeps accounted (f r)"
  have track: "gw_trace (snd (track_lambda call answer g)) = gw_trace g @ [Called call]"
    by (cases "answer (gw_tick g)") (simp_all add: track_lambda_def gw_bind_def gw_try_def call_lambda_def gw_simps)
  from run show ?thesis
  proof (cases rule: gw_bind_cases)
    case (1 a k)
    then have "accounted k h" using f [of a] by (metis keeps_def snd_conv)
    then show ?thesis using track 1(1) by (auto simp: accounted_def)
  qed (use track in auto)
qed

lemma quiet_then:
  assumes "gw_bind m f g = (x, h)" "keeps quiet m" "gw_trace h \<noteq> gw_trace g"
  shows "\<exists>a k. m g = (Done a, k) \<and> f a k = (x, h) \<and> gw_trace k = gw_trace g"
  using assms(1)
proof (cases rule: gw_bind_cases)
  case (1 a k)
  then show ?thesis using quietD [OF assms(2)] by blast
qed (use quietD [OF assms(2)] assms(3) in blast)+

text \<open>What follows Core's check.\<close>

definition after_cl2 :: "'n gateway_env \<Rightarrow> response_payload + witness_request \<Rightarrow> ('n, response_payload) gw" where
  "after_cl2 env v = (case v of
       Inl refused \<Rightarrow> gw_return refused
     | Inr lreq \<Rightarrow> gw_bind (track_lambda (CallWitness lreq) (\<lambda>k. la_witness (ge_lambda env) k lreq)) (\<lambda>reply.
         gw_bind (deliver_cheque env lreq reply) (\<lambda>_. gw_bind (deliver_certificate env lreq reply) (\<lambda>_.
         gw_bind (deliver_scar_consent env lreq reply) (\<lambda>_. gw_bind (send_outbound_audit env reply) (\<lambda>_.
         gw_return (ge_sender_leg env reply)))))))"

lemma handle_witness_request_split: "handle_witness_request env email =
   gw_bind (decode_witness_request env email) (\<lambda>req. gw_bind (check_rate env req) (\<lambda>_. gw_bind (check_ban env req) (\<lambda>_.
   gw_bind (check_signature env req) (\<lambda>_. gw_bind (check_cl2 env (em_request_id email) req) (\<lambda>v. after_cl2 env v)))))"
  by (simp add: handle_witness_request_def after_cl2_def)

lemma after_lambda: "keeps accounted (gw_bind (deliver_cheque env lreq reply) (\<lambda>_. gw_bind (deliver_certificate env lreq reply) (\<lambda>_.
    gw_bind (deliver_scar_consent env lreq reply) (\<lambda>_. gw_bind (send_outbound_audit env reply) (\<lambda>_.
    gw_return (ge_sender_leg env reply))))))"
  by (intro acct.frame_rules acct.keeps_deliveries)

text \<open>C2. No witness request reaches Lambda, and nothing is mailed, deposited in the log or sent for it, unless it decodes, no pre-filter
  stands against it and Core lets it through: a run of the handler either emits nothing at all, or the
  first thing it emits is the call of Lambda, with the request Core returned, and all of that holds.  Requests that
  carry overlap signatures skip the pre-filters but not Core.\<close>

theorem witness_gated:
  "gw_trace (snd (handle_witness_request env email g)) = gw_trace g \<or>
   (\<exists>req bundle lreq tr.
      fst (decode_witness_request env email g) = Done req \<and> cleared env g req \<and> core_lets env req bundle lreq \<and>
      gw_trace (snd (handle_witness_request env email g)) = gw_trace g @ Called (CallWitness lreq) # tr)"
proof (rule disj_imp [THEN iffD2], rule impI)
  let ?run = "handle_witness_request env email g"
  assume moved: "gw_trace (snd ?run) \<noteq> gw_trace g"
  obtain x h where run: "?run = (x, h)" by fastforce
  then have h: "gw_trace h \<noteq> gw_trace g" using moved by simp
  obtain req g1 where req: "decode_witness_request env email g = (Done req, g1)" and r1: "gw_trace g1 = gw_trace g"
    and s1: "gw_bind (check_rate env req) (\<lambda>_. gw_bind (check_ban env req) (\<lambda>_. gw_bind (check_signature env req) (\<lambda>_.
        gw_bind (check_cl2 env (em_request_id email) req) (\<lambda>v. after_cl2 env v)))) g1 = (x, h)"
    using quiet_then [OF run [unfolded handle_witness_request_split] hush.keeps_decode h] by blast
  have g1: "g1 = g" using decode_same [of env email g] req by simp
  obtain g2 where rate: "check_rate env req g = (Done (), g2)" and r2: "gw_trace g2 = gw_trace g"
    and s2: "gw_bind (check_ban env req) (\<lambda>_. gw_bind (check_signature env req) (\<lambda>_.
        gw_bind (check_cl2 env (em_request_id email) req) (\<lambda>v. after_cl2 env v))) g2 = (x, h)"
    using quiet_then [OF s1 hush.keeps_rate] h g1 by auto
  obtain g3 where ban: "check_ban env req g2 = (Done (), g3)" and r3: "gw_trace g3 = gw_trace g"
    and s3: "gw_bind (check_signature env req) (\<lambda>_.
        gw_bind (check_cl2 env (em_request_id email) req) (\<lambda>v. after_cl2 env v)) g3 = (x, h)"
    using quiet_then [OF s2 hush.keeps_ban] h r2 by auto
  obtain g4 where sig: "check_signature env req g3 = (Done (), g4)" and r4: "gw_trace g4 = gw_trace g"
    and s4: "gw_bind (check_cl2 env (em_request_id email) req) (\<lambda>v. after_cl2 env v) g4 = (x, h)"
    using quiet_then [OF s3 hush.keeps_signature] h r3 by auto
  obtain v g5 where cl2: "check_cl2 env (em_request_id email) req g4 = (Done v, g5)" and r5: "gw_trace g5 = gw_trace g"
    and s5: "after_cl2 env v g5 = (x, h)"
    using quiet_then [OF s4 hush.keeps_cl2] h r4 by auto
  have "cleared env g req"
    using check_rate_done [OF rate] check_ban_done [OF ban] check_signature_done [OF sig] check_rate_world [of env req g] rate
    by (simp add: cleared_def Let_def)
  moreover obtain lreq where lreq: "v = Inr lreq" using s5 h r5 by (cases v) (auto simp: after_cl2_def gw_simps)
  moreover obtain cert where "core_lets env req cert lreq" using check_cl2_done cl2 lreq by blast
  moreover have "\<exists>tr. gw_trace h = gw_trace g @ Called (CallWitness lreq) # tr"
    using track_first [OF s5 [unfolded after_cl2_def lreq sum.case] after_lambda] r5 by simp
  ultimately show "\<exists>req bundle lreq tr. fst (decode_witness_request env email g) = Done req \<and> cleared env g req \<and>
      core_lets env req bundle lreq \<and> gw_trace (snd ?run) = gw_trace g @ Called (CallWitness lreq) # tr"
    using req run by auto
qed

section \<open>The cheque\<close>

text \<open>The cheque that is due, with the plan, the address and the mail: none without a cheque, for a burn, for a refused address and
  for a mail that cannot be built.\<close>

definition cheque_due ::
  "'n gateway_env \<Rightarrow> witness_request \<Rightarrow> witness_reply \<Rightarrow> mail_stamp \<Rightarrow> (artifact \<times> delivery_plan \<times> string \<times> bytes) option" where
  "cheque_due env req reply st =
     (let tx = wr_transaction req;
          plan = plan_receiver_delivery (ge_valid_wallet env) (tx_receiver_address tx) (tx_receiver_wallet_id tx)
                   (ac_pickup_dir (ge_config env) \<noteq> None);
          due = (\<lambda>c e. case cheque_email env st tx reply c e of Inl _ \<Rightarrow> None | Inr b \<Rightarrow> Some (c, plan, e, b)) in
      case wp_cheque reply of
        None \<Rightarrow> None
      | Some c \<Rightarrow>
          (if tx_receiver_wallet_id tx = ge_burn_address env then None
           else case plan of PlanEmail e \<Rightarrow> due c e | PlanDeposit d e \<Rightarrow> due c e | PlanRefuse r \<Rightarrow> None))"

definition deposits_of :: "'n gateway \<Rightarrow> nat" where
  "deposits_of g = st_care_of_deposits (gw_stats g)"

definition still :: "'n gateway \<Rightarrow> 'n gateway \<Rightarrow> bool" where
  "still g g' = (gw_trace g' = gw_trace g \<and> deposits_of g' = deposits_of g \<and> gw_skip g' = gw_skip g \<and>
     gw_world g' = gw_world g \<and> gw_net g' = gw_net g)"

text \<open>Where a cheque may be put, as the temporary name and the name of the file: at the pickup point of a plan that asks for it, and
  aside for a receiver on the skip list.\<close>

definition pickup_place :: "'n gateway_env \<Rightarrow> delivery_plan \<Rightarrow> bytes \<Rightarrow> (string \<times> string) option" where
  "pickup_place env plan txid =
     (case (plan, ac_pickup_dir (ge_config env)) of
        (PlanDeposit domain _, Some base) \<Rightarrow>
          (let dir = path_join base domain; n = hex_encode txid @ ''.cheque.eml'' in
           Some (path_join (path_join dir ''tmp'') n, path_join (path_join dir ''new'') n))
      | _ \<Rightarrow> None)"

definition skip_place :: "skip_list option \<Rightarrow> string \<Rightarrow> bytes \<Rightarrow> (string \<times> string) option" where
  "skip_place skip receiver txid =
     (case skip of
        Some sl \<Rightarrow>
          (let n = hex_encode txid @ ''.cheque'' in
           if skip_contains sl receiver then Some (path_join (sl_dir sl) (''.tmp.'' @ n), path_join (sl_dir sl) n) else None)
      | None \<Rightarrow> None)"

definition delivery_note :: "'n gateway_env \<Rightarrow> bytes \<Rightarrow> bool \<Rightarrow> gateway_event list" where
  "delivery_note env txid encrypted =
     (case ge_admin_url env of
        None \<Rightarrow> []
      | Some url \<Rightarrow> [Posted (url @ ''/delivery-update'') (''{'' @ quoted ''txid'' @ '':'' @ quoted (hex_encode txid) @ '','' @
          quoted ''encrypted'' @ '':'' @ (if encrypted then ''true'' else ''false'') @ ''}'')])"

text \<open>The ways the bytes \<open>b\<close> of a cheque for \<open>receiver\<close>, due at \<open>to\<close>, can leave.  At the pickup point, and then nothing else is written or
  sent; where there is none or the disk fails, aside, and then nothing is sent; where the receiver is not listed or the disk fails,
  through the sender, once.\<close>

definition cheque_left ::
  "'n gateway_env \<Rightarrow> delivery_plan \<Rightarrow> bytes \<Rightarrow> string \<Rightarrow> string \<Rightarrow> bytes \<Rightarrow> bool \<Rightarrow> 'n gateway \<Rightarrow> 'n gateway \<Rightarrow> bool" where
  "cheque_left env plan txid receiver to b encrypted g g' =
     (\<exists>deposited v. put_or_not (pickup_place env plan txid) b deposited (gw_world g) v \<and>
        deposits_of g' = (if deposited then wadd (deposits_of g) 1 else deposits_of g) \<and>
        (if deposited then gw_world g' = v \<and> gw_net g' = gw_net g \<and> gw_trace g' = gw_trace g
         else \<exists>aside u. put_or_not (skip_place (gw_skip g) receiver txid) b aside v u \<and>
           (if aside then gw_world g' = u \<and> gw_net g' = gw_net g \<and> gw_trace g' = gw_trace g
            else \<exists>k r. ge_send env k to b (u, gw_net g) = (r, gw_world g', gw_net g') \<and>
              gw_trace g' = gw_trace g @ Mailed to b (is_ok r) # (if is_ok r then delivery_note env txid encrypted else []))))"

lemma still_trans: "still g h \<Longrightarrow> still h k \<Longrightarrow> still g k"
  by (simp add: still_def)

lemma cheque_left_still: "still g h \<Longrightarrow> cheque_left env plan txid receiver to b enc h g' \<Longrightarrow> cheque_left env plan txid receiver to b enc g g'"
  unfolding still_def cheque_left_def by (elim conjE) (simp only:)

lemma encrypt_for_still: "\<exists>r h. encrypt_for env to b g = (Done r, h) \<and> still g h"
  by (simp add: encrypt_for_def gw_bind_def gw_simps still_def deposits_of_def case_prod_beta)

lemma deposit_artifact_cases:
  "\<exists>d h. deposit_artifact env plan (hex_encode txid @ ''.cheque.eml'') b g = (Done d, h) \<and>
     put_or_not (pickup_place env plan txid) b d (gw_world g) (gw_world h) \<and>
     gw_trace h = gw_trace g \<and> gw_skip h = gw_skip g \<and> gw_net h = gw_net g \<and>
     deposits_of h = (if d then wadd (deposits_of g) 1 else deposits_of g)"
proof (cases "\<exists>dom e base. plan = PlanDeposit dom e \<and> ac_pickup_dir (ge_config env) = Some base")
  case True
  then obtain dom e base where c: "plan = PlanDeposit dom e" "ac_pickup_dir (ge_config env) = Some base" by blast
  obtain r w where r: "deposit_atomic base dom (hex_encode txid @ ''.cheque.eml'') b (gw_world g) = (r, w)" by fastforce
  show ?thesis
    using deposit_puts [OF hex_name_relative r] r
    by (cases "is_ok r")
      (auto simp: c deposit_artifact_def pickup_place_def Let_def gw_bind_def gw_simps gw_io_def deposits_of_def)
next
  case False
  then show ?thesis
    by (cases plan; cases "ac_pickup_dir (ge_config env)")
      (auto simp: deposit_artifact_def pickup_place_def put_or_not_def gw_simps deposits_of_def)
qed

lemma count_default_still: "\<exists>h. count_default_delivery plan tx g = (Done (), h) \<and> still g h"
  by (cases plan) (auto simp: count_default_delivery_def gw_simps still_def deposits_of_def)

lemma divert_cases:
  "\<exists>d h. divert_skipped receiver (hex_encode txid @ ''.cheque'') b g = (Done d, h) \<and>
     put_or_not (skip_place (gw_skip g) receiver txid) b d (gw_world g) (gw_world h) \<and> still g (h\<lparr>gw_world := gw_world g\<rparr>)"
proof (cases "\<exists>sl. gw_skip g = Some sl \<and> skip_contains sl receiver")
  case True
  then obtain sl where c: "gw_skip g = Some sl" "skip_contains sl receiver" by blast
  obtain r w where r: "write_skipped (sl_dir sl) (hex_encode txid @ ''.cheque'') b (gw_world g) = (r, w)" by fastforce
  show ?thesis
    using skipped_puts [OF r] r
    by (auto simp: c divert_skipped_def skip_place_def Let_def gw_bind_def gw_simps gw_io_def still_def deposits_of_def)
next
  case False
  then show ?thesis
    by (cases "gw_skip g") (auto simp: divert_skipped_def skip_place_def put_or_not_def gw_bind_def gw_simps still_def deposits_of_def)
qed

lemma receiver_plan_still:
  "let plan = plan_receiver_delivery (ge_valid_wallet env) (tx_receiver_address tx) (tx_receiver_wallet_id tx)
       (ac_pickup_dir (ge_config env) \<noteq> None) in
   \<exists>h. receiver_plan env tx g = (Done (plan, case plan of PlanEmail e \<Rightarrow> Some e | PlanDeposit d e \<Rightarrow> Some e | PlanRefuse r \<Rightarrow> None), h) \<and>
     still g h \<and> gw_tick h = gw_tick g \<and> gw_keys h = gw_keys g"
  by (auto simp: receiver_plan_def Let_def gw_bind_def gw_simps still_def deposits_of_def split: delivery_plan.splits)

lemma send_and_post:
  "\<exists>h r. gw_bind (gw_try (send_mail env to b)) (\<lambda>r. if is_ok r then post_delivery_update env txid e else gw_return ()) g = (Done (), h) \<and>
     deposits_of h = deposits_of g \<and> ge_send env (gw_tick g) to b (gw_world g, gw_net g) = (r, gw_world h, gw_net h) \<and>
     gw_trace h = gw_trace g @ Mailed to b (is_ok r) # (if is_ok r then delivery_note env txid e else [])"
proof -
  obtain r w n where "ge_send env (gw_tick g) to b (gw_world g, gw_net g) = (r, w, n)" by (metis surj_pair)
  then show ?thesis
    by (cases r; cases "ge_admin_url env")
      (auto simp: gw_bind_def gw_try_def send_mail_def post_delivery_update_def delivery_note_def gw_simps deposits_of_def is_ok_iff)
qed

lemma deliver_cheque_to_leaves:
  "\<exists>g' fb enc. fst (encrypt_for env to b g) = Done (fb, enc) \<and> deliver_cheque_to env req c plan to b g = (Done (), g') \<and>
     cheque_left env plan (fst c) (tx_receiver_wallet_id (wr_transaction req)) to fb enc g g'"
proof -
  let ?rcv = "tx_receiver_wallet_id (wr_transaction req)"
  obtain fb enc h1 where 1: "encrypt_for env to b g = (Done (fb, enc), h1)" "still g h1"
    using encrypt_for_still by (metis surj_pair)
  obtain d h2 where 2: "deposit_artifact env plan (hex_encode (fst c) @ ''.cheque.eml'') fb h1 = (Done d, h2)"
    "put_or_not (pickup_place env plan (fst c)) fb d (gw_world h1) (gw_world h2)"
    "gw_trace h2 = gw_trace h1" "gw_skip h2 = gw_skip h1" "gw_net h2 = gw_net h1"
    "deposits_of h2 = (if d then wadd (deposits_of h1) 1 else deposits_of h1)"
    using deposit_artifact_cases by metis
  obtain h3 where 3: "count_default_delivery plan (wr_transaction req) h2 = (Done (), h3)" "still h2 h3"
    using count_default_still by metis
  obtain k h4 where 4: "divert_skipped ?rcv (hex_encode (fst c) @ ''.cheque'') fb h3 = (Done k, h4)"
    "put_or_not (skip_place (gw_skip h3) ?rcv (fst c)) fb k (gw_world h3) (gw_world h4)" "still h3 (h4\<lparr>gw_world := gw_world h3\<rparr>)"
    using divert_cases by metis
  obtain h5 r where 5: "gw_bind (gw_try (send_mail env to fb)) (\<lambda>r. if is_ok r then post_delivery_update env (fst c) enc else gw_return ()) h4 = (Done (), h5)"
    "deposits_of h5 = deposits_of h4" "ge_send env (gw_tick h4) to fb (gw_world h4, gw_net h4) = (r, gw_world h5, gw_net h5)"
    "gw_trace h5 = gw_trace h4 @ Mailed to fb (is_ok r) # (if is_ok r then delivery_note env (fst c) enc else [])"
    using send_and_post by metis
  note run = deliver_cheque_to_def Let_def gw_bind_def [of "encrypt_for env to b"] gw_bind_def [of "deposit_artifact _ _ _ _"]
    gw_bind_def [of "count_default_delivery _ _"] gw_bind_def [of "if _ then _ else _"]
  note same = 1(2) 3(2) 4(3)
  have place: "put_or_not (pickup_place env plan (fst c)) fb d (gw_world g) (gw_world h2)" using 2(2) 1(2) by (simp add: still_def)
  have aside: "put_or_not (skip_place (gw_skip g) ?rcv (fst c)) fb k (gw_world h2) (gw_world h4)"
    using 4(2) same 2(4) by (simp add: still_def)
  have "\<exists>g'. deliver_cheque_to env req c plan to b g = (Done (), g') \<and> cheque_left env plan (fst c) ?rcv to fb enc g g'"
  proof (cases d)
    case True
    then have "deliver_cheque_to env req c plan to b g = (Done (), h3)"
      using 1 2 3 by (simp add: run gw_simps)
    moreover have "cheque_left env plan (fst c) ?rcv to fb enc g h3"
      unfolding cheque_left_def using True place 2 same by (intro exI [of _ d] exI [of _ "gw_world h2"]) (simp add: still_def)
    ultimately show ?thesis by blast
  next
    case False
    note here = 1(1) 2(1) 3(1) 4(1) False
    show ?thesis
    proof (cases k)
      case True
      then have "deliver_cheque_to env req c plan to b g = (Done (), h4)" using here by (simp add: run gw_simps)
      moreover have "cheque_left env plan (fst c) ?rcv to fb enc g h4"
        unfolding cheque_left_def using True False place aside 2 same
        by (intro exI [of _ d] exI [of _ "gw_world h2"]) (auto simp: still_def deposits_of_def)
      ultimately show ?thesis by blast
    next
      case k: False
      then have "deliver_cheque_to env req c plan to b g = (Done (), h5)" using here 5(1) by (simp add: run gw_simps)
      moreover have "cheque_left env plan (fst c) ?rcv to fb enc g h5"
        unfolding cheque_left_def using k False place aside 2 same 5
        by (intro exI [of _ d] exI [of _ "gw_world h2"]) (auto simp: still_def deposits_of_def)
      ultimately show ?thesis by blast
    qed
  qed
  then show ?thesis using 1(1) by auto
qed

text \<open>C3. A cheque leaves by exactly one way.  When one is due (Lambda issued it, the receiver is not the burn address, the
  delivery address is not refused and the mail can be built) its bytes, encrypted when a key is known, are put at the
  pickup point where the plan asks for it, and then nothing else is written or sent; where it does not, or the disk fails there, they are set aside
  whole for a receiver on the skip list, and then nothing is sent; where the receiver is not listed, or the disk fails there too, they are
  handed to the sender once, for the address due and no other, and Lambda's delivery log gets one note exactly when the mail was
  accepted and an address for notes is configured.  A way that failed leaves at most its temporary file.  When none is due nothing leaves.
  No failure of these steps fails the request.\<close>

theorem cheque_one_way:
  "\<exists>g'. deliver_cheque env req reply g = (Done (), g') \<and>
     (case cheque_due env req reply (ge_stamp env (gw_tick g)) of
        None \<Rightarrow> gw_trace g' = gw_trace g \<and> deposits_of g' = deposits_of g \<and> gw_world g' = gw_world g \<and> gw_net g' = gw_net g
      | Some (c, plan, to, b) \<Rightarrow> \<exists>fb enc. fst (encrypt_for env to b (g\<lparr>gw_tick := gw_tick g + 1\<rparr>)) = Done (fb, enc) \<and>
          cheque_left env plan (fst c) (tx_receiver_wallet_id (wr_transaction req)) to fb enc g g')"
proof (cases "wp_cheque reply")
  case None
  then show ?thesis by (simp add: deliver_cheque_def cheque_due_def Let_def gw_simps)
next
  case (Some c)
  let ?tx = "wr_transaction req"
  let ?st = "ge_stamp env (gw_tick g)"
  define plan where "plan = plan_receiver_delivery (ge_valid_wallet env) (tx_receiver_address ?tx) (tx_receiver_wallet_id ?tx)
       (ac_pickup_dir (ge_config env) \<noteq> None)"
  define address where "address = (case plan of PlanEmail e \<Rightarrow> Some e | PlanDeposit d e \<Rightarrow> Some e | PlanRefuse r \<Rightarrow> None)"
  obtain h where h: "receiver_plan env ?tx g = (Done (plan, address), h)" "still g h" "gw_tick h = gw_tick g" "gw_keys h = gw_keys g"
    using receiver_plan_still [of env ?tx g] unfolding Let_def plan_def address_def by blast
  let ?h = "h\<lparr>gw_tick := gw_tick h + 1\<rparr>"
  have h': "still g ?h" using h(2) by (simp add: still_def deposits_of_def)
  show ?thesis
  proof (cases "tx_receiver_wallet_id ?tx = ge_burn_address env")
    case True
    then show ?thesis using Some by (simp add: deliver_cheque_def cheque_due_def Let_def gw_simps)
  next
    case False
    have run: "deliver_cheque env req reply g = (case address of None \<Rightarrow> (Done (), h)
        | Some to \<Rightarrow> (case cheque_email env ?st ?tx reply c to of
            Inl e \<Rightarrow> (Done (), ?h)
          | Inr b \<Rightarrow> deliver_cheque_to env req c plan to b ?h))"
      using Some False h by (simp add: deliver_cheque_def gw_bind_def gw_simps split: option.split sum.split)
    have due: "cheque_due env req reply ?st = (case address of None \<Rightarrow> None
        | Some to \<Rightarrow> (case cheque_email env ?st ?tx reply c to of Inl e \<Rightarrow> None | Inr b \<Rightarrow> Some (c, plan, to, b)))"
      using Some False unfolding cheque_due_def Let_def plan_def [symmetric] address_def by (simp split: delivery_plan.split)
    have keys: "fst (encrypt_for env to b ?h) = fst (encrypt_for env to b (g\<lparr>gw_tick := gw_tick g + 1\<rparr>))" for to b
      using h(3,4) by (simp add: encrypt_for_def gw_bind_def gw_simps case_prod_beta)
    show ?thesis
    proof (cases address)
      case (Some to)
      show ?thesis
      proof (cases "cheque_email env ?st ?tx reply c to")
        case (Inr b)
        obtain g' fb enc where x: "fst (encrypt_for env to b ?h) = Done (fb, enc)" "deliver_cheque_to env req c plan to b ?h = (Done (), g')"
          "cheque_left env plan (fst c) (tx_receiver_wallet_id ?tx) to fb enc ?h g'"
          using deliver_cheque_to_leaves [of env to b ?h req c plan] by blast
        have "cheque_left env plan (fst c) (tx_receiver_wallet_id ?tx) to fb enc g g'" by (rule cheque_left_still [OF h' x(3)])
        moreover have "deliver_cheque env req reply g = (Done (), g')" using run Some Inr x(2) by (simp only: option.case sum.case)
        moreover have "cheque_due env req reply ?st = Some (c, plan, to, b)" using due Some Inr by (simp only: option.case sum.case)
        ultimately show ?thesis using x(1) unfolding keys by (simp only: option.case prod.case) blast
      qed (use run due h' Some in \<open>simp add: still_def deposits_of_def\<close>)
    qed (use run due h(2) in \<open>simp add: still_def\<close>)
  qed
qed

section \<open>Replies in custody\<close>

lemma tee_quiet: "\<exists>h. tee_reply env email b g = (Done (), h) \<and> gw_trace h = gw_trace g"
  by (cases "ob_uncle (ac_outbound (ge_config env))"; cases "em_uncle_correlate email")
    (auto simp: tee_reply_def gw_bind_def gw_simps gw_io_def split: prod.splits)

definition custody_path :: "custody_route \<Rightarrow> string \<Rightarrow> string \<Rightarrow> string" where
  "custody_path row i request_id = path_join (path_join (cr_outbox row) i) (request_id @ ''.cbor'')"

lemma custody_done:
  "custody_deposit dir name b w = (Inr q, w') \<Longrightarrow> files w' (path_join dir name) = Some b \<and> custody_name_ok name"
  using custody.put_done [of "(dir, name)" b w q w'] by (auto simp: custody_deposit_def io_fail_def split: if_splits)

lemma reply_in_custody:
  assumes "em_custody email = Some (hdr, i)"
    and "find (\<lambda>r. eq_ignore_case (cr_header r) hdr) (ob_custody (ac_outbound (ge_config env))) = Some row"
    and "cr_suppress_email row"
    and "send_response env email payload g = (x, g')"
  shows "gw_trace g' = gw_trace g \<and>
    (x = Done () \<longrightarrow> \<not> (eq_ignore_case hdr ''X-TOT-Session'' \<and> ge_is_dev env (em_from email)) \<and>
       custody_name_ok (rp_request_id payload @ ''.cbor'') \<and>
       (\<exists>b. build_response (me_b64_encode (ge_mail env)) (ge_encode_reply env) (ge_stamp env (gw_tick g)) (em_from email)
              (ac_identity_email (ge_config env)) (reply_type payload) (rp_request_id payload) (em_message_id email) payload = Inr b \<and>
          files (gw_world g') (custody_path row i (rp_request_id payload)) = Some b))"
proof -
  define r where "r = build_response (me_b64_encode (ge_mail env)) (ge_encode_reply env) (ge_stamp env (gw_tick g)) (em_from email)
    (ac_identity_email (ge_config env)) (reply_type payload) (rp_request_id payload) (em_message_id email) payload"
  let ?h = "g\<lparr>gw_tick := gw_tick g + 1\<rparr>"
  have run: "(case r of Inl e \<Rightarrow> (Failed e, ?h)
     | Inr b \<Rightarrow> gw_bind (tee_reply env email b) (\<lambda>_. gw_bind (custody_reply env email (rp_request_id payload) b)
         (\<lambda>served. if served then gw_return () else mail_reply env email b)) ?h) = (x, g')"
    using assms(4) by (cases r) (simp_all add: send_response_def gw_bind_def [of "gw_fresh _"] gw_simps r_def)
  show ?thesis
  proof (cases r)
    case (Inr b)
    obtain k where k: "tee_reply env email b ?h = (Done (), k)" "gw_trace k = gw_trace g"
      using tee_quiet [of env email b ?h] by auto
    obtain d w where d: "custody_deposit (path_join (cr_outbox row) i) (rp_request_id payload @ ''.cbor'') b (gw_world k) = (d, w)"
      by fastforce
    have "custody_reply env email (rp_request_id payload) b k =
        (if eq_ignore_case hdr ''X-TOT-Session'' \<and> ge_is_dev env (em_from email)
         then (fst (custody_reply env email (rp_request_id payload) b k), k)
         else (case d of Inr _ \<Rightarrow> Done True | Inl e \<Rightarrow> Failed (MaildirError (''custody deposit failed for '' @ hdr @ '': '' @ e)), k\<lparr>gw_world := w\<rparr>))"
      using assms(1-3) d by (cases d) (simp_all add: custody_reply_def gw_bind_def gw_io_def gw_simps)
    then show ?thesis
      using run Inr k d assms(1,2) by (cases d)
        (auto simp: gw_bind_def gw_simps r_def [symmetric] custody_path_def custody_reply_def dest: custody_done split: if_splits)
  qed (use run in auto)
qed

text \<open>C1. The reply to a request in custody of a carrier that suppresses mail is never mailed: it is deposited, whole and byte
  for byte as it would have been mailed, in the session's directory of that carrier's outbox; or the request fails
  and nothing is sent, as it does whenever its id does not make a safe file name.  A dev wallet under the normal-wallet stamp is always refused.\<close>

theorem custody_exclusive:
  assumes "em_custody email = Some (hdr, i)"
    and "find (\<lambda>r. eq_ignore_case (cr_header r) hdr) (ob_custody (ac_outbound (ge_config env))) = Some row"
    and "cr_suppress_email row"
    and "send_response env email payload g = (x, g')"
  shows "gw_trace g' = gw_trace g \<and>
    (x = Done () \<longrightarrow> \<not> (eq_ignore_case hdr ''X-TOT-Session'' \<and> ge_is_dev env (em_from email)) \<and>
       custody_name_ok (rp_request_id payload @ ''.cbor'') \<and>
       (\<exists>b. build_response (me_b64_encode (ge_mail env)) (ge_encode_reply env) (ge_stamp env (gw_tick g)) (em_from email)
              (ac_identity_email (ge_config env)) (reply_type payload) (rp_request_id payload) (em_message_id email) payload = Inr b \<and>
          files (gw_world g') (custody_path row i (rp_request_id payload)) = Some b))"
  by (rule reply_in_custody [OF assms])

section \<open>A gateway to evaluate\<close>

definition sample_stamp :: mail_stamp where
  "sample_stamp = \<lparr>ms_id_uuid = ''1b4e'', ms_subject_uuid = ''2fa1'', ms_timestamp = 5, ms_date = ''Tue, 14 Nov 2023''\<rparr>"

definition sample_lambda :: lambda_port where
  "sample_lambda = \<lparr>
     la_witness = (\<lambda>k r. Inr \<lparr>wp_cheque = Some (''id'', ''c''), wp_sender_fact_chain = None, wp_vbc_signature = None,
       wp_scar_consent = None, wp_outbound_peer_audit = None, wp_leg = []\<rparr>),
     la_redeem = (\<lambda>k r. Inl (LambdaError [])), la_ack = (\<lambda>k r. Inr (True, None)),
     la_query = (\<lambda>k pk. Inr (False, None)), la_status = (\<lambda>k r. Inl (LambdaError [])),
     la_genesis = (\<lambda>k r pk b ms h. Inl (LambdaError [])), la_vbc_sign = (\<lambda>k r. Inr (True, None)),
     la_vbc_commit = (\<lambda>k r. Inr (True, None)), la_set_auth = (\<lambda>k r pk h. Inr (True, None)),
     la_peer_audit = (\<lambda>k r. Inl (LambdaError [])), la_tell = (\<lambda>k c. Inr ())\<rparr>"

definition sample_row :: custody_route where
  "sample_row = \<lparr>cr_header = ''X-TOT-Session'', cr_outbox = ''tot/out'', cr_suppress_email = True\<rparr>"

definition sample_config :: antie_config where
  "sample_config = default_config\<lparr>ac_outbound := default_outbound\<lparr>ob_custody := [sample_row]\<rparr>\<rparr>"

definition sample_gateway_env :: "unit gateway_env" where
  "sample_gateway_env = \<lparr>ge_config = sample_config, ge_mail = sample_mail_env, ge_decryptor = None, ge_lambda = sample_lambda,
     ge_send = (\<lambda>k to b wn. (Inr (), wn)), ge_clock = (\<lambda>k. 1000 * k), ge_unix = (\<lambda>k. k), ge_stamp = (\<lambda>k. sample_stamp),
     ge_tee_ids = (\<lambda>k. (1, k)), ge_entries = (\<lambda>k d. None), ge_encode_reply = (\<lambda>p. Inr [CHR 0xA0]), ge_with_id = (\<lambda>i er. er),
     ge_is_dev = (\<lambda>w. starts_with ''dev.'' w), ge_valid_wallet = (\<lambda>w. contains_str ''@'' w), ge_decode_witness = (\<lambda>b. Inl ''short''),
     ge_decode_redeem = (\<lambda>b. Inl ''short''), ge_sig_prefilter = True, ge_sig_ok = (\<lambda>tx. True), ge_tier = (\<lambda>w. None),
     ge_bucket = (\<lambda>b k. b), ge_decode_bundle = (\<lambda>b. Inr b), ge_bundle_ok = (\<lambda>b. True), ge_subject_pk = (\<lambda>b. b),
     ge_avm = (\<lambda>i. Inl ''none''), ge_burn_address = ''burn'', ge_origin = (\<lambda>tx. Inr []),
     ge_encode_cheque = (\<lambda>c f o'. Inr []), ge_origin_matches = (\<lambda>o' t. True), ge_encode_scar = (\<lambda>s. Inr []),
     ge_pgp = \<lparr>pg_ask = (\<lambda>k u. NoAnswer), pg_cert_ok = (\<lambda>b. True), pg_recipients = (\<lambda>b. Inr []), pg_seal = (\<lambda>r b. Inr b)\<rparr>,
     ge_sender_leg = (\<lambda>r. plain_reply True []), ge_vbc_signer = (\<lambda>s. []), ge_status_value = (\<lambda>b. Inl []), ge_admin_url = None\<rparr>"

definition sample_gateway :: "unit gateway" where
  "sample_gateway = \<lparr>gw_world = no_files, gw_net = (), gw_stats = new_stats 0, gw_limiter = [], gw_skip = None,
     gw_keys = (\<lambda>e. None), gw_tick = 0, gw_trace = []\<rparr>"

definition sample_email :: antie_email where
  "sample_email = \<lparr>em_from = ''w@x'', em_to = ''v@y'', em_message_type = ''query'', em_request_id = ''r1'',
     em_message_id = None, em_payload = empty_payload, em_raw = [], em_uncle_correlate = None,
     em_custody = Some (''x-tot-session'', ''ab'')\<rparr>"

lemma custody_fault_free:
  assumes "faults w = []" "custody_name_ok name"
  shows "\<exists>w'. custody_deposit dir name b w = (Inr (path_join dir name), w') \<and> faults w' = []"
proof -
  let ?t = "path_join (path_join dir ''tmp'') name"
  define w1 where "w1 = snd (create_dir_all (path_join dir ''tmp'') w)"
  define w2 where "w2 = snd (create_file ?t w1)"
  have 1: "create_dir_all (path_join dir ''tmp'') w = (Inr (), w1)" "faults w1 = []"
    using assms(1) by (simp_all add: w1_def create_dir_all_def prim_def observed_def Let_def)
  have 2: "create_file ?t w1 = (Inr (), w2)" "faults w2 = []" "files w2 ?t \<noteq> None"
    using 1 by (simp_all add: w2_def create_file_def prim_def observed_def Let_def)
  obtain w3 where 3: "write_all ?t b w2 = (Inr (), w3)" "faults w3 = []" "files w3 ?t \<noteq> None"
    using write_all_quiet [OF 2(2,3)] by blast
  show ?thesis
    using assms(2) 1(1) 2(1) 3
    by (auto simp: custody_deposit_def Let_def io_bind_def sync_file_def rename_file_def sync_dir_def prim_def observed_def
        io_ignore_def io_return_def)
qed

lemma sample_row_found:
  "find (\<lambda>r. eq_ignore_case (cr_header r) ''x-tot-session'') (ob_custody (ac_outbound (ge_config sample_gateway_env))) = Some sample_row"
  by (simp add: sample_gateway_env_def sample_config_def default_outbound_def sample_row_def) code_simp

lemma sample_custody: "em_custody sample_email = Some (''x-tot-session'', ''ab'')"
  by (simp add: sample_email_def)

text \<open>Where nothing goes wrong the deposit is made, and no other file but its temporary one changes.\<close>

lemma reply_goes_out:
  assumes "em_custody email = Some (hdr, i)" "em_uncle_correlate email = None"
    and "find (\<lambda>r. eq_ignore_case (cr_header r) hdr) (ob_custody (ac_outbound (ge_config env))) = Some row" "cr_suppress_email row"
    and "\<not> (eq_ignore_case hdr ''X-TOT-Session'' \<and> ge_is_dev env (em_from email))"
    and "custody_name_ok (rp_request_id p @ ''.cbor'')" "faults (gw_world g) = []"
    and "build_response (me_b64_encode (ge_mail env)) (ge_encode_reply env) (ge_stamp env (gw_tick g)) (em_from email)
       (ac_identity_email (ge_config env)) (reply_type p) (rp_request_id p) (em_message_id email) p = Inr b"
  shows "\<exists>g'. send_response env email p g = (Done (), g') \<and> faults (gw_world g') = [] \<and>
    (\<forall>q. files (gw_world g') q \<noteq> files (gw_world g) q \<longrightarrow> q = custody_path row i (rp_request_id p) \<or>
       q = path_join (path_join (path_join (cr_outbox row) i) ''tmp'') (rp_request_id p @ ''.cbor''))"
proof -
  let ?dir = "path_join (cr_outbox row) i" and ?n = "rp_request_id p @ ''.cbor''"
  obtain w where w: "custody_deposit ?dir ?n b (gw_world g) = (Inr (path_join ?dir ?n), w)" "faults w = []"
    using custody_fault_free [OF assms(7,6)] by blast
  have "q = path_join ?dir ?n \<or> q = path_join (path_join ?dir ''tmp'') ?n" if "files w q \<noteq> files (gw_world g) q" for q
    using custody.put_frame [of "(?dir, ?n)" b "gw_world g" _ w q] assms(6) w(1) that by auto
  then show ?thesis
    using assms w by (auto simp: send_response_def tee_reply_def custody_reply_def custody_path_def gw_bind_def gw_io_def gw_simps
        split: option.split)
qed

lemma sample_reply:
  "\<exists>g'. send_response sample_gateway_env sample_email (plain_reply True ''r1'') sample_gateway = (Done (), g') \<and> faults (gw_world g') = []"
proof -
  let ?b = "build_response (me_b64_encode (ge_mail sample_gateway_env)) (ge_encode_reply sample_gateway_env)
    (ge_stamp sample_gateway_env 0) (em_from sample_email) (ac_identity_email (ge_config sample_gateway_env))
    (reply_type (plain_reply True ''r1'')) ''r1'' (em_message_id sample_email) (plain_reply True ''r1'')"
  have n: "custody_name_ok ''r1.cbor''" by code_simp
  have "validate_email_addr ''w@x'' = Inr ()" "validate_email_addr (ac_identity_email sample_config) = Inr ()"
    by code_simp+
  then obtain b where b: "?b = Inr b"
    by (simp add: build_response_def sample_gateway_env_def sample_email_def)
  have u: "em_uncle_correlate sample_email = None" "em_from sample_email = ''w@x''" by (simp_all add: sample_email_def)
  have d: "\<not> ge_is_dev sample_gateway_env ''w@x''" by (simp add: sample_gateway_env_def starts_with_def)
  show ?thesis
    using reply_goes_out [OF sample_custody _ sample_row_found, of "plain_reply True ''r1''" sample_gateway b] b d n u
    by (auto simp: sample_gateway_def no_files_def plain_reply_def sample_row_def)
qed

lemma custody_exclusive_witness:
  "let g' = snd (send_response sample_gateway_env sample_email (plain_reply True ''r1'') sample_gateway) in
   gw_trace g' = [] \<and> files (gw_world g') ''tot/out/ab/r1.cbor'' \<noteq> None"
proof -
  have p: "custody_path sample_row ''ab'' ''r1'' = ''tot/out/ab/r1.cbor''" by code_simp
  obtain g' where g': "send_response sample_gateway_env sample_email (plain_reply True ''r1'') sample_gateway = (Done (), g')"
    using sample_reply by blast
  show ?thesis
    using custody_exclusive [OF sample_custody sample_row_found _ g'] p g'
    by (auto simp: sample_row_def plain_reply_def sample_gateway_def Let_def)
qed

section \<open>Query\<close>

lemma byte_values_query_bytes: "byte_values (map (\<lambda>c. CvInteger (int (byte_val c))) b) = Some b"
  by (induction b) simp_all

text \<open>The wallet key of a query is read back byte for byte, whichever way the client encoded it (a byte string, or an array of
  numbers) and wherever it stands in the map; and what the reply shows of a wallet is its balance, sequence number, public key and state id, in
  the order of their names, and nothing of the rest of what Lambda holds.\<close>

lemma query_reads_and_shows:
  assumes "CvText ''wallet_pk'' \<notin> fst ` set front"
  shows "query_wallet_pk (CvMap (front @ (CvText ''wallet_pk'', query_bytes pk) # rest)) = Some pk \<and>
    query_wallet_pk (CvMap (front @ (CvText ''wallet_pk'', CvBytes pk) # rest)) = Some pk \<and>
    wallet_query_projection s = CvMap [(CvText ''balance'', query_nat (sw_balance s)),
      (CvText ''public_key'', query_bytes (sw_public_key s)), (CvText ''state_id'', query_bytes (sw_state_id s)),
      (CvText ''wallet_seq'', query_nat (sw_wallet_seq s))]"
proof -
  have f: "find (\<lambda>e. fst e = CvText ''wallet_pk'') (front @ (CvText ''wallet_pk'', v) # rest) = Some (CvText ''wallet_pk'', v)" for v
    using assms by (induction front) auto
  have "wallet_query_projection s = CvMap [(CvText ''balance'', query_nat (sw_balance s)),
      (CvText ''public_key'', query_bytes (sw_public_key s)), (CvText ''state_id'', query_bytes (sw_state_id s)),
      (CvText ''wallet_seq'', query_nat (sw_wallet_seq s))]"
    by (simp add: wallet_query_projection_def query_data_map_def sort_key_def insort_key_def)
  then show ?thesis
    by (simp add: f query_bytes_def byte_values_query_bytes)
qed

lemma query_reads_and_shows_witness:
  "query_wallet_pk (CvMap [(CvText ''x'', CvOther []), (CvText ''wallet_pk'', query_bytes ''ab'')]) = Some ''ab''"
  using query_reads_and_shows [of "[(CvText ''x'', CvOther [])]" "''ab''" "[]"] by simp

end
