(* ===== verification/Mailbox.thy ===== *)
theory Mailbox
  imports MailCarrier TotIntake
begin

text \<open>
  The inbox as those who share it may see it: a map from names to mails.  The tunnel carrier and the pull loops put mails into
  it, the dispatcher reads it and takes out what it has handled; what they do to the directory refines what the map says.
\<close>

section \<open>Names\<close>

lemma sub_new_differ:
  assumes "plain_name n" "CHR ''/'' \<notin> set sub" "CHR ''/'' \<notin> set f" "f \<notin> {[], ''.''}" "sub \<notin> {[], ''.'', ''new''}"
  shows "path_join (path_join base sub) f \<noteq> new_path base n"
proof
  assume "path_join (path_join base sub) f = new_path base n"
  from arg_cong [OF this, of path_parts] show False
    using assms by (simp add: new_path_def plain_name_def path_parts_join)
qed

lemma unique_name_plain: "plain_name (unique_name secs nanos seq pid)"
proof -
  let ?n = "unique_name secs nanos seq pid"
  have d: "byte_val c < 0x80 \<and> c \<noteq> CHR ''/''" if "c \<in> set (dec k)" for c k
    using dec_digits [OF that] by (auto simp: is_digit_def byte_val_def)
  have "byte_val c < 0x80 \<and> c \<noteq> CHR ''/''" if "c \<in> set ?n" for c
    using that d by (auto simp: unique_name_def byte_val_def)
  moreover from this have "utf8_valid ?n" by (intro utf8_valid_ascii) blast
  moreover have "4 < length ?n" by (simp add: unique_name_def)
  ultimately show ?thesis by (auto simp: plain_name_def)
qed

section \<open>The abstract mailbox\<close>

type_synonym mailbox = "string \<Rightarrow> bytes option"

datatype inbox_op =
    TotPut name_parts bytes
  | PullPut nat nat string bytes
  | Take string

text \<open>A put that reports success has put the mail; one that reports an error may have.\<close>

inductive mailbox_step :: "inbox_op \<times> bool \<Rightarrow> mailbox \<Rightarrow> mailbox \<Rightarrow> bool" where
  tot: "mailbox_step (TotPut (secs, nanos, seq, pid) b, ok) m (m(unique_name secs nanos seq pid \<mapsto> b))"
| pulled: "mailbox_step (PullPut ts pid u b, ok) m (m(maildir_filename ts pid u \<mapsto> b))"
| taken: "mailbox_step (Take i, True) m (m(i := None))"
| undone: "mailbox_step (x, False) m m"

inductive mailbox_run :: "(inbox_op \<times> bool) list \<Rightarrow> mailbox \<Rightarrow> mailbox \<Rightarrow> bool" where
  idle: "mailbox_run [] m m"
| acts: "mailbox_step e m m' \<Longrightarrow> mailbox_run es m' m'' \<Longrightarrow> mailbox_run (e # es) m m''"

section \<open>The directory\<close>

fun inbox_do :: "string \<Rightarrow> inbox_op \<Rightarrow> world \<Rightarrow> bool \<times> world" where
  "inbox_do base (TotPut parts b) w =
     (case tot_deliver (path_join base ''tmp'', path_join base ''new'') parts b w of (r, w') \<Rightarrow> (is_ok r, w'))"
| "inbox_do base (PullPut ts pid u b) w =
     (case maildir_write_message base ts pid u b w of (r, w') \<Rightarrow> (is_ok r, w'))"
| "inbox_do base (Take i) w = (case maildir_mark base i w of (r, w') \<Rightarrow> (is_ok r, w'))"

fun inbox_run :: "string \<Rightarrow> inbox_op list \<Rightarrow> world \<Rightarrow> (inbox_op \<times> bool) list \<times> world" where
  "inbox_run base [] w = ([], w)"
| "inbox_run base (x # xs) w =
     (case inbox_do base x w of (ok, w1) \<Rightarrow> case inbox_run base xs w1 of (es, w2) \<Rightarrow> ((x, ok) # es, w2))"

text \<open>The names antie makes and takes are ones a directory can hold.\<close>

fun named :: "inbox_op \<Rightarrow> bool" where
  "named (TotPut _ _) = True"
| "named (PullPut ts pid u b) = plain_name (maildir_filename ts pid u)"
| "named (Take i) = plain_name i"

context atomic_publish
begin

lemma put_outcome:
  assumes "admissible n" "put n b w = (r, w')"
  shows "files w' (dst n) = files w (dst n) \<and> \<not> is_ok r \<or> files w' (dst n) = Some b"
proof -
  have "same_but (tmp n) w (snap w') \<or> FileSys.complete durable (tmp n) (dst n) b w (snap w')"
    using put_publishes [OF assms(1)] assms(2) unfolding publishes_def Let_def by blast
  then have "files w' (dst n) = files w (dst n) \<or> files w' (dst n) = Some b"
    using tmp_dst [OF assms(1)] by (auto simp: same_but_def FileSys.complete_def snap_def)
  moreover have "is_ok r \<Longrightarrow> files w' (dst n) = Some b" using put_done [OF assms(1)] assms(2) by (auto simp: is_ok_iff)
  ultimately show ?thesis by blast
qed

end

text \<open>A put into the inbox, seen as a put into the map.\<close>

lemma put_held:
  assumes "plain_name n" "p = new_path base n" "t = path_join (path_join base ''tmp'') n"
    and "files w' p = files w p \<and> \<not> ok \<or> files w' p = Some b"
    and "\<And>q. q \<noteq> t \<Longrightarrow> q \<noteq> p \<Longrightarrow> files w' q = files w q"
  shows "maildir_held base w' = (maildir_held base w)(n \<mapsto> b) \<or> \<not> ok \<and> maildir_held base w' = maildir_held base w"
proof -
  have t: "plain_name k \<Longrightarrow> t \<noteq> new_path base k" for k
    using sub_new_differ [of k "''tmp''" n base] assms(1,3) by (simp add: plain_name_def)
  have "maildir_held base w' k = maildir_held base w k" if "k \<noteq> n" for k
    using assms(5) [of "new_path base k"] t [of k] new_path_inject [of k n base] that assms(1,2)
    by (auto simp: maildir_held_def)
  moreover have "maildir_held base w' n = Some b \<or> \<not> ok \<and> maildir_held base w' n = maildir_held base w n"
    using assms(1,2,4) by (auto simp: maildir_held_def)
  ultimately show ?thesis unfolding fun_eq_iff by (metis fun_upd_apply)
qed

lemma rename_gone:
  "p \<noteq> q \<Longrightarrow> rename_file p q w = (r, w') \<Longrightarrow> files w' p = (if is_ok r then None else files w p)"
  by (auto simp: rename_file_def prim_def observed_def Let_def split: option.splits list.splits)

lemma mark_held:
  assumes "plain_name i" "maildir_mark base i w = (r, w')"
  shows "maildir_held base w' = (if is_ok r then (maildir_held base w)(i := None) else maildir_held base w)"
proof -
  have other: "maildir_held base w' j = maildir_held base w j" if "j \<noteq> i" for j
    using maildir_mark_other [OF assms(1) that, of base w] assms(2) by simp
  let ?d = "path_join (path_join base ''cur'') (i @ '':2,S'')"
  have d: "?d \<noteq> new_path base i" by (rule new_cur_differ [OF assms(1,1)])
  obtain x v where x: "rename_file (new_path base i) ?d w = (x, v)" by fastforce
  have "files w' (new_path base i) = (if is_ok r then None else files w (new_path base i))"
  proof (cases "files w (new_path base i)")
    case (Some b)
    then have "is_ok r = is_ok x \<and> w' = v"
      using assms(2) x new_path_file_name [OF assms(1), of base]
      by (cases x) (auto simp: maildir_mark_def Let_def new_path_def [symmetric] via_io_def maildir_mark_processed_def io_bind_def io_return_def)
    then show ?thesis using rename_gone [OF d [symmetric] x] by simp
  qed (use assms(2) in \<open>auto simp: maildir_mark_def new_path_def\<close>)
  then have "maildir_held base w' i = (if is_ok r then None else maildir_held base w i)" using assms(1) by (simp add: maildir_held_def)
  then have "maildir_held base w' j = (if is_ok r then ((maildir_held base w)(i := None)) j else maildir_held base w j)" for j
    using other by (cases "j = i") auto
  then show ?thesis by (cases "is_ok r") (auto simp: fun_eq_iff)
qed

lemma step_refines:
  assumes "named x" "inbox_do base x w = (ok, w')"
  shows "mailbox_step (x, ok) (maildir_held base w) (maildir_held base w')"
proof (cases x)
  case (TotPut parts b)
  obtain secs nanos seq pid where parts: "parts = (secs, nanos, seq, pid)" by (metis prod_cases4)
  let ?n = "unique_name secs nanos seq pid"
  obtain r where r: "inbox_deliver (path_join base ''tmp'', path_join base ''new'') ?n b w = (r, w')" "ok = is_ok r"
    using assms(2) TotPut parts by (auto simp: tot_deliver_def split: prod.splits sum.splits)
  have "maildir_held base w' = (maildir_held base w)(?n \<mapsto> b) \<or> \<not> ok \<and> maildir_held base w' = maildir_held base w"
    using inbox.put_outcome [of "(base, secs, nanos, seq, pid)" b w r w'] inbox.put_frame [of "(base, secs, nanos, seq, pid)" b w r w'] r
    by (intro put_held [OF unique_name_plain refl refl]) (auto simp: new_path_def)
  then show ?thesis unfolding TotPut parts by (auto intro: mailbox_step.intros simp: mailbox_step.undone)
next
  case (PullPut ts pid u b)
  let ?n = "maildir_filename ts pid u"
  obtain r where r: "maildir_write_message base ts pid u b w = (r, w')" "ok = is_ok r"
    using assms(2) PullPut by (auto split: prod.splits)
  have "maildir_held base w' = (maildir_held base w)(?n \<mapsto> b) \<or> \<not> ok \<and> maildir_held base w' = maildir_held base w"
    using maildir.put_outcome [of "(base, ts, pid, u)" b w r w'] maildir.put_frame [of "(base, ts, pid, u)" b w r w'] r assms(1) PullPut
    by (intro put_held [OF _ refl refl]) (auto simp: new_path_def)
  then show ?thesis unfolding PullPut by (auto intro: mailbox_step.intros)
next
  case (Take i)
  obtain r where r: "maildir_mark base i w = (r, w')" "ok = is_ok r" using assms(2) Take by (auto split: prod.splits)
  show ?thesis
    using mark_held [OF _ r(1)] assms(1) Take r(2) by (cases ok) (auto intro: mailbox_step.intros)
qed

lemma run_refines:
  "\<forall>x \<in> set xs. named x \<Longrightarrow> inbox_run base xs w = (es, w') \<Longrightarrow> mailbox_run es (maildir_held base w) (maildir_held base w')"
proof (induction xs arbitrary: w es)
  case (Cons x xs)
  obtain ok w1 where x: "inbox_do base x w = (ok, w1)" by fastforce
  obtain fs where fs: "inbox_run base xs w1 = (fs, w')" "es = (x, ok) # fs"
    using Cons.prems(2) x by (auto split: prod.splits)
  show ?case
    using step_refines [OF _ x] Cons.IH [OF _ fs(1)] Cons.prems(1) unfolding fs(2) by (auto intro: mailbox_run.acts)
qed (simp add: mailbox_run.idle)

section \<open>Reading it\<close>

lemma read_is_map:
  assumes "maildir_check_new base (plain_names names) w = (Inr ms, v)" "dom (maildir_held base w) \<subseteq> set names"
  shows "map_of (map (\<lambda>m. (inc_id m, inc_raw m)) ms) = maildir_held base w" "distinct (map inc_id ms)"
proof -
  note batch = check_new_spec [OF assms(1)]
  show d: "distinct (map inc_id ms)" unfolding batch(1) by (simp add: plain_names_def)
  have ids: "set (map inc_id ms) = dom (maildir_held base w)"
    unfolding batch(1) using assms(2) by (auto simp: plain_names_def maildir_held_def split: if_splits)
  show "map_of (map (\<lambda>m. (inc_id m, inc_raw m)) ms) = maildir_held base w"
  proof
    fix n
    show "map_of (map (\<lambda>m. (inc_id m, inc_raw m)) ms) n = maildir_held base w n"
    proof (cases "n \<in> set (map inc_id ms)")
      case True
      then obtain m where m: "m \<in> set ms" "inc_id m = n" by auto
      have "maildir_held base w n = Some (inc_raw m)"
        using batch(2) [OF m(1)] m(2) True unfolding ids by (auto simp: maildir_held_def split: if_splits)
      moreover have "map_of (map (\<lambda>m. (inc_id m, inc_raw m)) ms) n = Some (inc_raw m)"
        using m d by (intro map_of_is_SomeI) (auto simp: comp_def)
      ultimately show ?thesis by simp
    next
      case False
      then have "maildir_held base w n = None" unfolding ids by auto
      moreover have "map_of (map (\<lambda>m. (inc_id m, inc_raw m)) ms) n = None"
        using False by (force simp: map_of_eq_None_iff)
      ultimately show ?thesis by simp
    qed
  qed
qed

section \<open>The refinement\<close>

text \<open>C12. The inbox refines a map from names to mails.  Whatever tot, the pull loops and the dispatcher do to the directory, in any order
  and with any faults of the disk, is a run of the map with the same outcomes: a put that succeeded has put its mail, whole, under
  its name; a put that failed has put it or changed nothing; taking a mail out removes it and no other, or fails and
  changes nothing.  And a pass that can read the directory gets exactly the map: every mail in it, once, under its name.\<close>

theorem inbox_refines_map:
  assumes "\<forall>x \<in> set xs. named x" "inbox_run base xs w = (es, w')"
    and "maildir_check_new base (plain_names names) w' = (Inr ms, v)" "dom (maildir_held base w') \<subseteq> set names"
  shows "map fst es = xs \<and> mailbox_run es (maildir_held base w) (map_of (map (\<lambda>m. (inc_id m, inc_raw m)) ms)) \<and>
    distinct (map inc_id ms)"
proof -
  have "map fst es = xs" using assms(2) by (induction xs arbitrary: w es) (auto split: prod.splits)
  then show ?thesis using run_refines [OF assms(1,2)] read_is_map [OF assms(3,4)] by simp
qed

text \<open>Nothing is in the map but what was put there.\<close>

fun put_names :: "inbox_op \<Rightarrow> string set" where
  "put_names (TotPut (secs, nanos, seq, pid) b) = {unique_name secs nanos seq pid}"
| "put_names (PullPut ts pid u b) = {maildir_filename ts pid u}"
| "put_names (Take i) = {}"

lemma run_dom: "mailbox_run es m m' \<Longrightarrow> dom m' \<subseteq> dom m \<union> (\<Union>e \<in> set es. put_names (fst e))"
proof (induction rule: mailbox_run.induct)
  case (acts e m m' es m'')
  from acts(1) have first: "dom m' \<subseteq> dom m \<union> put_names (fst e)" by cases auto
  note acts.IH
  also have "dom m' \<union> (\<Union>e \<in> set es. put_names (fst e)) \<subseteq> (dom m \<union> put_names (fst e)) \<union> (\<Union>e \<in> set es. put_names (fst e))"
    by (rule Un_mono [OF first order_refl])
  finally show ?case by (simp add: Un_assoc)
qed simp

text \<open>Two mails come in and the first is taken out.\<close>

lemma inbox_refines_map_witness:
  "\<exists>es (ms :: incoming_message list) m. map fst es = [TotPut (5, 2, 3, 4) ''hi'', PullPut 6 7 ''u'' ''yo'', Take ''5.2.M3P4.tot''] \<and>
     mailbox_run es (\<lambda>n. None) m \<and> m = map_of (map (\<lambda>m. (inc_id m, inc_raw m)) ms) \<and> map inc_id ms = [''6.7.localhost.u'']"
proof -
  let ?xs = "[TotPut (5, 2, 3, 4) ''hi'', PullPut 6 7 ''u'' ''yo'', Take ''5.2.M3P4.tot'']"
  let ?names = "[''5.2.M3P4.tot'', ''6.7.localhost.u'']"
  obtain es w' where run: "inbox_run ''in'' ?xs no_files = (es, w')" by (metis surj_pair)
  then have w': "w' = snd (inbox_run ''in'' ?xs no_files)" by simp
  have "case fst (maildir_check_new ''in'' (plain_names ?names) w') of Inl _ \<Rightarrow> False | Inr ms \<Rightarrow> map inc_id ms = [''6.7.localhost.u'']"
    unfolding w' by code_simp
  then obtain ms v where ms: "maildir_check_new ''in'' (plain_names ?names) w' = (Inr ms, v)" "map inc_id ms = [''6.7.localhost.u'']"
    by (cases "maildir_check_new ''in'' (plain_names ?names) w'") (auto split: sum.splits)
  have named: "\<forall>x \<in> set ?xs. named x" by code_simp
  have names: "unique_name 5 2 3 4 = ''5.2.M3P4.tot''" "maildir_filename 6 7 ''u'' = ''6.7.localhost.u''" by code_simp+
  have empty: "maildir_held ''in'' no_files = (\<lambda>n. None)" by (simp add: maildir_held_def no_files_def fun_eq_iff)
  have es: "map fst es = ?xs" using run by (auto split: prod.splits)
  have "dom (maildir_held ''in'' w') \<subseteq> set ?names"
    using run_dom [OF run_refines [OF named run]] es names unfolding empty
    by (elim subset_trans) (auto simp: map_eq_Cons_conv)
  from inbox_refines_map [OF named run ms(1) this] show ?thesis
    using ms(2) unfolding empty by (intro exI [of _ es] exI [of _ ms] exI [of _ "map_of (map (\<lambda>m. (inc_id m, inc_raw m)) ms)"] conjI) simp_all
qed

end
