(* ===== verification/CustodyLink.thy ===== *)
theory CustodyLink
  imports Promises TotPromises Mailbox
begin

text \<open>
  The two programs together: what a client hands to the tunnel carrier is what antie reads from its inbox, and the reply
  antie deposits in custody is what the session whose stamp the request carried sends to its client.  The file system
  is all they share.
\<close>

section \<open>Sending what a directory holds\<close>

lemma read_cases:
  "maildir_read_message f w = (Inr b, w') \<Longrightarrow> files w f = Some b \<and> files w' = files w \<and> faults w' = tl (faults w)"
  by (auto simp: maildir_read_message_def split: option.splits list.splits)

lemma remove_cases: "files (snd (remove_file p w)) q = (if q = p then files (snd (remove_file p w)) p else files w q) \<and>
    faults (snd (remove_file p w)) = tl (faults w) \<and> (faults w = [] \<longrightarrow> files (snd (remove_file p w)) p = None)"
  by (auto simp: remove_file_def prim_def observed_def Let_def split: option.splits list.splits)

lemma send_cases: "sink_send b k = (Inr (), k') \<Longrightarrow> sk_sent k' = sk_sent k @ [b] \<and> sk_fails k' = sk_fails k"
  by (auto simp: sink_send_def split: option.splits)

lemma send_files_done:
  "send_files dir names (k, w) = (Inr (), k', w') \<Longrightarrow> distinct names \<Longrightarrow> \<forall>n \<in> set names. CHR ''/'' \<notin> set n \<Longrightarrow>
     (\<exists>bs. map (\<lambda>n. files w (path_join dir n)) names = map Some bs \<and> sk_sent k' = sk_sent k @ bs) \<and>
     (\<forall>q. q \<notin> path_join dir ` set names \<longrightarrow> files w' q = files w q) \<and>
     (faults w = [] \<longrightarrow> faults w' = [] \<and> (\<forall>n \<in> set names. files w' (path_join dir n) = None))"
proof (induction names arbitrary: k w)
  case (Cons n names)
  let ?f = "path_join dir n"
  obtain b w1 k1 where r: "maildir_read_message ?f w = (Inr b, w1)" and s: "sink_send b k = (Inr (), k1)"
    and rest: "send_files dir names (k1, snd (remove_file ?f w1)) = (Inr (), k', w')"
    using Cons.prems(1) by (auto simp: Let_def split: prod.splits sum.splits)
  let ?w2 = "snd (remove_file ?f w1)"
  have fresh: "?f \<notin> path_join dir ` set names" using Cons.prems(2,3) path_join_inject by auto
  have keep: "m \<in> set names \<Longrightarrow> files ?w2 (path_join dir m) = files w (path_join dir m)" for m
  proof -
    assume "m \<in> set names"
    then have "path_join dir m \<noteq> ?f" using fresh by (metis imageI)
    then show ?thesis using remove_cases [of ?f w1 "path_join dir m"] read_cases [OF r] by metis
  qed
  have ih: "(\<exists>bs. map (\<lambda>n. files ?w2 (path_join dir n)) names = map Some bs \<and> sk_sent k' = sk_sent k1 @ bs) \<and>
     (\<forall>q. q \<notin> path_join dir ` set names \<longrightarrow> files w' q = files ?w2 q) \<and>
     (faults ?w2 = [] \<longrightarrow> faults w' = [] \<and> (\<forall>n \<in> set names. files w' (path_join dir n) = None))"
    using Cons.IH [OF rest] Cons.prems(2,3) by simp
  then obtain bs where bs: "map (\<lambda>n. files ?w2 (path_join dir n)) names = map Some bs" "sk_sent k' = sk_sent k1 @ bs" by blast
  have "map (\<lambda>n. files w (path_join dir n)) (n # names) = map Some (b # bs)"
    using bs(1) keep read_cases [OF r] by (simp add: map_eq_conv [THEN iffD2, of names "\<lambda>n. files ?w2 (path_join dir n)"] cong: map_cong)
  moreover have "sk_sent k' = sk_sent k @ b # bs" using bs(2) send_cases [OF s] by simp
  moreover have "files w' q = files w q" if "q \<notin> path_join dir ` set (n # names)" for q
    using that ih remove_cases [of ?f w1 q] read_cases [OF r] by auto
  moreover have "faults w' = [] \<and> (\<forall>m \<in> set (n # names). files w' (path_join dir m) = None)" if "faults w = []"
    using that ih fresh remove_cases [of ?f w1 ?f] read_cases [OF r] by auto
  ultimately show ?case by blast
qed auto

lemma cbor_extension: "has_cbor_extension (i @ ''.cbor'') \<longleftrightarrow> i \<noteq> []"
proof -
  have "rsplit_once CHR ''.'' (i @ ''.cbor'') = Some (i, ''cbor'')"
    using rsplit_once_append [of "CHR ''.''" "''cbor''" i] by simp
  then show ?thesis by (simp add: has_cbor_extension_def)
qed

text \<open>A reply that is in the directory and in its listing is sent.\<close>

lemma listed_is_sent:
  assumes "pump_replies dir (Inr names) (k, w) = (Inr (), k', w')" "faults w = []"
    and "distinct names" "\<forall>n \<in> set names. CHR ''/'' \<notin> set n" "i @ ''.cbor'' \<in> set names" "i \<noteq> []"
    and "files w (path_join dir (i @ ''.cbor'')) = Some b"
  shows "\<exists>sent. sk_sent k' = sk_sent k @ sent \<and> b \<in> set sent \<and> files w' (path_join dir (i @ ''.cbor'')) = None"
proof -
  let ?ns = "sort (filter has_cbor_extension names)"
  have run: "send_files dir ?ns (k, w) = (Inr (), k', w')" using assms(1) by (simp add: pump_replies_def)
  have ns: "distinct ?ns" "\<forall>n \<in> set ?ns. CHR ''/'' \<notin> set n" "i @ ''.cbor'' \<in> set ?ns" using assms(3-6) by (auto simp: cbor_extension)
  obtain sent where sent: "map (\<lambda>n. files w (path_join dir n)) ?ns = map Some sent" "sk_sent k' = sk_sent k @ sent"
    and gone: "\<forall>n \<in> set ?ns. files w' (path_join dir n) = None"
    using send_files_done [OF run ns(1,2)] assms(2) by blast
  have "files w (path_join dir (i @ ''.cbor'')) \<in> set (map (\<lambda>n. files w (path_join dir n)) ?ns)" using ns(3) by simp
  then have "b \<in> set sent" unfolding sent(1) assms(7) by auto
  then show ?thesis using sent(2) gone ns(3) by blast
qed

section \<open>From the handler to the client\<close>

lemma deposit_is_sent:
  assumes "em_custody email = Some (hdr, i)"
    and "find (\<lambda>r. eq_ignore_case (cr_header r) hdr) (ob_custody (ac_outbound (ge_config env))) = Some row"
    and "cr_suppress_email row"
    and "send_response env email payload g = (Done (), g')"
    and "faults (gw_world g') = []"
    and "distinct names" "\<forall>n \<in> set names. CHR ''/'' \<notin> set n" "rp_request_id payload @ ''.cbor'' \<in> set names"
    and "pump_replies (path_join (cr_outbox row) i) (Inr names) (k, gw_world g') = (Inr (), k', w')"
  shows "\<exists>b sent. build_response (me_b64_encode (ge_mail env)) (ge_encode_reply env) (ge_stamp env (gw_tick g)) (em_from email)
        (ac_identity_email (ge_config env)) (reply_type payload) (rp_request_id payload) (em_message_id email) payload = Inr b \<and>
      sk_sent k' = sk_sent k @ sent \<and>
      map Some sent = map (\<lambda>n. files (gw_world g') (path_join (path_join (cr_outbox row) i) n)) (sort (filter has_cbor_extension names)) \<and>
      (if rp_request_id payload = [] then files w' (custody_path row i []) = Some b
       else b \<in> set sent \<and> files w' (custody_path row i (rp_request_id payload)) = None) \<and>
      (\<forall>q. q \<notin> path_join (path_join (cr_outbox row) i) ` set names \<longrightarrow> files w' q = files (gw_world g') q)"
proof -
  let ?dir = "path_join (cr_outbox row) i" and ?name = "rp_request_id payload @ ''.cbor''"
  let ?ns = "sort (filter has_cbor_extension names)"
  obtain b where b: "build_response (me_b64_encode (ge_mail env)) (ge_encode_reply env) (ge_stamp env (gw_tick g)) (em_from email)
      (ac_identity_email (ge_config env)) (reply_type payload) (rp_request_id payload) (em_message_id email) payload = Inr b"
    and f: "files (gw_world g') (path_join ?dir ?name) = Some b"
    using conjunct2 [OF reply_in_custody [OF assms(1-4)]] unfolding custody_path_def by blast
  have run: "send_files ?dir ?ns (k, gw_world g') = (Inr (), k', w')" using assms(9) by (simp add: pump_replies_def)
  have ns: "distinct ?ns" "\<forall>n \<in> set ?ns. CHR ''/'' \<notin> set n" using assms(6,7) by auto
  obtain sent where sent: "map (\<lambda>n. files (gw_world g') (path_join ?dir n)) ?ns = map Some sent" "sk_sent k' = sk_sent k @ sent"
    and frame: "\<forall>q. q \<notin> path_join ?dir ` set ?ns \<longrightarrow> files w' q = files (gw_world g') q"
    and gone: "\<forall>n \<in> set ?ns. files w' (path_join ?dir n) = None"
    using send_files_done [OF run ns] assms(5) by blast
  have "if rp_request_id payload = [] then files w' (custody_path row i []) = Some b
      else b \<in> set sent \<and> files w' (custody_path row i (rp_request_id payload)) = None"
  proof (cases "rp_request_id payload = []")
    case True
    then have "?name \<notin> set ?ns" using cbor_extension [of "[]"] by simp
    then have "path_join ?dir ?name \<notin> path_join ?dir ` set ?ns"
      using path_join_inject assms(7,8) by auto
    then show ?thesis using True frame f by (simp add: custody_path_def)
  next
    case False
    then have "?name \<in> set ?ns" using assms(8) by (simp add: cbor_extension)
    moreover from this have "files (gw_world g') (path_join ?dir ?name) \<in> set (map (\<lambda>n. files (gw_world g') (path_join ?dir n)) ?ns)"
      by simp
    then have "b \<in> set sent" unfolding sent(1) f by auto
    ultimately show ?thesis using False gone by (simp add: custody_path_def)
  qed
  moreover have "\<forall>q. q \<notin> path_join ?dir ` set names \<longrightarrow> files w' q = files (gw_world g') q" using frame by auto
  ultimately show ?thesis
    by (intro exI [of _ b] exI [of _ sent] conjI b sent(2) sent(1) [symmetric]) assumption+
qed

text \<open>C5. A reply in custody reaches the client of its session, once and byte for byte: when antie has answered a request whose stamp
  names a session of a suppressing carrier, and the session's next look at its directory (whose listing shows the deposit) runs without
  an error, then the bytes antie would have mailed are among the messages this look sends; every message it sends is the content of
  one reply file of the session, in the order of their names, and no other; and the files sent are gone, so
  that the next look does not send them again.  A reply to a request without an id is never sent: its file, named
  by the extension alone, is not one the session looks for.\<close>

theorem session_reply_roundtrip:
  assumes "em_custody email = Some (hdr, i)"
    and "find (\<lambda>r. eq_ignore_case (cr_header r) hdr) (ob_custody (ac_outbound (ge_config env))) = Some row"
    and "cr_suppress_email row"
    and "send_response env email payload g = (Done (), g')"
    and "faults (gw_world g') = []"
    and "distinct names" "\<forall>n \<in> set names. CHR ''/'' \<notin> set n" "rp_request_id payload @ ''.cbor'' \<in> set names"
    and "pump_replies (path_join (cr_outbox row) i) (Inr names) (k, gw_world g') = (Inr (), k', w')"
  shows "\<exists>b sent. build_response (me_b64_encode (ge_mail env)) (ge_encode_reply env) (ge_stamp env (gw_tick g)) (em_from email)
        (ac_identity_email (ge_config env)) (reply_type payload) (rp_request_id payload) (em_message_id email) payload = Inr b \<and>
      sk_sent k' = sk_sent k @ sent \<and>
      map Some sent = map (\<lambda>n. files (gw_world g') (path_join (path_join (cr_outbox row) i) n)) (sort (filter has_cbor_extension names)) \<and>
      (if rp_request_id payload = [] then files w' (custody_path row i []) = Some b
       else b \<in> set sent \<and> files w' (custody_path row i (rp_request_id payload)) = None) \<and>
      (\<forall>q. q \<notin> path_join (path_join (cr_outbox row) i) ` set names \<longrightarrow> files w' q = files (gw_world g') q)"
  by (rule deposit_is_sent [OF assms])

lemma session_reply_roundtrip_witness:
  "\<exists>g' k' w' b. send_response sample_gateway_env sample_email (plain_reply True ''r1'') sample_gateway = (Done (), g') \<and>
     pump_replies ''tot/out/ab'' (Inr [''r1.cbor'', ''tmp'']) (\<lparr>sk_sent = [], sk_fails = \<lambda>_. None\<rparr>, gw_world g') = (Inr (), k', w') \<and>
     sk_sent k' = [b] \<and> files w' ''tot/out/ab/r1.cbor'' = None"
proof -
  let ?k = "\<lparr>sk_sent = [], sk_fails = \<lambda>_. None\<rparr>" and ?names = "[''r1.cbor'', ''tmp'']"
  have p: "path_join (cr_outbox sample_row) ''ab'' = ''tot/out/ab''" "path_join ''tot/out/ab'' ''r1.cbor'' = ''tot/out/ab/r1.cbor''"
    "sort (filter has_cbor_extension ?names) = [''r1.cbor'']" "custody_path sample_row ''ab'' ''r1'' = ''tot/out/ab/r1.cbor''"
    "cr_suppress_email sample_row" "rp_request_id (plain_reply True ''r1'') = ''r1''"
    by code_simp+
  obtain g' where g': "send_response sample_gateway_env sample_email (plain_reply True ''r1'') sample_gateway = (Done (), g')"
      "faults (gw_world g') = []"
    using sample_reply by blast
  obtain b where f: "files (gw_world g') ''tot/out/ab/r1.cbor'' = Some b"
    using conjunct2 [OF reply_in_custody [OF sample_custody sample_row_found p(5) g'(1)]] unfolding p by blast
  obtain k' w' where run: "pump_replies ''tot/out/ab'' (Inr ?names) (?k, gw_world g') = (Inr (), k', w')"
    unfolding pump_replies_def sum.case p(3) using f g'(2) by (simp add: p(2) maildir_read_message_def sink_send_def Let_def)
  have names: "distinct ?names" "\<forall>n \<in> set ?names. CHR ''/'' \<notin> set n" "rp_request_id (plain_reply True ''r1'') @ ''.cbor'' \<in> set ?names"
    by (simp_all add: p(6))
  show ?thesis
    using session_reply_roundtrip [OF sample_custody sample_row_found p(5) g' names, unfolded p(1), OF run] g'(1) run f
    unfolding p(2-6) by auto
qed

section \<open>The session id on its way\<close>

text \<open>The name of the field a header line holds, as RFC 5322 reads it: what precedes the colon, with the blanks its obsolete syntax
  allows there, in any case.\<close>

definition blank :: "char \<Rightarrow> bool" where
  "blank c = (c = CHR '' '' \<or> c = CHR 0x09)"

definition names_field :: "string \<Rightarrow> string \<Rightarrow> bool" where
  "names_field n l = (case split_once CHR '':'' l of
     Some (a, v) \<Rightarrow> eq_ignore_case (rev (dropWhile blank (rev a))) n | None \<Rightarrow> False)"

text \<open>A header block whose first line is not continued by the others, none of which holds the field \<open>n\<close>, and which an empty line ends.\<close>

definition plain_rest :: "string \<Rightarrow> string list \<Rightarrow> bytes \<Rightarrow> bool" where
  "plain_rest n ls body = ((case ls of (c # cs) # ks \<Rightarrow> \<not> blank c | _ \<Rightarrow> True) \<and> list_all (\<lambda>l. \<not> names_field n l) ls \<and>
     (body = [] \<or> starts_with [CHR 0x0A] body \<or> starts_with [CHR 0x0D, CHR 0x0A] body))"

text \<open>What is relied on of the MIME parser, for the field \<open>n\<close>: it reads the first field of a mail as RFC 5322 has it.  When the first line
  of the mail is that field, the next line does not continue it and no other line of the header block holds the field again,
  then its raw value is what follows the colon, with or without the white space around it.\<close>

definition reads_field :: "string \<Rightarrow> (bytes \<Rightarrow> mail_view option) \<Rightarrow> bool" where
  "reads_field n mime = (\<forall>m view v ls. mime m = Some view \<longrightarrow> header_lines m = (n @ CHR '':'' # v) # ls \<longrightarrow>
     plain_rest n ls (body_part m) \<longrightarrow> (\<exists>r. mv_header_raw view n = Some r \<and> trim r = trim v))"

text \<open>A client's message that leaves the stamp alone: the first header line it keeps is no continuation, none of them holds the
  stamp's field in the obsolete syntax that is not dropped, and an empty line ends its header block.\<close>

definition own_first_line :: "bytes \<Rightarrow> bool" where
  "own_first_line raw = (let t = utf8_lossy raw in
     plain_rest ''X-TOT-Session'' (filter (\<lambda>l. \<not> is_tot_header l) (header_lines t)) (body_part t))"

lemma trim_stamp:
  assumes "h \<noteq> []" "graphic (hd h)" "graphic (last h)"
  shows "trim (CHR '' '' # h @ [CHR 0x0D, CHR 0x0A]) = h"
proof -
  let ?t = "h @ [CHR 0x0D, CHR 0x0A]"
  have "strip_one ws_encodings (CHR '' '' # ?t) = Some ?t"
    by (simp add: strip_one_def ws_encodings_def byte_str_def char_of_def bit_0)
  then have "trim_start (CHR '' '' # ?t) = trim_start ?t"
    by (simp add: trim_start_def strip_front.simps [of _ "CHR '' '' # _"])
  then show ?thesis using trim_line [OF assms] by (simp add: trim_def)
qed

lemma hex_graphic: "c \<in> set (hex_encode b) \<Longrightarrow> graphic c"
  using hex_encode_digits [of c b] by (auto simp: is_hex_digit_def is_digit_def graphic_def)

lemma hex_stays_lower: "ascii_lower (hex_encode b) = hex_encode b"
proof -
  have "n < 16 \<Longrightarrow> lower_char (hex_nibble n) = hex_nibble n" for n
    by (auto simp: lower_char_def is_upper_def hex_nibble_def)
  then have "map lower_char (hex_byte c) = hex_byte c" for c by (simp add: hex_byte_def)
  then show ?thesis by (simp add: ascii_lower_def hex_encode_def map_concat comp_def)
qed

text \<open>The id TOT stamps is the id antie keys the reply by: for a session of 32 random bytes, every message of its client that leaves
  the stamp alone, that TOT stamps and antie parses is in custody under the session's own hexadecimal name, whatever other
  headers the client put in.\<close>

lemma stamp_recognised:
  assumes "reads_field ''X-TOT-Session'' (me_mime env)" "length b = 32" "stamp_session raw (hex_encode b) = Inr out"
    and "own_first_line raw"
    and "parse_email_outcome env out decryptor = Inr (POk email)"
  shows "em_custody email = Some (''X-TOT-Session'', hex_encode b)"
proof -
  let ?t = "utf8_lossy raw" and ?v = "CHR '' '' # hex_encode b @ [CHR 0x0D, CHR 0x0A]"
  let ?kept = "filter (\<lambda>l. \<not> is_tot_header l) (header_lines ?t)"
  have h: "header_lines out = (''X-TOT-Session'' @ CHR '':'' # ?v) # ?kept" "body_part out = body_part ?t"
    using stamp_lines [of raw b] assms(3) by (auto simp: stamp_line_def Let_def)
  obtain view where v: "me_mime env out = Some view"
    using assms(5) by (auto simp: parse_email_outcome_def split: option.splits)
  have l: "length (hex_encode b) = 64" using assms(2) by simp
  then have hex: "hex_encode b \<noteq> []" by (metis list.size(3) zero_neq_numeral)
  have "plain_rest ''X-TOT-Session'' ?kept (body_part out)"
    using assms(4) unfolding h(2) by (simp add: own_first_line_def Let_def)
  then obtain r where r: "mv_header_raw view ''X-TOT-Session'' = Some r" "trim r = trim ?v"
    using assms(1) v h(1) unfolding reads_field_def by blast
  moreover have "trim ?v = hex_encode b"
    using trim_stamp [OF hex hex_graphic hex_graphic, OF hd_in_set last_in_set] hex by blast
  moreover have "list_all is_hex_digit (hex_encode b)" by (auto simp: list_all_iff hex_encode_digits)
  ultimately show ?thesis
    using parsed_custody [OF assms(5) v] l by (simp add: custody_headers_def custody_id_def hex_stays_lower)
qed

text \<open>A parser that reads the stamp from the lines.\<close>

definition line_reader :: "bytes \<Rightarrow> mail_view option" where
  "line_reader m = Some (sample_view\<lparr>mv_subject := Some ''AXIOM/query/r7'', mv_header_raw := \<lambda>h.
     if h = ''X-TOT-Session'' then map_option (drop 14) (find (names_field h) (header_lines m)) else None\<rparr>)"

lemma line_reader_reads: "reads_field ''X-TOT-Session'' line_reader"
proof -
  have "\<exists>r. mv_header_raw view ''X-TOT-Session'' = Some r \<and> trim r = trim v"
    if "line_reader m = Some view" "header_lines m = (''X-TOT-Session'' @ CHR '':'' # v) # ls" for m view v ls
  proof -
    let ?l = "''X-TOT-Session'' @ CHR '':'' # v"
    have n: "names_field ''X-TOT-Session'' ?l"
      by (simp add: names_field_def blank_def eq_ignore_case_def)
    have "find (names_field ''X-TOT-Session'') (header_lines m) = Some ?l" unfolding that(2) find.simps if_P [OF n] ..
    moreover have "drop 14 ?l = v" by simp
    ultimately have "mv_header_raw view ''X-TOT-Session'' = Some v"
      using that(1) unfolding line_reader_def by (auto simp del: append.simps)
    then show ?thesis by simp
  qed
  then show ?thesis unfolding reads_field_def by blast
qed

text \<open>A session's message, and the mail antie makes of it.\<close>

definition sample_raw :: bytes where
  "sample_raw = ''To: v'' @ [CHR 0x0A, CHR 0x0A] @ ''body''"

definition sample_session :: bytes where
  "sample_session = replicate 32 CHR ''Q''"

definition line_env :: mail_env where
  "line_env = sample_mail_env\<lparr>me_mime := line_reader\<rparr>"

lemma sample_own_line: "own_first_line sample_raw"
proof -
  have "utf8_lossy sample_raw = sample_raw"
    by (rule utf8_lossy_valid, rule utf8_valid_ascii) (auto simp: byte_val_def sample_raw_def)
  moreover have "plain_rest ''X-TOT-Session'' (filter (\<lambda>l. \<not> is_tot_header l) (header_lines sample_raw)) (body_part sample_raw)"
    by code_simp
  ultimately show ?thesis by (simp add: own_first_line_def)
qed

lemma sample_stamped:
  obtains out where "stamp_session sample_raw (hex_encode sample_session) = Inr out" "length out \<le> 200"
proof -
  have "case stamp_session sample_raw (hex_encode sample_session) of Inl _ \<Rightarrow> False | Inr out \<Rightarrow> length out \<le> 200"
    by code_simp
  then show thesis using that by (cases "stamp_session sample_raw (hex_encode sample_session)") auto
qed

lemma line_env_reads:
  obtains email where "parse_email_outcome line_env out None = Inr (POk email)" "em_from email = ''w@x''" "em_message_type email = ''query''"
    "em_request_id email = ''r7''" "em_payload email = empty_payload\<lparr>pl_raw_ump_body := [CHR 0xA0]\<rparr>" "em_uncle_correlate email = None" "em_message_id email = None"
proof -
  have q: "parse_subject ''AXIOM/query/r7'' = Inr (''query'', ''r7'')" by (simp add: parse_subject_iff)
  show thesis
    using that by (simp add: parse_email_outcome_def line_env_def sample_mail_env_def line_reader_def sample_view_def q extract_body_def opt_or_def
        decode_payload_with_context_def unwrap_by_format_def requires_envelope_def raw_cbor_message_types_def
        decode_payload_inner_def uncle_correlate_of_def)
qed

lemma sample_custodian:
  assumes "stamp_session sample_raw (hex_encode sample_session) = Inr out" "parse_email_outcome line_env out None = Inr (POk email)"
  shows "em_custody email = Some (''X-TOT-Session'', hex_encode sample_session)"
  by (rule stamp_recognised [OF _ _ assms(1) sample_own_line assms(2)])
    (simp_all add: line_env_def line_reader_reads sample_session_def)

section \<open>From the client to the dispatcher\<close>

text \<open>What is in the inbox when a pass looks is in its batch, once.\<close>

lemma listed_is_read:
  assumes "files v (new_path base n) = Some b" "plain_name n" "n \<in> set names"
    and "maildir_check_new base (plain_names names) v = (Inr ms, v')"
  shows "\<exists>m \<in> set ms. inc_id m = n \<and> inc_raw m = b" "length (filter (\<lambda>m. inc_id m = n) ms) = 1"
proof -
  note batch = check_new_spec [OF assms(4)]
  have d: "distinct (map inc_id ms)" unfolding batch(1) by (simp add: plain_names_def)
  have "n \<in> set (map inc_id ms)" unfolding batch(1) using assms(1-3) by (simp add: plain_names_def)
  then obtain m where m: "m \<in> set ms" "inc_id m = n" by auto
  then show "\<exists>m \<in> set ms. inc_id m = n \<and> inc_raw m = b" using batch(2) [OF m(1)] assms(1) by auto
  show "length (filter (\<lambda>m. inc_id m = n) ms) = 1"
    using d m by (induction ms) (auto simp: filter_empty_conv rev_image_eqI)
qed

text \<open>C7. What the tunnel carrier takes in is what antie processes: bytes that any of its legs delivered are, byte for byte, the
  content of exactly one message of every pass antie makes over that inbox while the file is there, under the file's name; the
  names the tunnel carrier chooses are always readable ones.\<close>

theorem request_reaches_antie:
  assumes "tot_deliver (path_join base ''tmp'', path_join base ''new'') (secs, nanos, seq, pid) b w = (Inr (), w1)"
    and "files v (new_path base (unique_name secs nanos seq pid)) = files w1 (new_path base (unique_name secs nanos seq pid))"
    and "unique_name secs nanos seq pid \<in> set names"
    and "maildir_check_new base (plain_names names) v = (Inr ms, v')"
  shows "(\<exists>m \<in> set ms. inc_id m = unique_name secs nanos seq pid \<and> inc_raw m = b) \<and>
    length (filter (\<lambda>m. inc_id m = unique_name secs nanos seq pid) ms) = 1"
proof -
  let ?n = "unique_name secs nanos seq pid"
  obtain q where "inbox_deliver (path_join base ''tmp'', path_join base ''new'') ?n b w = (Inr q, w1)"
    using assms(1) by (auto simp: tot_deliver_def split: prod.splits sum.splits)
  then have "files w1 (new_path base ?n) = Some b"
    using inbox.put_done [of "(base, secs, nanos, seq, pid)" b w q w1] by (simp add: new_path_def)
  then show ?thesis
    using listed_is_read [OF _ unique_name_plain assms(3,4), of b] assms(2) by simp
qed

lemma request_reaches_antie_witness:
  "let w1 = snd (tot_deliver (''in/tmp'', ''in/new'') (5, 2, 3, 4) ''hi'' no_files);
       r = fst (maildir_check_new ''in'' (plain_names [''x'', ''5.2.M3P4.tot'']) w1) in
   \<exists>ms. r = Inr ms \<and> (\<exists>m \<in> set ms. inc_id m = ''5.2.M3P4.tot'' \<and> inc_raw m = ''hi'')"
proof -
  define w1 where "w1 = snd (tot_deliver (path_join ''in'' ''tmp'', path_join ''in'' ''new'') (5, 2, 3, 4) ''hi'' no_files)"
  have "fst (tot_deliver (path_join ''in'' ''tmp'', path_join ''in'' ''new'') (5, 2, 3, 4) ''hi'' no_files) = Inr ()"
    by code_simp
  then have put: "tot_deliver (path_join ''in'' ''tmp'', path_join ''in'' ''new'') (5, 2, 3, 4) ''hi'' no_files = (Inr (), w1)"
    by (simp add: w1_def prod_eq_iff)
  have name: "unique_name 5 2 3 4 = ''5.2.M3P4.tot''" by code_simp
  have "is_ok (fst (maildir_check_new ''in'' (plain_names [''x'', ''5.2.M3P4.tot'']) w1))"
    unfolding w1_def by code_simp
  then obtain ms v' where ms: "maildir_check_new ''in'' (plain_names [''x'', ''5.2.M3P4.tot'']) w1 = (Inr ms, v')"
    by (cases "maildir_check_new ''in'' (plain_names [''x'', ''5.2.M3P4.tot'']) w1") (auto simp: is_ok_iff)
  have dirs: "path_join ''in'' ''tmp'' = ''in/tmp''" "path_join ''in'' ''new'' = ''in/new''" by code_simp+
  have "snd (tot_deliver (''in/tmp'', ''in/new'') (5, 2, 3, 4) ''hi'' no_files) = w1" by (simp add: w1_def dirs)
  then show ?thesis
    using request_reaches_antie [OF put refl _ ms] ms by (simp add: name Let_def)
qed

end
