(* ===== verification/Replies.thy ===== *)
theory Replies
  imports Promises
begin

text \<open>
  The reply to a request: exactly one for every mail that is answered at all, to its sender, under its request id.
\<close>

section \<open>What a handler gives\<close>

text \<open>Every value a handler ends with satisfies \<open>Q\<close>.\<close>

definition gives :: "('a \<Rightarrow> bool) \<Rightarrow> ('n, 'a) gw \<Rightarrow> bool" where
  "gives Q m = (\<forall>g a h. m g = (Done a, h) \<longrightarrow> Q a)"

lemma gives_return: "Q a \<Longrightarrow> gives Q (gw_return a)"
  and gives_fail: "gives Q (gw_fail e)"
  by (simp_all add: gives_def gw_simps)

lemma gives_res: "(\<And>a. r = Inr a \<Longrightarrow> Q a) \<Longrightarrow> gives Q (gw_res r)"
  by (cases r) (simp_all add: gives_def gw_simps)

lemma gives_bind: "(\<And>a. gives Q (f a)) \<Longrightarrow> gives Q (gw_bind m f)"
  by (auto simp: gives_def elim!: gw_bind_cases)

lemma gives_if: "(b \<Longrightarrow> gives Q m) \<Longrightarrow> (\<not> b \<Longrightarrow> gives Q n) \<Longrightarrow> gives Q (if b then m else n)"
  by simp

lemma gives_prod: "(\<And>a b. gives Q (f a b)) \<Longrightarrow> gives Q (case x of (a, b) \<Rightarrow> f a b)"
  by (cases x) simp

lemma gives_let: "gives Q (f x) \<Longrightarrow> gives Q (Let x f)"
  by simp

lemmas gives_intros = gives_bind gives_if gives_prod gives_let gives_fail gives_return

text \<open>The request id of a mail comes back in every reply but the one Lambda makes for a witness request.\<close>

lemma echoes:
  "gives (\<lambda>p. rp_request_id p = em_request_id email) (handle_query env email)"
  "gives (\<lambda>p. rp_request_id p = em_request_id email) (handle_genesis_dev env email)"
  "gives (\<lambda>p. rp_request_id p = em_request_id email) (handle_redeem_request env email)"
  "gives (\<lambda>p. rp_request_id p = em_request_id email) (handle_ack_request env email)"
  "gives (\<lambda>p. rp_request_id p = em_request_id email) (handle_vbc_sign_request env email)"
  "gives (\<lambda>p. rp_request_id p = em_request_id email) (handle_vbc_sign_commit env email)"
  "gives (\<lambda>p. rp_request_id p = em_request_id email) (handle_set_auth_hash env email)"
  "gives (\<lambda>p. rp_request_id p = em_request_id email) (handle_peer_audit_request env email)"
  "gives (\<lambda>p. rp_request_id p = em_request_id email) (handle_peer_audit_response env email)"
  "gives (\<lambda>p. rp_request_id p = em_request_id email) (handle_fanout_relay env email)"
  unfolding handle_query_def handle_genesis_dev_def handle_redeem_request_def handle_ack_request_def
    handle_vbc_sign_request_def handle_vbc_sign_commit_def handle_set_auth_hash_def handle_peer_audit_request_def
    handle_peer_audit_response_def handle_fanout_relay_def
  by (intro gives_intros; simp add: plain_reply_def verdict_reply_def refusal_def)+

lemma echo_status: "gives (\<lambda>p. rp_request_id p = em_request_id email) (handle_validator_status env email)"
  unfolding handle_validator_status_def
  by (intro gives_bind gives_res) (auto simp: vsp_reply_def res_bind_Inr plain_reply_def)

lemma echo_by_type:
  "em_message_type email \<noteq> ''witness'' \<Longrightarrow> gives (\<lambda>p. rp_request_id p = em_request_id email) (handle_by_type env email)"
  unfolding handle_by_type_def Let_def
  by (intro gives_if gives_return echoes echo_status) (simp_all add: unknown_type_reply_def refusal_def plain_reply_def Let_def)

section \<open>The reply path\<close>

text \<open>The mail a reply makes at a time of the gateway, and that the run from \<open>h\<close> sent exactly it.\<close>

definition reply_mail :: "'n gateway_env \<Rightarrow> antie_email \<Rightarrow> response_payload \<Rightarrow> 'n gateway \<Rightarrow> bytes res" where
  "reply_mail env email p g = build_response (me_b64_encode (ge_mail env)) (ge_encode_reply env) (ge_stamp env (gw_tick g))
     (em_from email) (ac_identity_email (ge_config env)) (reply_type p) (rp_request_id p) (em_message_id email) p"

definition replied :: "'n gateway_env \<Rightarrow> antie_email \<Rightarrow> response_payload \<Rightarrow> 'n gateway \<Rightarrow> unit outcome \<Rightarrow> 'n gateway \<Rightarrow> bool" where
  "replied env email p h x g' = (case reply_mail env email p h of
      Inl e \<Rightarrow> x = Failed e \<and> gw_trace g' = gw_trace h
    | Inr b \<Rightarrow> (\<exists>ok. gw_trace g' = gw_trace h @ [Mailed (em_from email) b ok] \<and> (x = Done () \<longleftrightarrow> ok)))"

lemma mail_reply_trace:
  "\<exists>ok x h. mail_reply env email b g = (x, h) \<and> gw_trace h = gw_trace g @ [Mailed (em_from email) b ok] \<and> (x = Done () \<longleftrightarrow> ok)"
proof -
  obtain r w n where s: "ge_send env (gw_tick g) (em_from email) b (gw_world g, gw_net g) = (r, w, n)" by (metis surj_pair)
  then show ?thesis
    by (cases r) (auto simp: mail_reply_def send_mail_def gw_bind_def gw_simps is_ok_iff)
qed

lemma send_response_replies:
  assumes "em_custody email = None" "send_response env email p h = (x, g')"
  shows "replied env email p h x g'"
proof -
  let ?h = "h\<lparr>gw_tick := gw_tick h + 1\<rparr>"
  have run: "(case reply_mail env email p h of Inl e \<Rightarrow> (Failed e, ?h)
     | Inr b \<Rightarrow> gw_bind (tee_reply env email b) (\<lambda>_. mail_reply env email b) ?h) = (x, g')"
    using assms by (cases "reply_mail env email p h")
      (simp_all add: send_response_def reply_mail_def custody_reply_def gw_bind_def gw_simps)
  show ?thesis
  proof (cases "reply_mail env email p h")
    case (Inr b)
    obtain k where k: "tee_reply env email b ?h = (Done (), k)" "gw_trace k = gw_trace h"
      using tee_quiet [of env email b ?h] by auto
    obtain ok y l where "mail_reply env email b k = (y, l)" "gw_trace l = gw_trace k @ [Mailed (em_from email) b ok]"
      "y = Done () \<longleftrightarrow> ok"
      using mail_reply_trace by blast
    then show ?thesis using run Inr k by (auto simp: replied_def gw_bind_def)
  qed (use run in \<open>auto simp: replied_def\<close>)
qed

section \<open>One request, one reply\<close>

text \<open>C6. A request is answered exactly once.  Outside custody, and but for the peer audit, whose answers go their own way, whatever the handler
  ends with (a value, or any error) becomes one mail to the sender of the request and nothing else, unless that mail cannot be built or
  the process leaves; an error reply says so, and every reply carries the request id of the mail it answers (for a witness request Lambda's
  answer names it).  A peer audit gets no reply of this kind at all.\<close>

theorem request_answered_once:
  assumes "em_custody email = None" "handle_by_type env email g = (r, h)" "answer_email env email g = (x, g')"
  shows "case r of
      Exited c \<Rightarrow> x = Exited c \<and> g' = h
    | Done p \<Rightarrow> (if answers_out_of_band (em_message_type email) then x = Done () \<and> g' = h
        else replied env email p h x g' \<and> (em_message_type email = ''witness'' \<or> rp_request_id p = em_request_id email))
    | Failed e \<Rightarrow> (if answers_out_of_band (em_message_type email) then x = Done () \<and> g' = h
        else replied env email (error_reply env (em_request_id email) e) h x g')"
proof (cases r)
  case (Done p)
  have "em_message_type email = ''witness'' \<or> rp_request_id p = em_request_id email"
    using echo_by_type [of email env] assms(2) Done by (auto simp: gives_def)
  then show ?thesis
    using assms(2,3) Done send_response_replies [OF assms(1)]
    by (auto simp: answer_email_def gw_bind_def gw_try_def gw_simps split: if_splits)
next
  case (Failed e)
  then show ?thesis
    using assms(2,3) send_response_replies [OF assms(1)]
    by (auto simp: answer_email_def gw_bind_def gw_try_def gw_simps split: if_splits)
qed (use assms in \<open>auto simp: answer_email_def gw_bind_def gw_try_def\<close>)

text \<open>A query without parameters: refused by the handler, and the refusal is mailed.\<close>

lemma request_answered_once_witness:
  "\<exists>b ok. gw_trace (snd (answer_email sample_gateway_env (sample_email\<lparr>em_custody := None\<rparr>) sample_gateway)) = [Mailed ''w@x'' b ok]"
proof -
  let ?e = "sample_email\<lparr>em_custody := None\<rparr>"
  let ?err = "InvalidPayload ''Query requires query_params.wallet_pk (byte array)''"
  obtain x g' where run: "answer_email sample_gateway_env ?e sample_gateway = (x, g')" by fastforce
  have h: "handle_by_type sample_gateway_env ?e sample_gateway = (Failed ?err, sample_gateway)"
    by (simp add: handle_by_type_def handle_query_def sample_email_def empty_payload_def gw_require_def gw_simps ok_or_def)
  have "validate_email_addr ''w@x'' = Inr ()" "validate_email_addr (ac_identity_email sample_config) = Inr ()"
    by code_simp+
  then obtain b where "reply_mail sample_gateway_env ?e (error_reply sample_gateway_env ''r1'' ?err) sample_gateway = Inr b"
    by (simp add: reply_mail_def build_response_def sample_gateway_env_def sample_email_def)
  then show ?thesis
    using request_answered_once [OF _ h run] run
    by (auto simp: replied_def sample_email_def answers_out_of_band_def sample_gateway_def)
qed

end
