(* ===== verification/RoundTrip.thy ===== *)
theory RoundTrip
  imports CustodyLink Replies
begin

text \<open>
  One exchange from end to end: the message a session of the tunnel carrier sends, antie's answer to it, and the frame
  that brings the answer back.
\<close>

section \<open>What antie answers\<close>

text \<open>The payload of the reply, and the state the handler leaves.\<close>

definition answers_with :: "'n gateway_env \<Rightarrow> antie_email \<Rightarrow> 'n gateway \<Rightarrow> response_payload \<Rightarrow> 'n gateway \<Rightarrow> bool" where
  "answers_with env email g p h = (handle_by_type env email g = (Done p, h) \<or>
     (\<exists>e. handle_by_type env email g = (Failed e, h) \<and> p = error_reply env (em_request_id email) e))"

lemma answer_splits:
  assumes "\<not> answers_out_of_band (em_message_type email)" "answer_email env email g = (Done u, g')"
  obtains p h where "answers_with env email g p h" "send_response env email p h = (Done (), g')"
proof -
  obtain r h where h: "handle_by_type env email g = (r, h)" by fastforce
  show thesis
    using assms h that by (cases r) (auto simp: answer_email_def gw_bind_def gw_try_def answers_with_def)
qed

lemma accepted_is_answered:
  assumes "length (inc_raw msg) \<le> max_message_bytes" "try_parse_vbc_delivery (ge_mail env) (inc_raw msg) = None"
    and "parse_email_outcome (ge_mail env) (inc_raw msg) (ge_decryptor env) = Inr (POk email)"
  shows "process_message env msg = answer_email env email"
  using assms by (simp add: process_message_def)

section \<open>The exchange\<close>

text \<open>A wallet that talks to its validator through the tunnel gets its answer, and gets it nowhere else: TOT stamps the message with the
  session's own id; when antie processes the stamped bytes, reads them as a mail and answers, whether by the handler's value or by the
  structured form of its error, nothing is mailed, and the next look of that session at its directory (which lists what is there)
  sends its client the reply antie made, byte for byte, and removes it.  The id is not taken from the client, as long as its
  message leaves the stamp alone (\<open>own_first_line\<close>) and the mail parser reads the stamp as RFC 5322 has it; the custody row is
  one that suppresses the mail, and the message's type one that is answered by mail.\<close>

lemma session_served:
  assumes stamp: "reads_field ''X-TOT-Session'' (me_mime (ge_mail env))" "length b = 32" "stamp_session raw (hex_encode b) = Inr (inc_raw msg)"
      "own_first_line raw"
    and mail: "length (inc_raw msg) \<le> max_message_bytes" "try_parse_vbc_delivery (ge_mail env) (inc_raw msg) = None"
      "parse_email_outcome (ge_mail env) (inc_raw msg) (ge_decryptor env) = Inr (POk email)"
    and row: "find (\<lambda>r. eq_ignore_case (cr_header r) ''X-TOT-Session'') (ob_custody (ac_outbound (ge_config env))) = Some row"
      "cr_suppress_email row"
    and run: "\<not> answers_out_of_band (em_message_type email)" "process_message env msg g = (Done (), g')" "faults (gw_world g') = []"
    and look: "distinct names" "\<forall>n \<in> set names. CHR ''/'' \<notin> set n"
      "\<forall>n. CHR ''/'' \<notin> set n \<longrightarrow> files (gw_world g') (path_join (path_join (cr_outbox row) (hex_encode b)) n) \<noteq> None \<longrightarrow> n \<in> set names"
      "pump_replies (path_join (cr_outbox row) (hex_encode b)) (Inr names) (k, gw_world g') = (Inr (), k', w')"
  shows "\<exists>p h reply sent. answers_with env email g p h \<and> reply_mail env email p h = Inr reply \<and> gw_trace g' = gw_trace h \<and>
    sk_sent k' = sk_sent k @ sent \<and>
    (rp_request_id p \<noteq> [] \<longrightarrow> reply \<in> set sent \<and> files w' (custody_path row (hex_encode b) (rp_request_id p)) = None)"
proof -
  have custody: "em_custody email = Some (''X-TOT-Session'', hex_encode b)"
    by (rule stamp_recognised [OF stamp mail(3)])
  obtain p h where p: "answers_with env email g p h" and sent: "send_response env email p h = (Done (), g')"
    using run(2) answer_splits [OF run(1)] unfolding accepted_is_answered [OF mail] by blast
  let ?name = "rp_request_id p @ ''.cbor''"
  have quiet: "gw_trace g' = gw_trace h" and ok: "custody_name_ok ?name"
    and there: "files (gw_world g') (path_join (path_join (cr_outbox row) (hex_encode b)) ?name) \<noteq> None"
    using reply_in_custody [OF custody row sent] by (auto simp: custody_path_def)
  have "?name \<in> set names" using look(3) there custody_name_okD [OF ok] by blast
  from deposit_is_sent [OF custody row sent run(3) look(1,2) this look(4)]
  obtain reply frames where "reply_mail env email p h = Inr reply" "sk_sent k' = sk_sent k @ frames"
    "rp_request_id p \<noteq> [] \<longrightarrow> reply \<in> set frames \<and> files w' (custody_path row (hex_encode b) (rp_request_id p)) = None"
    unfolding reply_mail_def by auto
  then show ?thesis using p quiet by blast
qed

text \<open>A query without parameters, refused by its handler, over the session.\<close>

definition chat_env :: "unit gateway_env" where
  "chat_env = sample_gateway_env\<lparr>ge_mail := line_env\<rparr>"

definition chat_error :: antie_error where
  "chat_error = InvalidPayload ''Query requires query_params.wallet_pk (byte array)''"

definition chat_dir :: string where
  "chat_dir = path_join (cr_outbox sample_row) (hex_encode sample_session)"

lemma chat_env_parts: "ge_mail chat_env = line_env" "ge_decryptor chat_env = None" "ge_config chat_env = sample_config"
  by (simp_all add: chat_env_def sample_gateway_env_def)

lemma chat_row:
  "find (\<lambda>r. eq_ignore_case (cr_header r) ''X-TOT-Session'') (ob_custody (ac_outbound (ge_config chat_env))) = Some sample_row"
  "cr_suppress_email sample_row"
  by (simp_all add: chat_env_parts sample_config_def sample_row_def eq_ignore_case_def)

lemma chat_mail: "try_parse_vbc_delivery line_env m = None"
  by (simp add: try_parse_vbc_delivery_def line_env_def line_reader_def sample_mail_env_def sample_view_def)

lemma chat_refused:
  assumes "em_message_type email = ''query''" "em_payload email = empty_payload\<lparr>pl_raw_ump_body := [CHR 0xA0]\<rparr>"
  shows "handle_by_type chat_env email g = (Failed chat_error, g)"
  using assms by (simp add: handle_by_type_def handle_query_def empty_payload_def gw_require_def gw_simps ok_or_def chat_error_def)

lemma chat_reply_id: "rp_request_id (error_reply chat_env ''r7'' chat_error) = ''r7''"
  by (simp add: error_reply_def plain_reply_def Let_def)

text \<open>The refusal is deposited, and the directory holds nothing else.\<close>

lemma chat_deposited:
  assumes "em_custody email = Some (''X-TOT-Session'', hex_encode sample_session)" "em_from email = ''w@x''"
    and "em_uncle_correlate email = None" "em_message_id email = None"
    and "faults (gw_world g) = []" "\<And>n. CHR ''/'' \<notin> set n \<Longrightarrow> files (gw_world g) (path_join chat_dir n) = None"
  obtains g' r where "send_response chat_env email (error_reply chat_env ''r7'' chat_error) g = (Done (), g')"
    "faults (gw_world g') = []" "files (gw_world g') (path_join chat_dir ''r7.cbor'') = Some r"
    "\<And>n. CHR ''/'' \<notin> set n \<Longrightarrow> files (gw_world g') (path_join chat_dir n) \<noteq> None \<Longrightarrow> n = ''r7.cbor''"
proof -
  let ?p = "error_reply chat_env ''r7'' chat_error"
  have "validate_email_addr ''w@x'' = Inr ()" "validate_email_addr (ac_identity_email sample_config) = Inr ()" by code_simp+
  then obtain b where b: "build_response (me_b64_encode (ge_mail chat_env)) (ge_encode_reply chat_env) (ge_stamp chat_env (gw_tick g))
      (em_from email) (ac_identity_email (ge_config chat_env)) (reply_type ?p) (rp_request_id ?p) (em_message_id email) ?p = Inr b"
    by (simp add: build_response_def chat_env_def sample_gateway_env_def assms)
  have dev: "\<not> ge_is_dev chat_env (em_from email)" by (simp add: chat_env_def sample_gateway_env_def assms starts_with_def)
  have name: "custody_name_ok (rp_request_id ?p @ ''.cbor'')" unfolding chat_reply_id by code_simp
  from reply_goes_out [OF assms(1,3) chat_row _ name assms(5) b] dev
  obtain g' where sent: "send_response chat_env email ?p g = (Done (), g')" "faults (gw_world g') = []"
    and frame: "\<And>q. files (gw_world g') q \<noteq> files (gw_world g) q \<Longrightarrow>
       q = path_join chat_dir ''r7.cbor'' \<or> q = path_join (path_join chat_dir ''tmp'') ''r7.cbor''"
    unfolding chat_reply_id custody_path_def chat_dir_def by auto
  obtain r where there: "files (gw_world g') (path_join chat_dir ''r7.cbor'') = Some r"
    using conjunct2 [OF reply_in_custody [OF assms(1) chat_row sent(1)]] unfolding chat_reply_id custody_path_def chat_dir_def by auto
  have "n = ''r7.cbor''" if "CHR ''/'' \<notin> set n" "files (gw_world g') (path_join chat_dir n) \<noteq> None" for n
  proof -
    have "path_parts (path_join chat_dir n) \<noteq> path_parts (path_join (path_join chat_dir ''tmp'') ''r7.cbor'')"
      using that(1) by (simp add: path_parts_join)
    then show ?thesis using assms(6) frame [of "path_join chat_dir n"] that path_join_inject [of n "''r7.cbor''" chat_dir] by auto
  qed
  then show thesis using that sent there by blast
qed

lemma session_served_witness:
  "\<exists>out g' k' w' reply. stamp_session sample_raw (hex_encode sample_session) = Inr out \<and>
     process_message chat_env \<lparr>inc_id = ''m'', inc_raw = out, inc_source = []\<rparr> sample_gateway = (Done (), g') \<and> gw_trace g' = [] \<and>
     pump_replies chat_dir (Inr [''r7.cbor'', ''tmp'']) (\<lparr>sk_sent = [], sk_fails = \<lambda>_. None\<rparr>, gw_world g') = (Inr (), k', w') \<and>
     reply \<in> set (sk_sent k')"
proof -
  let ?k = "\<lparr>sk_sent = [], sk_fails = \<lambda>_. None\<rparr>" and ?names = "[''r7.cbor'', ''tmp'']"
  obtain out where out: "stamp_session sample_raw (hex_encode sample_session) = Inr out" "length out \<le> 200" using sample_stamped by blast
  obtain email where email: "parse_email_outcome line_env out None = Inr (POk email)" "em_from email = ''w@x''" "em_message_type email = ''query''"
    "em_request_id email = ''r7''" "em_payload email = empty_payload\<lparr>pl_raw_ump_body := [CHR 0xA0]\<rparr>" "em_uncle_correlate email = None"
    "em_message_id email = None"
    using line_env_reads by blast
  let ?msg = "\<lparr>inc_id = ''m'', inc_raw = out, inc_source = []\<rparr>"
  have mail: "length (inc_raw ?msg) \<le> max_message_bytes" "try_parse_vbc_delivery (ge_mail chat_env) (inc_raw ?msg) = None"
      "parse_email_outcome (ge_mail chat_env) (inc_raw ?msg) (ge_decryptor chat_env) = Inr (POk email)"
    using email(1) out(2) by (simp_all add: chat_env_parts chat_mail max_message_bytes_def)
  note h = chat_refused [OF email(3,5), of sample_gateway]
  obtain g' r where g': "send_response chat_env email (error_reply chat_env ''r7'' chat_error) sample_gateway = (Done (), g')"
      "faults (gw_world g') = []" "files (gw_world g') (path_join chat_dir ''r7.cbor'') = Some r"
    and only: "\<And>n. CHR ''/'' \<notin> set n \<Longrightarrow> files (gw_world g') (path_join chat_dir n) \<noteq> None \<Longrightarrow> n = ''r7.cbor''"
    using chat_deposited [OF sample_custodian [OF out(1) email(1)] email(2,6,7), of sample_gateway]
    by (auto simp: sample_gateway_def no_files_def)
  have ends: "\<not> answers_out_of_band (em_message_type email)" by (simp add: email answers_out_of_band_def)
  have run: "process_message chat_env ?msg sample_gateway = (Done (), g')"
    unfolding accepted_is_answered [OF mail] using h g'(1) ends email(4) by (simp add: answer_email_def gw_bind_def gw_try_def)
  have sorted: "sort (filter has_cbor_extension ?names) = [''r7.cbor'']" by code_simp
  obtain k' w' where look: "pump_replies chat_dir (Inr ?names) (?k, gw_world g') = (Inr (), k', w')"
    unfolding pump_replies_def sum.case sorted using g'(2,3) by (simp add: maildir_read_message_def sink_send_def Let_def)
  have "reads_field ''X-TOT-Session'' (me_mime (ge_mail chat_env))" by (simp add: chat_env_parts line_env_def line_reader_reads)
  moreover have "length sample_session = 32" by (simp add: sample_session_def)
  moreover have "stamp_session sample_raw (hex_encode sample_session) = Inr (inc_raw ?msg)" using out(1) by simp
  moreover have "distinct ?names" "\<forall>n \<in> set ?names. CHR ''/'' \<notin> set n" by simp_all
  moreover have "\<forall>n. CHR ''/'' \<notin> set n \<longrightarrow> files (gw_world g') (path_join (path_join (cr_outbox sample_row) (hex_encode sample_session)) n) \<noteq> None \<longrightarrow>
      n \<in> set ?names"
    using only by (auto simp: chat_dir_def)
  ultimately obtain q l reply frames where q: "answers_with chat_env email sample_gateway q l" "gw_trace g' = gw_trace l" "sk_sent k' = frames"
      "rp_request_id q \<noteq> [] \<longrightarrow> reply \<in> set frames"
    using session_served [OF _ _ _ sample_own_line mail chat_row ends run g'(2) _ _ _ look [unfolded chat_dir_def]]
    by fastforce
  have "l = sample_gateway" "rp_request_id q = ''r7''" using q(1) h chat_reply_id email(4) by (auto simp: answers_with_def)
  then show ?thesis using out(1) run look q by (auto simp: sample_gateway_def)
qed

end
