(* ===== verification/Exchange.thy ===== *)
theory Exchange
  imports RoundTrip
begin

text \<open>
  One exchange through the loops of both programs: a turn of the session loop of tot, a pass of antie over its inbox, and
  the next look of the session.
\<close>

section \<open>A turn that takes a message\<close>

lemma turn_delivers:
  assumes "session_step cap inbox i dir (Frame now parts (WsBinary raw)) l (k, w) = Going l1 (k1, w1)"
    and "stamp_session raw i = Inr out"
  shows "tot_deliver inbox parts out w = (Inr (), w1) \<and> k1 = k"
  using assms by (auto simp: session_step_def split: if_splits prod.splits bool.splits sum.splits)

lemma turn_looks:
  assumes "session_step cap inbox i dir (PollTick listing) l (k, w) = Going l1 (k1, w1)"
  shows "pump_replies dir listing (k, w) = (Inr (), k1, w1)"
  using assms by (auto simp: session_step_def split: prod.splits sum.splits)

text \<open>Into an empty inbox.\<close>

lemma only_delivery:
  assumes "tot_deliver (path_join base ''tmp'', path_join base ''new'') (secs, nanos, seq, pid) out w = (Inr (), w1)"
    and "maildir_held base w = (\<lambda>n. None)"
  shows "maildir_held base w1 = [unique_name secs nanos seq pid \<mapsto> out]"
proof -
  have "mailbox_step (TotPut (secs, nanos, seq, pid) out, True) (maildir_held base w) (maildir_held base w1)"
    using assms(1) by (intro step_refines) simp_all
  then show ?thesis using assms(2) by cases auto
qed

lemma single_list: "set xs = {n} \<Longrightarrow> distinct xs \<Longrightarrow> xs = [n]"
proof (cases xs)
  case (Cons a ys)
  assume "set xs = {n}" "distinct xs"
  then have "a = n" "set ys \<subseteq> {n}" "n \<notin> set ys" using Cons by auto
  then show "xs = [n]" using Cons by (cases ys) auto
qed simp

lemma batch_of_one:
  assumes "maildir_held base w = [n \<mapsto> b]" "n \<in> set names" "plain_name n"
    and "maildir_check_new base (plain_names names) w = (Inr ms, v)"
  obtains m where "ms = [m]" "inc_id m = n" "inc_raw m = b"
proof -
  note batch = check_new_spec [OF assms(4)]
  have held: "files w (new_path base k) \<noteq> None \<longleftrightarrow> k = n" if "plain_name k" for k
    using fun_cong [OF assms(1), of k] that by (auto simp: maildir_held_def split: if_splits)
  have "set (map inc_id ms) = {n}" "distinct (map inc_id ms)"
    unfolding batch(1) using assms(2,3) held by (auto simp: plain_names_def)
  then have "map inc_id ms = [n]" by (rule single_list)
  then obtain m where m: "ms = [m]" "inc_id m = n" by auto
  have "files w (new_path base n) = Some b" using fun_cong [OF assms(1), of n] assms(3) by (simp add: maildir_held_def)
  then have "inc_raw m = b" using batch(2) [of m] m by simp
  then show thesis using that m by blast
qed

section \<open>A pass over one message\<close>

text \<open>The last message of a pass is never refused for load.\<close>

lemma last_not_busy: "\<not> should_reject_busy t s 0"
  by (simp add: should_reject_busy_def busy_estimate_exceeds_def)

text \<open>What the pass does with it: when it counts it as processed, it has processed it and then marked it.\<close>

lemma pass_of_one:
  assumes "mk_check_new mc (gw_world g) = (Inr [m], v)"
    and "process_carrier_messages env hb (on_world mc) g = (Done (), g')"
    and "st_messages_processed (gw_stats g') \<noteq> st_messages_processed (gw_stats g)"
  obtains h h' where "process_message env m h = (Done (), h')" "gw_world h = v"
    "gw_world g' = snd (mk_mark_processed mc (inc_id m) (gw_world h'))"
proof -
  let ?mc = "on_world mc" and ?up = "st_messages_processed"
  have check: "mk_check_new ?mc g = (Inr [m], g\<lparr>gw_world := v\<rparr>)" using assms(1) by (simp add: on_world_def)
  define g2 where "g2 = g\<lparr>gw_world := v, gw_tick := gw_tick g + 1, gw_stats := note_inbox_write (ge_unix env (gw_tick g)) (gw_stats g)\<rparr>"
  have one: "gw_bind (dispatch_one env hb ?mc 0 m) (\<lambda>_. gw_return ()) g2 = (Done (), g')"
    using assms(2) check by (simp add: process_carrier_messages_def gw_bind_def [of "gw_bind _ _"] gw_bind_def [of "gw_fresh _"] gw_simps g2_def)
  obtain h0 where beat: "beat_gateway env hb g2 = (Done (), h0)" "gw_world h0 = v" "?up (gw_stats h0) = ?up (gw_stats g)"
    by (cases hb) (simp_all add: beat_gateway_def gw_bind_def gw_simps g2_def note_inbox_write_def beat_def)
  define h where "h = snd (bump st_messages_received_update h0)"
  have h: "gw_world h = v" "?up (gw_stats h) = ?up (gw_stats g)" using beat by (simp_all add: h_def gw_simps)
  obtain r h' where r: "process_message env m h = (r, h')" by fastforce
  have kept: "?up (gw_stats h') = ?up (gw_stats g)"
    using acct.keeps_process [of env m, unfolded keeps_def, rule_format, of h] r h(2) by (simp add: accounted_def same_inbox_counts_def)
  have run: "dispatch_one env hb ?mc 0 m g2 = gw_bind (gw_try (process_message env m)) (\<lambda>r. case r of
      Inl e \<Rightarrow> gw_bind (bump st_messages_failed_update) (\<lambda>_. mark_gateway (mk_mark_failed ?mc (inc_id m) (display_error e)))
    | Inr _ \<Rightarrow> gw_bind (bump st_messages_processed_update) (\<lambda>_. mark_gateway (mk_mark_processed ?mc (inc_id m)))) h"
    using beat(1) by (simp add: dispatch_one_def h_def gw_bind_def gw_simps last_not_busy)
  show thesis
  proof (cases r)
    case (Done u)
    then have "gw_world g' = snd (mk_mark_processed mc (inc_id m) (gw_world h'))"
      using one r unfolding gw_bind_def [of "dispatch_one env hb ?mc 0 m"] run
      by (auto simp: gw_bind_def gw_try_def gw_simps mark_gateway_def on_world_def case_prod_beta)
    then show thesis using r Done h(1) by (intro that [of h h']) simp_all
  next
    case (Failed e)
    then have "?up (gw_stats g') = ?up (gw_stats h')"
      using one r unfolding gw_bind_def [of "dispatch_one env hb ?mc 0 m"] run
      by (auto simp: gw_bind_def gw_try_def gw_simps mark_gateway_def on_world_def case_prod_beta)
    then show thesis using kept assms(3) by simp
  next
    case (Exited c)
    then show thesis using one r unfolding gw_bind_def [of "dispatch_one env hb ?mc 0 m"] run by (simp add: gw_bind_def gw_try_def)
  qed
qed

text \<open>Marking a mail touches that mail alone, under any name the directory of another carrier may give it.\<close>

lemma mark_frame:
  assumes "plain_name i" "p \<noteq> new_path base i" "p \<noteq> path_join (path_join base ''cur'') (i @ '':2,S'')"
  shows "files (snd (maildir_mark base i w)) p = files w p"
proof -
  let ?d = "path_join (path_join base ''cur'') (i @ '':2,S'')"
  have "files (snd (rename_file (new_path base i) ?d w)) p = files w p" using assms(2,3) by (rule rename_other)
  then show ?thesis
    using new_path_file_name [OF assms(1), of base]
    by (simp add: maildir_mark_def Let_def new_path_def [symmetric] via_io_def maildir_mark_processed_def io_bind_def io_return_def
        case_prod_beta split: sum.splits option.splits)
qed

lemma mark_spares:
  assumes "plain_name i" "CHR ''/'' \<notin> set f" "f \<notin> {[], ''.''}" "f \<noteq> i" "f \<noteq> i @ '':2,S''"
  shows "files (snd (maildir_mark base i w)) (path_join dir f) = files w (path_join dir f)"
proof (rule mark_frame [OF assms(1)])
  have p: "path_parts (path_join dir f) = path_parts dir @ [f]" using assms(2,3) by (simp add: path_parts_join)
  show "path_join dir f \<noteq> new_path base i" "path_join dir f \<noteq> path_join (path_join base ''cur'') (i @ '':2,S'')"
    using assms p by (auto simp: new_path_def plain_name_def path_parts_join dest!: arg_cong [of _ _ path_parts])
qed

lemma tot_name_ends: "unique_name secs nanos seq pid \<noteq> f @ ''.cbor''" "unique_name secs nanos seq pid @ '':2,S'' \<noteq> f @ ''.cbor''"
proof -
  have e: "last (unique_name secs nanos seq pid) = CHR ''t''" "last (f @ ''.cbor'') = CHR ''r''"
    "last (unique_name secs nanos seq pid @ '':2,S'') = CHR ''S''" by (simp_all add: unique_name_def)
  show "unique_name secs nanos seq pid \<noteq> f @ ''.cbor''" using e(1,2) by (auto dest: arg_cong [of _ _ last])
  show "unique_name secs nanos seq pid @ '':2,S'' \<noteq> f @ ''.cbor''" using e(2,3) by (auto dest: arg_cong [of _ _ last])
qed

lemma cbor_name: "f @ ''.cbor'' \<notin> {[], ''.''}"
  by (cases f) auto

section \<open>The exchange\<close>


section \<open>An exchange to evaluate\<close>

lemma mark_faults: "faults w = [] \<Longrightarrow> faults (snd (maildir_mark base i w)) = []"
  by (auto simp: maildir_mark_def Let_def via_io_def maildir_mark_processed_def io_bind_def io_return_def io_fail_def rename_file_def
      prim_def observed_def split: option.splits)

lemma deliver_fault_free:
  assumes "faults w = []"
  shows "\<exists>w'. tot_deliver inbox parts b w = (Inr (), w') \<and> faults w' = []"
proof -
  obtain secs nanos seq pid where parts: "parts = (secs, nanos, seq, pid)" by (metis prod_cases4)
  let ?t = "path_join (fst inbox) (unique_name secs nanos seq pid)"
  define w1 where "w1 = snd (create_file ?t w)"
  have 1: "create_file ?t w = (Inr (), w1)" "faults w1 = []" "files w1 ?t \<noteq> None"
    using assms by (simp_all add: w1_def create_file_def prim_def observed_def Let_def)
  obtain w2 where 2: "write_all ?t b w1 = (Inr (), w2)" "faults w2 = []" "files w2 ?t \<noteq> None"
    using write_all_quiet [OF 1(2,3)] by blast
  show ?thesis
    using 1(1) 2 by (auto simp: parts tot_deliver_def inbox_deliver_def Let_def io_bind_def io_match_def sync_file_def rename_file_def
        sync_dir_def prim_def observed_def)
qed

lemma read_one:
  assumes "faults w = []" "files w (new_path base n) = Some b" "plain_name n"
  shows "\<exists>s. maildir_check_new base (plain_names [n]) w = (Inr [\<lparr>inc_id = n, inc_raw = b, inc_source = s\<rparr>], w)"
proof -
  have "plain_names [n] = [n]" "utf8_lossy n = n" using assms(3) by (simp_all add: plain_names_def plain_name_def utf8_lossy_valid)
  moreover have "w\<lparr>faults := []\<rparr> = w" using assms(1) by simp
  ultimately show ?thesis
    using assms new_path_file_name [OF assms(3), of base]
    by (simp add: maildir_check_new_def list_new_entries via_io_def maildir_read_message_def map_err_def)
qed

lemma pass_done:
  assumes "mk_check_new mc (gw_world g) = (Inr [m], v)"
    and "\<And>h. gw_world h = v \<Longrightarrow> \<exists>h'. process_message env m h = (Done (), h') \<and> P (gw_world h')"
  shows "\<exists>u g'. process_carrier_messages env None (on_world mc) g = (Done (), g') \<and> P u \<and>
    gw_world g' = snd (mk_mark_processed mc (inc_id m) u) \<and> st_messages_processed (gw_stats g') = wadd (st_messages_processed (gw_stats g)) 1"
proof -
  let ?mc = "on_world mc" and ?up = "st_messages_processed"
  have check: "mk_check_new ?mc g = (Inr [m], g\<lparr>gw_world := v\<rparr>)" using assms(1) by (simp add: on_world_def)
  define g2 where "g2 = g\<lparr>gw_world := v, gw_tick := gw_tick g + 1, gw_stats := note_inbox_write (ge_unix env (gw_tick g)) (gw_stats g)\<rparr>"
  define h where "h = snd (bump st_messages_received_update g2)"
  have h: "gw_world h = v" "?up (gw_stats h) = ?up (gw_stats g)" by (simp_all add: h_def g2_def gw_simps note_inbox_write_def)
  obtain h' where h': "process_message env m h = (Done (), h')" "P (gw_world h')" using assms(2) [OF h(1)] by blast
  have kept: "?up (gw_stats h') = ?up (gw_stats g)"
    using acct.keeps_process [of env m, unfolded keeps_def, rule_format, of h] h'(1) h(2) by (simp add: accounted_def same_inbox_counts_def)
  have "process_carrier_messages env None ?mc g = gw_bind (dispatch_one env None ?mc 0 m) (\<lambda>_. gw_return ()) g2"
    using check by (simp add: process_carrier_messages_def gw_bind_def [of "gw_bind _ _"] gw_bind_def [of "gw_fresh _"] gw_simps g2_def)
  also have "dispatch_one env None ?mc 0 m g2 =
      gw_bind (bump st_messages_processed_update) (\<lambda>_. mark_gateway (mk_mark_processed ?mc (inc_id m))) h'"
    using h'(1) by (simp add: dispatch_one_def beat_gateway_def h_def gw_bind_def gw_try_def gw_simps last_not_busy)
  then have "gw_bind (dispatch_one env None ?mc 0 m) (\<lambda>_. gw_return ()) g2 =
      (Done (), snd (mk_mark_processed ?mc (inc_id m) (snd (bump st_messages_processed_update h'))))"
    by (simp add: gw_bind_def gw_simps mark_gateway_def)
  finally have run: "process_carrier_messages env None ?mc g = (Done (), snd (mk_mark_processed ?mc (inc_id m) (snd (bump st_messages_processed_update h'))))" .
  then show ?thesis
    using h'(2) kept by (intro exI [of _ "gw_world h'"]) (simp add: on_world_def case_prod_beta gw_simps)
qed

definition chat_name :: string where
  "chat_name = unique_name 5 2 3 4"

text \<open>A file of the session's directory is no file of the inbox.\<close>

lemma hd_join: "CHR ''/'' \<notin> set n \<Longrightarrow> d \<noteq> [] \<Longrightarrow> path_join d n \<noteq> [] \<and> hd (path_join d n) = hd d"
  by (auto simp: path_join_relative)

lemma chat_apart:
  assumes "CHR ''/'' \<notin> set n" "CHR ''/'' \<notin> set f" "CHR ''/'' \<notin> set x"
  shows "path_join chat_dir n \<noteq> path_join (path_join ''in'' x) f"
proof -
  have "chat_dir \<noteq> [] \<and> hd chat_dir = CHR ''t''"
    using hd_join [of "hex_encode sample_session" "''tot/out''"] hex_no_slash by (simp add: chat_dir_def sample_row_def)
  then have "hd (path_join chat_dir n) = CHR ''t''" using hd_join assms(1) by metis
  moreover have "hd (path_join (path_join ''in'' x) f) = CHR ''i''"
    using hd_join [OF assms(2)] hd_join [OF assms(3), of "''in''"] by simp
  ultimately show ?thesis by (auto dest: arg_cong [of _ _ hd])
qed

text \<open>What antie makes of the stamped message, in any state without faults.\<close>

lemma chat_processed:
  assumes "stamp_session sample_raw (hex_encode sample_session) = Inr out" "length out \<le> 200"
    and "faults (gw_world h) = []" "\<And>n. CHR ''/'' \<notin> set n \<Longrightarrow> files (gw_world h) (path_join chat_dir n) = None"
  obtains email h' r where "process_message chat_env \<lparr>inc_id = i, inc_raw = out, inc_source = s\<rparr> h = (Done (), h')"
    "parse_email_outcome line_env out None = Inr (POk email)" "em_message_type email = ''query''" "em_request_id email = ''r7''"
    "faults (gw_world h') = []" "files (gw_world h') (path_join chat_dir ''r7.cbor'') = Some r"
    "\<And>n. CHR ''/'' \<notin> set n \<Longrightarrow> files (gw_world h') (path_join chat_dir n) \<noteq> None \<Longrightarrow> n = ''r7.cbor''"
proof -
  let ?msg = "\<lparr>inc_id = i, inc_raw = out, inc_source = s\<rparr>"
  obtain email where email: "parse_email_outcome line_env out None = Inr (POk email)" "em_from email = ''w@x''" "em_message_type email = ''query''"
    "em_request_id email = ''r7''" "em_payload email = empty_payload\<lparr>pl_raw_ump_body := [CHR 0xA0]\<rparr>" "em_uncle_correlate email = None"
    "em_message_id email = None"
    using line_env_reads by blast
  have mail: "length (inc_raw ?msg) \<le> max_message_bytes" "try_parse_vbc_delivery (ge_mail chat_env) (inc_raw ?msg) = None"
      "parse_email_outcome (ge_mail chat_env) (inc_raw ?msg) (ge_decryptor chat_env) = Inr (POk email)"
    using email(1) assms(2) by (simp_all add: chat_env_parts chat_mail max_message_bytes_def)
  obtain h' r where h': "send_response chat_env email (error_reply chat_env ''r7'' chat_error) h = (Done (), h')"
      "faults (gw_world h') = []" "files (gw_world h') (path_join chat_dir ''r7.cbor'') = Some r"
    and only: "\<And>n. CHR ''/'' \<notin> set n \<Longrightarrow> files (gw_world h') (path_join chat_dir n) \<noteq> None \<Longrightarrow> n = ''r7.cbor''"
    using chat_deposited [OF sample_custodian [OF assms(1) email(1)] email(2,6,7) assms(3,4)] by blast
  have "process_message chat_env ?msg h = (Done (), h')"
    unfolding accepted_is_answered [OF mail] using chat_refused [OF email(3,5), of h] h'(1) email(3,4)
    by (simp add: answer_email_def gw_bind_def gw_try_def answers_out_of_band_def)
  then show thesis using that email h' only by blast
qed

lemma chat_delivered:
  obtains w1 where "tot_deliver (path_join ''in'' ''tmp'', path_join ''in'' ''new'') (5, 2, 3, 4) out no_files = (Inr (), w1)" "faults w1 = []"
    "files w1 (new_path ''in'' chat_name) = Some out" "\<And>n. CHR ''/'' \<notin> set n \<Longrightarrow> files w1 (path_join chat_dir n) = None"
proof -
  let ?inbox = "(path_join ''in'' ''tmp'', path_join ''in'' ''new'')"
  obtain w1 where w1: "tot_deliver ?inbox (5, 2, 3, 4) out no_files = (Inr (), w1)" "faults w1 = []"
    using deliver_fault_free [of no_files ?inbox "(5, 2, 3, 4)" out] by (auto simp: no_files_def)
  then obtain q where q: "inbox_deliver ?inbox chat_name out no_files = (Inr q, w1)"
    by (auto simp: tot_deliver_def chat_name_def split: sum.splits prod.splits)
  have plain: "CHR ''/'' \<notin> set chat_name" using unique_name_plain by (simp add: plain_name_def chat_name_def)
  have "files w1 (new_path ''in'' chat_name) = Some out"
    using inbox.put_done [of "(''in'', 5, 2, 3, 4)" out no_files q w1] q by (simp add: chat_name_def new_path_def)
  moreover have "files w1 (path_join chat_dir n) = None" if "CHR ''/'' \<notin> set n" for n
    using inbox.put_frame [of "(''in'', 5, 2, 3, 4)" out no_files _ w1 "path_join chat_dir n"] q
      chat_apart [OF that plain, of "''tmp''"] chat_apart [OF that plain, of "''new''"]
    by (simp add: chat_name_def no_files_def)
  ultimately show thesis using that w1 by blast
qed

text \<open>What is in the session's directory: one reply.\<close>

definition one_reply :: "world \<Rightarrow> bool" where
  "one_reply u = (faults u = [] \<and> (\<exists>r. files u (path_join chat_dir ''r7.cbor'') = Some r) \<and>
    (\<forall>n. CHR ''/'' \<notin> set n \<longrightarrow> files u (path_join chat_dir n) \<noteq> None \<longrightarrow> n = ''r7.cbor''))"

lemma marked_reply: "one_reply u \<Longrightarrow> one_reply (snd (maildir_mark ''in'' chat_name u))"
proof -
  assume u: "one_reply u"
  have plain: "plain_name chat_name" by (simp add: chat_name_def unique_name_plain)
  then have slash: "CHR ''/'' \<notin> set chat_name" "CHR ''/'' \<notin> set (chat_name @ '':2,S'')" by (simp_all add: plain_name_def)
  have "files (snd (maildir_mark ''in'' chat_name u)) (path_join chat_dir n) = files u (path_join chat_dir n)" if "CHR ''/'' \<notin> set n" for n
    using chat_apart [OF that slash(1), of "''new''"] chat_apart [OF that slash(2), of "''cur''"]
    by (intro mark_frame [OF plain]) (simp_all add: new_path_def)
  then show ?thesis using u mark_faults by (simp add: one_reply_def)
qed

lemma chat_pass:
  assumes "stamp_session sample_raw (hex_encode sample_session) = Inr out" "length out \<le> 200"
    and "faults w1 = []" "files w1 (new_path ''in'' chat_name) = Some out" "\<And>n. CHR ''/'' \<notin> set n \<Longrightarrow> files w1 (path_join chat_dir n) = None"
  obtains g' where "process_carrier_messages chat_env None (on_world (maildir_carrier ''in'' ''out'' (plain_names [chat_name]) (1, 2, ''u'')))
      (sample_gateway\<lparr>gw_world := w1\<rparr>) = (Done (), g')" "one_reply (gw_world g')" "st_messages_processed (gw_stats g') = 1"
proof -
  let ?mc = "maildir_carrier ''in'' ''out'' (plain_names [chat_name]) (1, 2, ''u'')"
  have plain: "plain_name chat_name" by (simp add: chat_name_def unique_name_plain)
  obtain src where src: "maildir_check_new ''in'' (plain_names [chat_name]) w1 = (Inr [\<lparr>inc_id = chat_name, inc_raw = out, inc_source = src\<rparr>], w1)"
    using read_one [OF assms(3,4) plain] by blast
  let ?m = "\<lparr>inc_id = chat_name, inc_raw = out, inc_source = src\<rparr>" and ?g = "sample_gateway\<lparr>gw_world := w1\<rparr>"
  have work: "\<exists>h'. process_message chat_env ?m h = (Done (), h') \<and> one_reply (gw_world h')" if "gw_world h = w1" for h
  proof -
    have "faults (gw_world h) = []" "\<And>n. CHR ''/'' \<notin> set n \<Longrightarrow> files (gw_world h) (path_join chat_dir n) = None"
      using that assms(3,5) by simp_all
    from chat_processed [OF assms(1,2) this, where i = chat_name and s = src] show ?thesis
      unfolding one_reply_def by metis
  qed
  have check: "mk_check_new ?mc (gw_world ?g) = (Inr [?m], w1)" using src by (simp add: maildir_carrier_def)
  obtain u g' where "process_carrier_messages chat_env None (on_world ?mc) ?g = (Done (), g')"
    "one_reply u" "gw_world g' = snd (mk_mark_processed ?mc (inc_id ?m) u)"
    "st_messages_processed (gw_stats g') = wadd (st_messages_processed (gw_stats ?g)) 1"
    using pass_done [OF check work] by blast
  moreover have "st_messages_processed (gw_stats ?g) = 0" by (simp add: sample_gateway_def new_stats_def)
  ultimately show thesis
    using that [of g'] marked_reply [of u] by (simp add: maildir_carrier_def wadd_def)
qed

lemma chat_look:
  assumes "one_reply u"
  obtains k2 w2 where "session_step cap inbox i chat_dir (PollTick (Inr [''r7.cbor''])) l (\<lparr>sk_sent = [], sk_fails = \<lambda>_. None\<rparr>, u) = Going l (k2, w2)"
proof -
  have sorted: "has_cbor_extension ''r7.cbor''" by code_simp
  obtain r where "files u (path_join chat_dir ''r7.cbor'') = Some r" "faults u = []" using assms by (auto simp: one_reply_def)
  then show thesis
    using that by (simp add: session_step_def pump_replies_def sorted maildir_read_message_def sink_send_def Let_def)
qed


end
