(* ===== verification/RateBound.thy ===== *)
theory RateBound
  imports Promises
begin

text \<open>
  The rate limiter in the whole program: what a run of the maildir carrier lets through to Lambda, as a run of the
  limiter of \<open>Admission\<close>, and the bound that follows on the witness requests of one wallet.
\<close>

section \<open>The limiter over a stretch of time\<close>

text \<open>Requests between two times of the clock.\<close>

definition during :: "nat \<Rightarrow> (string \<times> nat \<times> nat) list \<Rightarrow> nat \<Rightarrow> bool" where
  "during t rs t' = clock_ok t (rs @ [([], t', t')])"

lemma during_none [simp]: "during t [] t' = (t \<le> t')"
  by (simp add: during_def)

lemma clock_ok_earlier: "clock_ok t rs \<Longrightarrow> s \<le> t \<Longrightarrow> clock_ok s rs"
  by (cases "(t, rs)" rule: clock_ok.cases) auto

lemma during_append: "during t rs t' \<Longrightarrow> during t' qs t2 \<Longrightarrow> during t (rs @ qs) t2"
  unfolding during_def
proof (induction rs arbitrary: t)
  case Nil
  then show ?case using clock_ok_earlier [of t' "qs @ [([], t2, t2)]" t] by simp
qed auto

lemma during_clock_ok: "during t rs t' \<Longrightarrow> clock_ok t rs"
  unfolding during_def by (induction rs arbitrary: t) auto

lemma rate_run_append:
  "rate_run c (rs @ qs) tab = (fst (rate_run c rs tab) @ fst (rate_run c qs (snd (rate_run c rs tab))),
     snd (rate_run c qs (snd (rate_run c rs tab))))"
  by (induction rs arbitrary: tab) (auto simp: case_prod_beta)

lemma during_le: "during t rs t' \<Longrightarrow> t \<le> t'"
  unfolding during_def by (induction rs arbitrary: t) fastforce+

lemma rate_run_times: "during t rs t' \<Longrightarrow> list_all (\<lambda>(w, a). t \<le> a \<and> a \<le> t') (fst (rate_run c rs tab))"
  unfolding during_def
proof (induction rs arbitrary: t tab)
  case (Cons r rs)
  obtain w now later where r: "r = (w, now, later)" by (cases r)
  have c: "t \<le> now" "now \<le> later" "clock_ok later (rs @ [([], t', t')])" using Cons.prems r by auto
  have "list_all (\<lambda>(w, a). t \<le> a \<and> a \<le> t') (fst (rate_run c rs tab'))" for tab'
    using Cons.IH [OF c(3), of tab'] c by (auto simp: list_all_iff case_prod_beta)
  moreover have "now \<le> t'"
    using during_le [of later rs t'] c by (simp add: during_def)
  ultimately show ?case using c by (simp add: r case_prod_beta [of _ "rate_gate _ _ _ _ _"] case_prod_beta [of _ "rate_run _ _ _"])
qed simp

text \<open>Spaced admissions of one wallet in a stretch of time are few.\<close>

lemma spaced_count:
  "spaced c ys \<Longrightarrow> list_all (\<lambda>(v, b). v = w \<longrightarrow> lo \<le> b \<and> b \<le> hi) ys \<Longrightarrow> lo \<le> hi + c \<Longrightarrow>
     count_list (map fst ys) w * c + lo \<le> hi + c"
proof (induction ys arbitrary: lo)
  case (Cons y ys)
  obtain v b where y: "y = (v, b)" by (cases y)
  show ?case
  proof (cases "v = w")
    case True
    have "list_all (\<lambda>(v, b'). v = w \<longrightarrow> b + c \<le> b' \<and> b' \<le> hi) ys"
      using Cons.prems(1,2) y True by (auto simp: list_all_iff)
    moreover have "b + c \<le> hi + c" "lo \<le> b" using Cons.prems(2) y True by auto
    ultimately show ?thesis using Cons.IH [of "b + c"] Cons.prems(1) y True by simp
  next
    case False
    then show ?thesis using Cons.IH [of lo] Cons.prems y by auto
  qed
qed simp

section \<open>Runs that respect the limiter\<close>

text \<open>The wallets whose witness requests went to Lambda without overlap signatures: the ones the limiter is for.\<close>

definition limited_of :: "witness_request \<Rightarrow> string list" where
  "limited_of req = (let w = tx_sender_wallet_id (wr_transaction req) in
     if wr_overlapped_signatures req = [] \<and> w \<noteq> [] then [w] else [])"

fun limited_wallets :: "gateway_event list \<Rightarrow> string list" where
  "limited_wallets [] = []"
| "limited_wallets (Called (CallWitness req) # es) = limited_of req @ limited_wallets es"
| "limited_wallets (e # es) = limited_wallets es"

lemma limited_wallets_append [simp]: "limited_wallets (es @ fs) = limited_wallets es @ limited_wallets fs"
  by (induction es rule: limited_wallets.induct) simp_all

text \<open>A run from \<open>g\<close> to \<open>g'\<close>: the limiter worked on some requests in between, and Lambda got no more witness requests of
  a wallet than it admitted.\<close>

definition gated :: "'n gateway_env \<Rightarrow> 'n gateway \<Rightarrow> 'n gateway \<Rightarrow> string list \<Rightarrow> bool" where
  "gated env g g' spare = (\<exists>rs tr.
     during (ge_clock env (gw_tick g)) rs (ge_clock env (gw_tick g')) \<and> gw_trace g' = gw_trace g @ tr \<and>
     gw_limiter g' = snd (rate_run (cooldown_ms env) rs (gw_limiter g)) \<and>
     (\<forall>w. count_list (limited_wallets tr @ spare) w \<le> count_list (map fst (fst (rate_run (cooldown_ms env) rs (gw_limiter g)))) w))"

definition admits :: "'n gateway_env \<Rightarrow> 'n gateway \<Rightarrow> 'n gateway \<Rightarrow> bool" where
  "admits env g g' = (mono (ge_clock env) \<longrightarrow> gw_tick g \<le> gw_tick g' \<and> gated env g g' [])"

lemma gated_trans:
  assumes "gated env g h []" "gated env h k spare"
  shows "gated env g k spare"
proof -
  let ?run = "\<lambda>rs g. rate_run (cooldown_ms env) rs (gw_limiter g)"
  obtain r1 t1 where 1: "during (ge_clock env (gw_tick g)) r1 (ge_clock env (gw_tick h))" "gw_trace h = gw_trace g @ t1"
    "gw_limiter h = snd (?run r1 g)" "\<forall>w. count_list (limited_wallets t1) w \<le> count_list (map fst (fst (?run r1 g))) w"
    using assms(1) by (auto simp: gated_def)
  obtain r2 t2 where 2: "during (ge_clock env (gw_tick h)) r2 (ge_clock env (gw_tick k))" "gw_trace k = gw_trace h @ t2"
    "gw_limiter k = snd (?run r2 h)" "\<forall>w. count_list (limited_wallets t2 @ spare) w \<le> count_list (map fst (fst (?run r2 h))) w"
    using assms(2) by (auto simp: gated_def)
  have "count_list (limited_wallets (t1 @ t2) @ spare) w \<le> count_list (map fst (fst (?run (r1 @ r2) g))) w" for w
    using 1(3) add_mono [OF 1(4) [rule_format, of w] 2(4) [rule_format, of w]] by (simp add: rate_run_append)
  moreover have "gw_limiter k = snd (?run (r1 @ r2) g)" using 1(3) 2(3) by (simp add: rate_run_append)
  moreover have "gw_trace k = gw_trace g @ (t1 @ t2)" using 1(2) 2(2) by simp
  ultimately show ?thesis using during_append [OF 1(1) 2(1)] unfolding gated_def by blast
qed

lemma gated_same:
  assumes "mono (ge_clock env)" "gw_limiter g' = gw_limiter g" "gw_tick g \<le> gw_tick g'"
    "gw_trace g' = gw_trace g @ tr" "limited_wallets tr = []"
  shows "gated env g g' []"
  unfolding gated_def using assms by (intro exI [of _ "[]"] exI [of _ tr]) (auto simp: mono_def)

lemma admits_same:
  "gw_limiter g' = gw_limiter g \<Longrightarrow> gw_tick g \<le> gw_tick g' \<Longrightarrow> gw_trace g' = gw_trace g @ tr \<Longrightarrow> limited_wallets tr = [] \<Longrightarrow>
     admits env g g'"
  by (simp add: admits_def gated_same)

lemma uncounted_wallets: "\<not> counted e \<Longrightarrow> limited_wallets [e] = []"
  by (cases e rule: counted.cases) simp_all

lemma other_wallets: "\<not> asks_witness c \<Longrightarrow> limited_wallets [Called c] = []"
  by (cases c) simp_all

interpretation admit: request_frame "admits env :: 'n gateway \<Rightarrow> 'n gateway \<Rightarrow> bool" env for env
proof (unfold_locales, goal_cases)
  case (2 g h k)
  then show ?case by (auto simp: admits_def intro: gated_trans order.trans)
next
  case (6 upd g)
  then show ?case by (auto simp: bumped_def intro!: admits_same [of _ _ "[]"])
next
  case (8 e g)
  then show ?case by (auto simp: uncounted_wallets intro!: admits_same [of _ _ "[e]"])
next
  case (10 call g)
  then show ?case by (auto simp: requested_def bumped_def other_wallets intro!: admits_same [of _ _ "[Called call]"])
qed (auto intro!: admits_same [of _ _ "[]"])

section \<open>The witness request\<close>

text \<open>Between the limiter and Lambda: no event, and the table stays.\<close>

definition bystands :: "'n gateway \<Rightarrow> 'n gateway \<Rightarrow> bool" where
  "bystands g g' = (gw_limiter g' = gw_limiter g \<and> gw_tick g \<le> gw_tick g' \<and> gw_trace g' = gw_trace g)"

interpretation bystand: local_frame "bystands :: 'n gateway \<Rightarrow> 'n gateway \<Rightarrow> bool" env for env
  by unfold_locales (auto simp: bystands_def bumped_def)

text \<open>The limiter let the request through, and nothing was asked for it yet.\<close>

definition pending :: "'n gateway_env \<Rightarrow> witness_request \<Rightarrow> 'n gateway \<Rightarrow> 'n gateway \<Rightarrow> bool" where
  "pending env req g g' = (mono (ge_clock env) \<longrightarrow> gw_tick g \<le> gw_tick g' \<and> gated env g g' (limited_of req))"

lemma gated_forget: "gated env g h spare \<Longrightarrow> gated env g h []"
  unfolding gated_def by (auto intro: add_leD1)

lemma gated_bystands: "mono (ge_clock env) \<Longrightarrow> gated env g h spare \<Longrightarrow> bystands h k \<Longrightarrow> gated env g k spare"
proof -
  assume m: "mono (ge_clock env)" and h: "gated env g h spare" and b: "bystands h k"
  obtain rs tr where r: "during (ge_clock env (gw_tick g)) rs (ge_clock env (gw_tick h))" "gw_trace h = gw_trace g @ tr"
    "gw_limiter h = snd (rate_run (cooldown_ms env) rs (gw_limiter g))"
    "\<forall>w. count_list (limited_wallets tr @ spare) w \<le> count_list (map fst (fst (rate_run (cooldown_ms env) rs (gw_limiter g)))) w"
    using h unfolding gated_def by blast
  have "during (ge_clock env (gw_tick g)) rs (ge_clock env (gw_tick k))"
    using during_append [OF r(1), of "[]"] m b by (simp add: bystands_def mono_def)
  then show ?thesis using r b unfolding gated_def bystands_def by auto
qed

lemma pending_bystands: "pending env req g h \<Longrightarrow> bystands h k \<Longrightarrow> pending env req g k"
  by (auto simp: pending_def bystands_def intro: gated_bystands order.trans)

lemma pending_admits: "pending env req g h \<Longrightarrow> admits env g h"
  by (auto simp: pending_def admits_def intro: gated_forget)

lemma check_rate_gated:
  "mono (ge_clock env) \<Longrightarrow> check_rate env req g = (x, h) \<Longrightarrow>
     gw_tick g \<le> gw_tick h \<and> gated env g h (if x = Done () then limited_of req else [])"
proof -
  assume m: "mono (ge_clock env)" and run: "check_rate env req g = (x, h)"
  let ?w = "tx_sender_wallet_id (wr_transaction req)" and ?k = "gw_tick g"
  let ?rs = "[(?w, ge_clock env ?k, ge_clock env (Suc ?k))]"
  have d: "during (ge_clock env ?k) ?rs (ge_clock env (Suc (Suc ?k)))" using m by (simp add: during_def mono_def)
  show ?thesis
  proof (cases "wr_overlapped_signatures req \<noteq> [] \<or> ?w = []")
    case True
    then have "limited_of req = []" "h = g" using run by (auto simp: limited_of_def check_rate_eq Let_def)
    then show ?thesis using gated_same [OF m, of g g "[]"] by simp
  next
    case False
    let ?r = "rate_gate (cooldown_ms env) (ge_clock env ?k) (ge_clock env (Suc ?k)) ?w (gw_limiter g)"
    have "gw_tick h = Suc (Suc ?k)" "gw_trace h = gw_trace g" "gw_limiter h = snd ?r" "x = Done () \<longleftrightarrow> fst ?r"
      using run False by (auto simp: check_rate_eq Let_def bumped_def split: if_splits)
    then show ?thesis
      using d False unfolding gated_def
      by (intro conjI exI [of _ ?rs] exI [of _ "[]"]) (auto simp: limited_of_def Let_def case_prod_beta)
  qed
qed

lemma asked_admits:
  "pending env req g h \<Longrightarrow> limited_of lreq = limited_of req \<Longrightarrow> admits env g (requested (CallWitness lreq) h)"
proof -
  assume p: "pending env req g h" and l: "limited_of lreq = limited_of req"
  let ?h = "requested (CallWitness lreq) h"
  have "gated env g ?h []" if m: "mono (ge_clock env)"
  proof -
    let ?k = "h\<lparr>gw_tick := Suc (gw_tick h)\<rparr>"
    have "bystands h ?k" by (simp add: bystands_def)
    then have "gated env g ?k (limited_of req)" using p m gated_bystands by (auto simp: pending_def)
    then obtain rs tr where r: "during (ge_clock env (gw_tick g)) rs (ge_clock env (gw_tick ?k))" "gw_trace ?k = gw_trace g @ tr"
      "gw_limiter ?k = snd (rate_run (cooldown_ms env) rs (gw_limiter g))"
      "\<forall>w. count_list (limited_wallets tr @ limited_of req) w \<le> count_list (map fst (fst (rate_run (cooldown_ms env) rs (gw_limiter g)))) w"
      unfolding gated_def by blast
    then show ?thesis
      unfolding gated_def using l
      by (intro exI [of _ rs] exI [of _ "tr @ [Called (CallWitness lreq)]"]) (auto simp: requested_def bumped_def)
  qed
  then show ?thesis using p by (auto simp: admits_def pending_def requested_def bumped_def)
qed

text \<open>A step that bystands, with what its end says about the value.\<close>

lemma pending_bind:
  assumes "pending env req g h" "keeps bystands m"
    and "\<And>a k. m h = (Done a, k) \<Longrightarrow> pending env req g k \<Longrightarrow> admits env g (snd (f a k))"
  shows "admits env g (snd (gw_bind m f h))"
proof -
  obtain x k where m: "m h = (x, k)" by fastforce
  have k: "pending env req g k" using pending_bystands [OF assms(1)] assms(2) m by (metis keeps_def snd_conv)
  show ?thesis using m k assms(3) pending_admits [OF k] by (cases x) (auto simp: gw_bind_def)
qed

lemma cl2_same_wallet: "check_cl2 env rid req g = (Done (Inr lreq), h) \<Longrightarrow> limited_of lreq = limited_of req"
proof -
  assume "check_cl2 env rid req g = (Done (Inr lreq), h)"
  then obtain cert where c: "core_lets env req cert lreq" using check_cl2_done by blast
  then show ?thesis
    by (cases "ge_avm env (cl2_inputs req cert (map_option (ge_subject_pk env) cert))") (simp_all add: core_lets_def limited_of_def)
qed

lemma after_cl2_admits:
  assumes "pending env req g h" "\<And>lreq. v = Inr lreq \<Longrightarrow> limited_of lreq = limited_of req"
  shows "admits env g (snd (after_cl2 env v h))"
proof (cases v)
  case (Inl r)
  then show ?thesis using pending_admits [OF assms(1)] by (simp add: after_cl2_def gw_simps)
next
  case (Inr lreq)
  let ?h = "requested (CallWitness lreq) h"
  have asked: "admits env g ?h" using asked_admits [OF assms(1)] assms(2) Inr by blast
  have errors: "admits env ?h (bumped st_lambda_errors_update ?h)"
    by (rule admits_same [of _ _ "[]"]) (simp_all add: bumped_def)
  let ?rest = "\<lambda>reply. gw_bind (deliver_cheque env lreq reply) (\<lambda>_. gw_bind (deliver_certificate env lreq reply) (\<lambda>_.
         gw_bind (deliver_scar_consent env lreq reply) (\<lambda>_. gw_bind (send_outbound_audit env reply) (\<lambda>_.
         gw_return (ge_sender_leg env reply)))))"
  have "admits env ?h (snd (?rest reply ?h))" for reply
  proof -
    have "keeps (admits env) (?rest reply)" by (intro admit.frame_rules admit.keeps_deliveries)
    then show ?thesis by (simp add: keeps_def)
  qed
  then show ?thesis
    using admit.trans [OF asked] errors Inr
    by (simp add: after_cl2_def gw_bind_def [of "track_lambda _ _"] track_lambda_eq split: sum.split)
qed

lemma witness_admits: "keeps (admits env) (handle_witness_request env email)"
  unfolding handle_witness_request_split
proof (rule admit.frame_rules(1))
  show "keeps (admits env) (decode_witness_request env email)"
    by (simp add: keeps_def decode_same admits_same [of _ _ "[]"])
  fix req
  show "keeps (admits env) (gw_bind (check_rate env req) (\<lambda>_. gw_bind (check_ban env req) (\<lambda>_.
     gw_bind (check_signature env req) (\<lambda>_. gw_bind (check_cl2 env (em_request_id email) req) (\<lambda>v. after_cl2 env v)))))"
    unfolding keeps_def
  proof
    fix g
    obtain x h where run: "check_rate env req g = (x, h)" by fastforce
    note h = check_rate_gated [OF _ run]
    show "admits env g (snd (gw_bind (check_rate env req) (\<lambda>_. gw_bind (check_ban env req) (\<lambda>_.
     gw_bind (check_signature env req) (\<lambda>_. gw_bind (check_cl2 env (em_request_id email) req) (\<lambda>v. after_cl2 env v)))) g))"
    proof (cases x)
      case (Done u)
      then have "pending env req g h" using h by (simp add: pending_def)
      then have "admits env g (snd (gw_bind (check_ban env req) (\<lambda>_.
         gw_bind (check_signature env req) (\<lambda>_. gw_bind (check_cl2 env (em_request_id email) req) (\<lambda>v. after_cl2 env v))) h))"
        by (rule pending_bind [OF _ bystand.keeps_ban], elim pending_bind [OF _ bystand.keeps_signature],
            elim pending_bind [OF _ bystand.keeps_cl2]) (auto intro: after_cl2_admits cl2_same_wallet)
      then show ?thesis using run Done by (simp add: gw_bind_def [of "check_rate env req"])
    qed (use run h in \<open>simp_all add: gw_bind_def admits_def\<close>)
  qed
qed

interpretation admit: pass_frame "admits env :: 'n gateway \<Rightarrow> 'n gateway \<Rightarrow> bool" env for env
proof (unfold_locales, goal_cases)
  case (1 email)
  show ?case by (rule witness_admits)
qed (auto simp: bumped_def inbox_counters_def intro!: admits_same [of _ _ "[]"])

section \<open>The bound\<close>

text \<open>A table of the limiter at a time of the clock: named wallets, each once, and times that have passed.\<close>

definition table_ok :: "nat \<Rightarrow> limiter \<Rightarrow> bool" where
  "table_ok t tab = (distinct (map fst tab) \<and> list_all (\<lambda>(w, a). w \<noteq> [] \<and> a \<le> t) tab)"

lemma recalls_table: "table_ok t tab \<Longrightarrow> recalls cooldown t tab (map_of tab)"
  by (auto simp: recalls_def table_ok_def list_all_iff cooled_def dest!: map_of_SomeD)

text \<open>C11. No wallet gets more witness requests through to Lambda than its cooldown allows.  With a monotonic clock, over any run
  of the maildir carrier from any state with a well-formed limiter, whatever the mail, the calls of Lambda for one
  wallet (requests that complete a collected set of overlap signatures are exempt) times the cooldown are at most
  the time that passed and one cooldown more: at most one call in every cooldown, and the first.\<close>

theorem witness_rate_bound:
  assumes "mono (ge_clock env)" "table_ok (ge_clock env (gw_tick g)) (gw_limiter g)"
  shows "\<exists>tr. gw_trace (snd (run_maildir_carrier env md (on_world mc) rounds g)) = gw_trace g @ tr \<and>
    (\<forall>w. count_list (limited_wallets tr) w * cooldown_ms env \<le>
       ge_clock env (gw_tick (snd (run_maildir_carrier env md (on_world mc) rounds g))) - ge_clock env (gw_tick g) + cooldown_ms env)"
proof -
  let ?g = "snd (run_maildir_carrier env md (on_world mc) rounds g)" and ?c = "cooldown_ms env"
  let ?lo = "ge_clock env (gw_tick g)" and ?hi = "ge_clock env (gw_tick ?g)"
  obtain rs tr where r: "during ?lo rs ?hi" "gw_trace ?g = gw_trace g @ tr"
    "\<forall>w. count_list (limited_wallets tr) w \<le> count_list (map fst (fst (rate_run ?c rs (gw_limiter g)))) w"
  proof -
    have "admits env g ?g" using admit.keeps_run [of env md mc rounds] by (simp add: keeps_def)
    then show ?thesis using assms(1) that by (auto simp: admits_def gated_def)
  qed
  let ?adm = "fst (rate_run ?c rs (gw_limiter g))"
  have "spaced ?c ?adm"
    using rate_run_admissions [OF recalls_table [OF assms(2)] during_clock_ok [OF r(1)]] spaced_admissions [OF during_clock_ok [OF r(1)]]
    by simp
  then have few: "count_list (map fst ?adm) w * ?c + ?lo \<le> ?hi + ?c" for w
    by (rule spaced_count) (use rate_run_times [OF r(1), of ?c "gw_limiter g"] during_le [OF r(1)] in \<open>auto simp: list_all_iff\<close>)
  have "count_list (limited_wallets tr) w * ?c \<le> ?hi - ?lo + ?c" for w
    using mult_le_mono1 [OF r(3) [rule_format, of w], of ?c] few [of w] during_le [OF r(1)] by linarith
  then show ?thesis using r(2) by blast
qed

lemma witness_rate_bound_witness:
  "let env = sample_gateway_env\<lparr>ge_clock := \<lambda>k. 10 * k\<rparr>; g = sample_gateway\<lparr>gw_tick := 3, gw_limiter := [(''w'', 20)]\<rparr>;
       g' = snd (run_maildir_carrier env \<lparr>mc_inbox = ''in'', mc_outbox = ''out''\<rparr>
         (on_world (maildir_carrier ''in'' ''out'' [] (1, 2, ''id''))) [(True, Event), (False, Quiet)] g) in
   count_list (limited_wallets (gw_trace g')) ''w'' * 2000 \<le> 10 * gw_tick g' - 30 + 2000"
proof -
  let ?env = "sample_gateway_env\<lparr>ge_clock := \<lambda>k. 10 * k\<rparr>" and ?g = "sample_gateway\<lparr>gw_tick := 3, gw_limiter := [(''w'', 20)]\<rparr>"
  have m: "mono (ge_clock ?env)" by (simp add: mono_def)
  have t: "table_ok (ge_clock ?env (gw_tick ?g)) (gw_limiter ?g)" by (simp add: table_ok_def)
  have c: "cooldown_ms ?env = 2000"
    by (simp add: cooldown_ms_def sample_gateway_env_def sample_config_def default_config_def opt_or_def default_cooldown_ms_def)
  have e: "gw_trace ?g = []" by (simp add: sample_gateway_def)
  show ?thesis
    using witness_rate_bound [OF m t, of "\<lparr>mc_inbox = ''in'', mc_outbox = ''out''\<rparr>" "maildir_carrier ''in'' ''out'' [] (1, 2, ''id'')"
        "[(True, Event), (False, Quiet)]"]
    unfolding c e by (auto simp: Let_def)
qed

end
